(* ===== verification/Percent.thy ===== *)
theory Percent
  imports Prelude
begin

text \<open>
  Percent encoding and decoding. The crate has four encoders over the same scheme:
  \<open>aws_uri_encode\<close> (\<open>src/signing/canonical.rs\<close>), \<open>encode_object_key\<close> and
  \<open>encode_path_component\<close> (\<open>src/endpoint/mod.rs\<close>) and \<open>percent_encode\<close> of the copy-source header
  (\<open>src/client/object/headers/request.rs\<close>), and one decoder, \<open>decode_url_field\<close>
  (\<open>src/protocol/listing.rs\<close>). Their common contract is the locale \<open>percent_codec\<close>; each encoder is
  an interpretation of it. The encoders that append to an output parameter return what they
  append. The theory also has the UTF-8 validity test of \<open>String::from_utf8\<close>.
\<close>

section \<open>UTF-8\<close>

definition utf8_cont :: "char \<Rightarrow> bool" where
  "utf8_cont c \<longleftrightarrow> 128 \<le> ord c \<and> ord c \<le> 191"

definition between :: "nat \<Rightarrow> nat \<Rightarrow> char \<Rightarrow> bool" where
  "between lo hi c \<longleftrightarrow> lo \<le> ord c \<and> ord c \<le> hi"

text \<open>The number of bytes of the character that starts with a given byte.\<close>

definition utf8_len :: "char \<Rightarrow> nat" where
  "utf8_len c = (if ord c < 128 then 1 else if ord c < 224 then 2 else if ord c < 240 then 3 else 4)"

definition utf8_seq :: "string \<Rightarrow> bool" where
  "utf8_seq s = (case s of
     [a] \<Rightarrow> ord a < 128
   | [a, b] \<Rightarrow> between 194 223 a \<and> utf8_cont b
   | [a, b, c] \<Rightarrow> utf8_cont c \<and>
       (ord a = 224 \<and> between 160 191 b \<or> between 225 236 a \<and> utf8_cont b \<or>
        ord a = 237 \<and> between 128 159 b \<or> between 238 239 a \<and> utf8_cont b)
   | [a, b, c, d] \<Rightarrow> utf8_cont c \<and> utf8_cont d \<and>
       (ord a = 240 \<and> between 144 191 b \<or> between 241 243 a \<and> utf8_cont b \<or>
        ord a = 244 \<and> between 128 143 b)
   | _ \<Rightarrow> False)"

lemma utf8_len_pos [simp]: "0 < utf8_len c"
  by (simp add: utf8_len_def)

fun valid_utf8 :: "string \<Rightarrow> bool" where
  "valid_utf8 [] = True"
| "valid_utf8 (c # cs) =
     (utf8_seq (take (utf8_len c) (c # cs)) \<and> valid_utf8 (drop (utf8_len c - 1) cs))"

lemma valid_utf8_ascii: "list_all (\<lambda>c. ord c < 128) s \<Longrightarrow> valid_utf8 s"
  by (induction s) (auto simp: utf8_len_def utf8_seq_def)

section \<open>Hexadecimal digits\<close>

abbreviation HEX :: string where "HEX \<equiv> ''0123456789ABCDEF''"

definition hex_value :: "char \<Rightarrow> nat option" where
  "hex_value c =
     (if is_ascii_digit c then Some (ord c - 48)
      else if 97 \<le> ord c \<and> ord c \<le> 102 then Some (ord c - 97 + 10)
      else if 65 \<le> ord c \<and> ord c \<le> 70 then Some (ord c - 65 + 10)
      else None)"

definition push_percent_encoded :: "char \<Rightarrow> string" where
  "push_percent_encoded c = [CHR ''%'', HEX ! (ord c div 16), HEX ! (ord c mod 16)]"

lemma less_16_cases:
  assumes "n < (16::nat)"
  shows "n \<in> {0,1,2,3,4,5,6,7,8,9,10,11,12,13,14,15}"
  using assms by (simp only: insert_iff empty_iff) presburger

lemma hex_value_HEX: "n < 16 \<Longrightarrow> hex_value (HEX ! n) = Some n"
  by (drule less_16_cases) (auto simp: hex_value_def is_ascii_digit_def)

lemma HEX_alphanumeric: "n < 16 \<Longrightarrow> is_ascii_digit (HEX ! n) \<or> is_ascii_uppercase (HEX ! n)"
  by (drule less_16_cases) (auto simp: is_ascii_digit_def is_ascii_uppercase_def)

lemma hex_value_less: "hex_value c = Some n \<Longrightarrow> n < 16"
  by (auto simp: hex_value_def is_ascii_digit_def split: if_splits)

lemma ord_nibbles: "ord c div 16 < 16" "ord c mod 16 < 16" "ord c div 16 * 16 + ord c mod 16 = ord c"
proof -
  have "ord c < 256" by simp
  then show "ord c div 16 < 16" by linarith
qed simp_all

section \<open>The decoder\<close>

text \<open>The loop of \<open>decode_url_field\<close>: \<open>None\<close> is an invalid triplet.\<close>

fun decode_loop :: "string \<Rightarrow> string option" where
  "decode_loop [] = Some []"
| "decode_loop (c # cs) =
     (if c = CHR ''%'' then
        (case cs of
           h # l # rest \<Rightarrow>
             (case (hex_value h, hex_value l) of
                (Some hi, Some lo) \<Rightarrow>
                  map_option ((#) (char_of (hi * 16 + lo))) (decode_loop rest)
              | _ \<Rightarrow> None)
         | _ \<Rightarrow> None)
      else map_option ((#) c) (decode_loop cs))"

datatype url_field_error = InvalidPercentEncoding | DecodedNotUtf8

definition decode_url_field :: "string \<Rightarrow> url_field_error + string" where
  "decode_url_field s =
     and_then (ok_or InvalidPercentEncoding (decode_loop s))
       (\<lambda>d. if valid_utf8 d then Inr d else Inl DecodedNotUtf8)"

lemma decode_percent_encoded:
  "decode_loop (push_percent_encoded c @ s) = map_option ((#) c) (decode_loop s)"
  by (simp add: push_percent_encoded_def hex_value_HEX ord_nibbles)

section \<open>The contract of an encoder\<close>

locale percent_codec =
  fixes keep :: "char \<Rightarrow> bool" and encode :: "string \<Rightarrow> string"
  assumes keep_not_percent: "\<not> keep CHR ''%''"
    and encode_Nil: "encode [] = []"
    and encode_Cons: "encode (c # cs) = (if keep c then [c] else push_percent_encoded c) @ encode cs"
begin

lemma encode_concat: "encode s = concat (map (\<lambda>c. if keep c then [c] else push_percent_encoded c) s)"
  by (induction s) (auto simp: encode_Nil encode_Cons)

lemma encode_append: "encode (s @ t) = encode s @ encode t"
  by (simp add: encode_concat)

lemma encode_Nil_iff: "encode s = [] \<longleftrightarrow> s = []"
  by (cases s) (auto simp: encode_Nil encode_Cons push_percent_encoded_def)

lemma decode_encode_append: "decode_loop (encode s @ t) = map_option ((@) s) (decode_loop t)"
proof (induction s)
  case Nil
  show ?case by (cases "decode_loop t") (simp_all add: encode_Nil)
next
  case (Cons c cs)
  show ?case
  proof (cases "keep c")
    case True
    with keep_not_percent have "c \<noteq> CHR ''%''" by auto
    with True Cons show ?thesis by (cases "decode_loop t") (simp_all add: encode_Cons)
  next
    case False
    with Cons show ?thesis
      by (cases "decode_loop t") (simp_all add: encode_Cons decode_percent_encoded)
  qed
qed

lemma decode_encode: "decode_loop (encode s) = Some s"
  using decode_encode_append[of s "[]"] by simp

lemma encode_inj: "encode s = encode t \<longleftrightarrow> s = t"
  by (metis decode_encode option.inject)

lemma encode_alphabet:
  "c \<in> set (encode s) \<Longrightarrow> keep c \<or> c = CHR ''%'' \<or> is_ascii_digit c \<or> is_ascii_uppercase c"
  by (induction s)
     (use HEX_alphanumeric[OF ord_nibbles(1)] HEX_alphanumeric[OF ord_nibbles(2)] in
       \<open>auto simp: encode_Nil encode_Cons push_percent_encoded_def split: if_splits\<close>)

lemma encode_kept: "list_all keep s \<Longrightarrow> encode s = s"
  by (induction s) (auto simp: encode_Nil encode_Cons)

lemma length_encode: "length s \<le> length (encode s) \<and> length (encode s) \<le> 3 * length s"
  by (induction s) (auto simp: encode_Nil encode_Cons push_percent_encoded_def)

lemma decode_url_field_encode: "valid_utf8 s \<Longrightarrow> decode_url_field (encode s) = Inr s"
  by (simp add: decode_url_field_def decode_encode)

end

section \<open>The encoders\<close>

definition is_unreserved :: "char \<Rightarrow> bool" where
  "is_unreserved c \<longleftrightarrow> is_ascii_alphanumeric c \<or> c \<in> {CHR ''-'', CHR ''.'', CHR ''_'', CHR ''~''}"

fun aws_uri_encode :: "bool \<Rightarrow> string \<Rightarrow> string" where
  "aws_uri_encode encode_slash [] = []"
| "aws_uri_encode encode_slash (c # cs) =
     (if is_ascii_alphanumeric c \<or> c \<in> {CHR ''-'', CHR ''.'', CHR ''_'', CHR ''~''} \<or>
         (c = CHR ''/'' \<and> \<not> encode_slash)
      then [c] else [CHR ''%'', HEX ! (ord c div 16), HEX ! (ord c mod 16)])
     @ aws_uri_encode encode_slash cs"

fun encode_object_key :: "string \<Rightarrow> string" where
  "encode_object_key [] = []"
| "encode_object_key (c # cs) =
     (if c = CHR ''/'' \<or> is_unreserved c then [c] else push_percent_encoded c) @ encode_object_key cs"

fun encode_path_component :: "string \<Rightarrow> string" where
  "encode_path_component [] = []"
| "encode_path_component (c # cs) =
     (if is_unreserved c then [c] else push_percent_encoded c) @ encode_path_component cs"

fun percent_encode :: "bool \<Rightarrow> string \<Rightarrow> string" where
  "percent_encode preserve_slash [] = []"
| "percent_encode preserve_slash (c # cs) =
     (if is_ascii_alphanumeric c \<or> c \<in> {CHR ''-'', CHR ''.'', CHR ''_'', CHR ''~''} \<or>
         (preserve_slash \<and> c = CHR ''/'')
      then [c] else [CHR ''%'', HEX ! (ord c div 16), HEX ! (ord c mod 16)])
     @ percent_encode preserve_slash cs"

abbreviation keep_slash :: "char \<Rightarrow> bool" where
  "keep_slash c \<equiv> is_unreserved c \<or> c = CHR ''/''"

lemma percent_reserved [simp]: "\<not> is_ascii_alphanumeric CHR ''%''" "\<not> is_unreserved CHR ''%''"
  by (simp_all add: is_unreserved_def byte_simps)

interpretation aws_true: percent_codec is_unreserved "aws_uri_encode True"
  by unfold_locales (auto simp: is_unreserved_def push_percent_encoded_def)

interpretation aws_false: percent_codec keep_slash "aws_uri_encode False"
  by unfold_locales (auto simp: is_unreserved_def push_percent_encoded_def)

interpretation object_key: percent_codec keep_slash encode_object_key
  by unfold_locales auto

interpretation path_component: percent_codec is_unreserved encode_path_component
  by unfold_locales auto

interpretation copy_key: percent_codec keep_slash "percent_encode True"
  by unfold_locales (auto simp: is_unreserved_def push_percent_encoded_def)

interpretation copy_part: percent_codec is_unreserved "percent_encode False"
  by unfold_locales (auto simp: is_unreserved_def push_percent_encoded_def)

lemma decode_aws_uri_encode: "decode_loop (aws_uri_encode b s) = Some s"
  by (cases b) (simp_all add: aws_true.decode_encode aws_false.decode_encode)

lemma aws_uri_encode_inj: "aws_uri_encode b s = aws_uri_encode b t \<longleftrightarrow> s = t"
  by (cases b) (simp_all add: aws_true.encode_inj aws_false.encode_inj)

text \<open>
  Property C33. Percent encoding loses nothing: decoding what the signer's encoder produced gives
  back the input, for every UTF-8 string and both slash modes, so distinct names, values and keys
  have distinct encodings.
\<close>

theorem uri_encoding_round_trip:
  assumes "valid_utf8 s"
  shows "decode_url_field (aws_uri_encode encode_slash s) = Inr s \<and>
         (\<forall>t. aws_uri_encode encode_slash t = aws_uri_encode encode_slash s \<longrightarrow> t = s)"
  using assms by (simp add: decode_url_field_def decode_aws_uri_encode aws_uri_encode_inj)

theorem uri_encoding_round_trip_witness:
  "valid_utf8 ''a b+c/%'' \<and> aws_uri_encode True ''a b+c/%'' = ''a%20b%2Bc%2F%25'' \<and>
   decode_url_field ''a%20b%2Bc%2F%25'' = Inr ''a b+c/%''"
proof -
  have v: "valid_utf8 ''a b+c/%''" by code_simp
  have e: "aws_uri_encode True ''a b+c/%'' = ''a%20b%2Bc%2F%25''" by code_simp
  show ?thesis using uri_encoding_round_trip[OF v, of True, unfolded e] v e by blast
qed

lemma aws_true_alphabet: "c \<in> set (aws_uri_encode True s) \<Longrightarrow> is_unreserved c \<or> c = CHR ''%''"
  using aws_true.encode_alphabet[of c s] by (auto simp: is_unreserved_def is_ascii_alphanumeric_def)

text \<open>
  An encoded name or value is safe in a query and in a path: besides unreserved
  characters it holds only percent signs and uppercase hexadecimal digits, never a plus sign, a
  slash, an ampersand, an equals sign, a question mark, a hash or a space; its length is at most
  three times the input's.
\<close>

lemma uri_encoding_alphabet:
  "set (aws_uri_encode True s) \<inter> set ''+/&=?# '' = {} \<and>
   list_all (\<lambda>c. is_unreserved c \<or> c = CHR ''%'') (aws_uri_encode True s) \<and>
   length (aws_uri_encode True s) \<le> 3 * length s"
proof -
  have bad: "list_all (\<lambda>c. \<not> (is_unreserved c \<or> c = CHR ''%'')) ''+/&=?# ''"
    by (simp add: is_unreserved_def byte_simps)
  have "\<forall>c \<in> set (aws_uri_encode True s). is_unreserved c \<or> c = CHR ''%''"
    using aws_true_alphabet by blast
  moreover from this bad have "set (aws_uri_encode True s) \<inter> set ''+/&=?# '' = {}"
    unfolding list_all_iff by blast
  ultimately show ?thesis
    using aws_true.length_encode[of s] unfolding list_all_iff by blast
qed

end
