(* ===== verification/Canonical.thy ===== *)
theory Canonical
  imports Percent
begin

text \<open>
  SigV4 canonicalisation, \<open>src/signing/canonical.rs\<close>: the canonical URI of a raw and of an already
  encoded path, the canonical query and the canonical header block. The \<open>BTreeMap\<close> of the header
  loop is an association list kept sorted by key. The header-value loop runs over the bytes of the
  value where the code runs over its characters: it only tests for a space or a tab, which are no
  part of any longer UTF-8 character.
\<close>

datatype signing_error =
    InvalidCredentials | InvalidScope | InvalidMethod | InvalidHeaderName | InvalidHeaderValue
  | MissingHostHeader | InvalidHostHeader | InvalidPayloadHash | InvalidEncodedUri
  | ReservedHeader | ReservedQueryParameter | InvalidExpiry | UnsupportedPresignMethod
  | Cryptographic | SigningTimestamp

record query_param =
  qp_name :: string
  qp_value :: string

record header =
  h_name :: string
  h_value :: string

record canonical_headers_block =
  canonical :: string
  signed :: string

section \<open>The canonical URI\<close>

definition canonical_uri :: "string \<Rightarrow> string" where
  "canonical_uri path =
     (if path = [] then ''/''
      else let encoded = aws_uri_encode False path in
        if starts_with encoded ''/'' then encoded else ''/'' @ encoded)"

text \<open>
  The loop over an encoded path. A byte that is neither a percent sign nor kept as it is starts a
  UTF-8 character, which is encoded whole.
\<close>

function encoded_uri_loop :: "string \<Rightarrow> signing_error + string" where
  "encoded_uri_loop [] = Inr []"
| "encoded_uri_loop (c # cs) =
     (if c = CHR ''%'' then
        (case cs of
           h # l # rest \<Rightarrow>
             (case hex_value h of
                None \<Rightarrow> Inl InvalidEncodedUri
              | Some hi \<Rightarrow>
                  (case hex_value l of
                     None \<Rightarrow> Inl InvalidEncodedUri
                   | Some lo \<Rightarrow> and_then (encoded_uri_loop rest)
                       (\<lambda>r. Inr ([CHR ''%'', HEX ! hi, HEX ! lo] @ r))))
         | _ \<Rightarrow> Inl InvalidEncodedUri)
      else if is_ascii_alphanumeric c \<or> c \<in> {CHR ''-'', CHR ''.'', CHR ''_'', CHR ''~'', CHR ''/''} then
        and_then (encoded_uri_loop cs) (\<lambda>r. Inr (c # r))
      else
        and_then (encoded_uri_loop (drop (utf8_len c - 1) cs))
          (\<lambda>r. Inr (aws_uri_encode True (take (utf8_len c) (c # cs)) @ r)))"
  by pat_completeness auto
termination
  by (relation "measure length") auto

definition canonical_uri_from_encoded :: "string \<Rightarrow> signing_error + string" where
  "canonical_uri_from_encoded path =
     and_then (encoded_uri_loop path)
       (\<lambda>r. let c = (if starts_with path ''/'' then [] else ''/'') @ r in
          Inr (if c = [] then ''/'' else c))"

section \<open>The canonical query\<close>

definition encode_param :: "query_param \<Rightarrow> string \<times> string" where
  "encode_param p = (aws_uri_encode True (qp_name p), aws_uri_encode True (qp_value p))"

definition render_param :: "string \<times> string \<Rightarrow> string" where
  "render_param p = fst p @ ''='' @ snd p"

definition canonical_query :: "query_param list \<Rightarrow> string" where
  "canonical_query ps = join ''&'' (map render_param (sort (map encode_param ps)))"

section \<open>The canonical headers\<close>

definition valid_header_name :: "string \<Rightarrow> bool" where
  "valid_header_name name \<longleftrightarrow> name \<noteq> [] \<and>
     list_all (\<lambda>c. is_ascii_alphanumeric c \<or> c \<in> set ''!#$%&*+-.^_`|~'' \<or> c = CHR 0x27) name"

definition is_blank :: "char \<Rightarrow> bool" where
  "is_blank c \<longleftrightarrow> c = CHR '' '' \<or> c = CHR 0x09"

fun normalize_loop :: "string \<Rightarrow> bool \<Rightarrow> string \<Rightarrow> string" where
  "normalize_loop normalized pending_space [] = normalized"
| "normalize_loop normalized pending_space (c # cs) =
     (if is_blank c then normalize_loop normalized (normalized \<noteq> []) cs
      else normalize_loop (normalized @ (if pending_space then '' '' else []) @ [c]) False cs)"

definition bad_header_byte :: "char \<Rightarrow> bool" where
  "bad_header_byte c \<longleftrightarrow> is_ascii_control c \<and> c \<noteq> CHR 0x09"

definition normalize_header_value :: "string \<Rightarrow> signing_error + string" where
  "normalize_header_value v =
     (if list_ex bad_header_byte v then Inl InvalidHeaderValue
      else Inr (normalize_loop [] False v))"

text \<open>\<open>BTreeMap::entry(k).or_default().push(v)\<close>.\<close>

fun entry_push :: "'k::linorder \<Rightarrow> 'v \<Rightarrow> ('k \<times> 'v list) list \<Rightarrow> ('k \<times> 'v list) list" where
  "entry_push k v [] = [(k, [v])]"
| "entry_push k v ((a, vs) # m) =
     (if k < a then (k, [v]) # (a, vs) # m
      else if k = a then (a, vs @ [v]) # m
      else (a, vs) # entry_push k v m)"

fun order_headers ::
  "(string \<times> string list) list \<Rightarrow> header list \<Rightarrow> signing_error + (string \<times> string list) list" where
  "order_headers m [] = Inr m"
| "order_headers m (h # hs) =
     (if \<not> valid_header_name (h_name h) then Inl InvalidHeaderName
      else and_then (normalize_header_value (h_value h))
        (\<lambda>v. order_headers (entry_push (str_to_ascii_lowercase (h_name h)) v m) hs))"

definition render_headers :: "(string \<times> string list) list \<Rightarrow> canonical_headers_block" where
  "render_headers m =
     \<lparr>canonical = concat (map (\<lambda>(n, vs). n @ '':'' @ join '','' vs @ [CHR 0x0A]) m),
      signed = join '';'' (map fst m)\<rparr>"

definition canonical_headers :: "header list \<Rightarrow> signing_error + canonical_headers_block" where
  "canonical_headers hs =
     and_then (order_headers [] hs)
       (\<lambda>ordered.
          if ordered = [] then Inl MissingHostHeader
          else (case map_of ordered ''host'' of
                  None \<Rightarrow> Inl MissingHostHeader
                | Some vs \<Rightarrow>
                    if length vs \<noteq> 1 \<or> vs ! 0 = [] then Inl InvalidHostHeader
                    else Inr (render_headers ordered)))"

section \<open>The path is canonicalised once\<close>

lemma keep_not_pct: "keep_slash c \<Longrightarrow> c \<noteq> CHR ''%''"
  by auto

lemma kept_iff:
  "is_ascii_alphanumeric c \<or> c \<in> {CHR ''-'', CHR ''.'', CHR ''_'', CHR ''~'', CHR ''/''} \<longleftrightarrow> keep_slash c"
  by (auto simp: is_unreserved_def)

lemma encoded_uri_loop_keep [simp]:
  "keep_slash c \<Longrightarrow> encoded_uri_loop (c # s) = and_then (encoded_uri_loop s) (\<lambda>r. Inr (c # r))"
  by (auto simp: is_unreserved_def)

lemma encoded_uri_loop_triplet [simp]:
  "hi < 16 \<Longrightarrow> lo < 16 \<Longrightarrow>
   encoded_uri_loop (CHR ''%'' # HEX ! hi # HEX ! lo # s) =
     and_then (encoded_uri_loop s) (\<lambda>r. Inr (CHR ''%'' # HEX ! hi # HEX ! lo # r))"
  by (simp add: hex_value_HEX)

lemma encoded_uri_loop_percent_byte:
  "encoded_uri_loop (push_percent_encoded c @ s) =
     and_then (encoded_uri_loop s) (\<lambda>r. Inr (push_percent_encoded c @ r))"
  by (simp add: push_percent_encoded_def ord_nibbles hex_value_HEX)

declare encoded_uri_loop.simps(2) [simp del]

lemma encoded_uri_loop_other:
  "c \<noteq> CHR ''%'' \<Longrightarrow> \<not> keep_slash c \<Longrightarrow>
   encoded_uri_loop (c # cs) =
     and_then (encoded_uri_loop (drop (utf8_len c - 1) cs))
       (\<lambda>r. Inr (aws_uri_encode True (take (utf8_len c) (c # cs)) @ r))"
  by (simp only: encoded_uri_loop.simps(2) kept_iff if_False)

text \<open>Text made of kept characters and canonical triplets is a fixed point of the loop.\<close>

lemma encoded_uri_loop_encoder:
  assumes "percent_codec keep enc" and "\<And>c. keep c \<Longrightarrow> keep_slash c"
  shows "encoded_uri_loop (enc s @ t) = and_then (encoded_uri_loop t) (\<lambda>r. Inr (enc s @ r))"
proof (induction s)
  case Nil
  show ?case using assms(1) by (cases "encoded_uri_loop t") (simp_all add: percent_codec.encode_Nil)
next
  case (Cons c cs)
  show ?case
  proof (cases "keep c")
    case True
    with assms(2) have "keep_slash c" by blast
    with True Cons assms(1) show ?thesis
      by (cases "encoded_uri_loop t") (simp_all add: percent_codec.encode_Cons)
  next
    case False
    with Cons assms(1) show ?thesis
      by (cases "encoded_uri_loop t")
         (simp_all add: percent_codec.encode_Cons encoded_uri_loop_percent_byte)
  qed
qed

lemmas encoded_uri_loop_aws =
  encoded_uri_loop_encoder[OF aws_true.percent_codec_axioms, simplified]
  encoded_uri_loop_encoder[OF object_key.percent_codec_axioms, simplified]
  encoded_uri_loop_encoder[OF path_component.percent_codec_axioms, simplified]

lemma encoded_uri_loop_idem: "encoded_uri_loop s = Inr r \<Longrightarrow> encoded_uri_loop r = Inr r"
proof (induction s arbitrary: r rule: encoded_uri_loop.induct)
  case (2 c cs)
  consider (pct) "c = CHR ''%''" | (kept) "c \<noteq> CHR ''%''" "keep_slash c"
    | (other) "c \<noteq> CHR ''%''" "\<not> keep_slash c" by blast
  then show ?case
  proof cases
    case pct
    with "2.prems" obtain h l rest hi lo q where
      *: "cs = h # l # rest" "hex_value h = Some hi" "hex_value l = Some lo"
        "encoded_uri_loop rest = Inr q" "r = CHR ''%'' # HEX ! hi # HEX ! lo # q"
      by (auto simp: encoded_uri_loop.simps(2) split: list.splits option.splits)
    with pct "2.IH"(1) have "encoded_uri_loop q = Inr q" by blast
    with * show ?thesis by (simp add: hex_value_less)
  next
    case kept
    with "2.prems" obtain q where q: "encoded_uri_loop cs = Inr q" "r = c # q" by auto
    moreover have "encoded_uri_loop q = Inr q"
      using "2.IH"(2)[unfolded kept_iff] kept q by blast
    ultimately show ?thesis using kept by simp
  next
    case other
    then obtain q where q: "encoded_uri_loop (drop (utf8_len c - 1) cs) = Inr q"
      "r = aws_uri_encode True (take (utf8_len c) (c # cs)) @ q"
      using "2.prems" by (auto simp: encoded_uri_loop_other)
    then have "encoded_uri_loop q = Inr q"
      using "2.IH"(3)[unfolded kept_iff] other by blast
    with q(2) show ?thesis by (simp add: encoded_uri_loop_aws)
  qed
qed simp

lemma decode_loop_plain:
  "CHR ''%'' \<notin> set x \<Longrightarrow> decode_loop (x @ t) = map_option ((@) x) (decode_loop t)"
  by (cases "decode_loop t"; induction x) auto

lemma utf8_seq_no_percent: "utf8_seq (c # cs) \<Longrightarrow> 128 \<le> ord c \<Longrightarrow> CHR ''%'' \<notin> set (c # cs)"
  by (auto simp: utf8_seq_def between_def utf8_cont_def split: list.splits)

lemma valid_utf8_ascii_Cons: "ord c < 128 \<Longrightarrow> valid_utf8 (c # s) = valid_utf8 s"
  by (simp add: utf8_len_def utf8_seq_def)

lemma hex_value_ascii: "hex_value h = Some n \<Longrightarrow> ord h < 128"
  by (auto simp: hex_value_def is_ascii_digit_def split: if_splits)

lemma keep_slash_ascii: "keep_slash c \<Longrightarrow> ord c < 128"
  by (auto simp: is_unreserved_def byte_simps)

lemma encoded_uri_loop_decode:
  "valid_utf8 s \<Longrightarrow> encoded_uri_loop s = Inr r \<Longrightarrow> decode_loop r = decode_loop s"
proof (induction s arbitrary: r rule: encoded_uri_loop.induct)
  case (2 c cs)
  consider (pct) "c = CHR ''%''" | (kept) "c \<noteq> CHR ''%''" "keep_slash c"
    | (other) "c \<noteq> CHR ''%''" "\<not> keep_slash c" by blast
  then show ?case
  proof cases
    case pct
    with "2.prems"(2) obtain h l rest hi lo q where
      *: "cs = h # l # rest" "hex_value h = Some hi" "hex_value l = Some lo"
        "encoded_uri_loop rest = Inr q" "r = CHR ''%'' # HEX ! hi # HEX ! lo # q"
      by (auto simp: encoded_uri_loop.simps(2) split: list.splits option.splits)
    have "valid_utf8 rest"
      using "2.prems"(1) * pct by (simp add: valid_utf8_ascii_Cons hex_value_ascii del: valid_utf8.simps(2))
    with pct * "2.IH"(1) have "decode_loop q = decode_loop rest" by blast
    with * pct show ?thesis by (simp add: hex_value_HEX hex_value_less)
  next
    case kept
    with "2.prems"(2) obtain q where q: "encoded_uri_loop cs = Inr q" "r = c # q" by auto
    have "valid_utf8 cs"
      using "2.prems"(1) keep_slash_ascii[OF kept(2)]
      by (simp add: valid_utf8_ascii_Cons del: valid_utf8.simps(2))
    with "2.IH"(2)[unfolded kept_iff] kept q have "decode_loop q = decode_loop cs" by blast
    with q kept show ?thesis by simp
  next
    case other
    let ?x = "take (utf8_len c) (c # cs)" and ?t = "drop (utf8_len c - 1) cs"
    obtain q where q: "encoded_uri_loop ?t = Inr q" "r = aws_uri_encode True ?x @ q"
      using other "2.prems"(2) by (auto simp: encoded_uri_loop_other)
    have x: "?x = c # take (utf8_len c - 1) cs" by (simp add: take_Cons')
    have "CHR ''%'' \<notin> set ?x"
    proof (cases "ord c < 128")
      case True
      with x other(1) show ?thesis by (simp add: utf8_len_def)
    next
      case False
      with "2.prems"(1) x utf8_seq_no_percent[of c "take (utf8_len c - 1) cs"] show ?thesis by simp
    qed
    then have "decode_loop (c # cs) = map_option ((@) ?x) (decode_loop ?t)"
      using decode_loop_plain[of ?x ?t] by (simp add: x del: decode_loop.simps)
    moreover have "decode_loop q = decode_loop ?t"
      using "2.IH"(3)[unfolded kept_iff] "2.prems"(1) other q by simp
    ultimately show ?thesis using q(2) aws_true.decode_encode_append[of ?x q] by simp
  qed
qed simp

text \<open>
  The path that is signed is the path that is sent: canonicalising an encoded path
  never encodes it a second time (it is idempotent), always yields an absolute path, and names the
  same bytes as the input once decoded.
\<close>

lemma canonical_uri_identity:
  assumes "canonical_uri_from_encoded path = Inr q" and "valid_utf8 path"
  shows "canonical_uri_from_encoded q = Inr q \<and> starts_with q ''/'' \<and>
         decode_loop q = decode_loop (if starts_with path ''/'' then path else ''/'' @ path)"
proof -
  from assms(1) obtain r where r: "encoded_uri_loop path = Inr r"
    and q: "let c = (if starts_with path ''/'' then [] else ''/'') @ r in q = (if c = [] then ''/'' else c)"
    by (auto simp: canonical_uri_from_encoded_def Let_def)
  have slash: "r = CHR ''/'' # tl r" if "starts_with path ''/''"
  proof -
    from that obtain t where "path = CHR ''/'' # t" by (auto simp: starts_with_iff)
    with r show ?thesis by auto
  qed
  have q': "q = (if starts_with path ''/'' then r else CHR ''/'' # r)"
    using q slash by (cases "starts_with path ''/''"; cases r) (auto simp: Let_def)
  have "encoded_uri_loop q = Inr q"
    using encoded_uri_loop_idem[OF r] by (simp add: q')
  moreover have sw: "starts_with q ''/''"
    using slash by (cases "starts_with path ''/''") (auto simp: q' starts_with_iff)
  moreover have "decode_loop q = decode_loop (if starts_with path ''/'' then path else ''/'' @ path)"
    using encoded_uri_loop_decode[OF assms(2) r] by (simp add: q')
  ultimately show ?thesis
    by (auto simp: canonical_uri_from_encoded_def starts_with_def)
qed

lemma canonical_uri_identity_witness:
  "canonical_uri_from_encoded ''/photos/a%20b%2fc+%25'' = Inr ''/photos/a%20b%2Fc%2B%25'' \<and>
   canonical_uri_from_encoded ''/photos/a%20b%2Fc%2B%25'' = Inr ''/photos/a%20b%2Fc%2B%25''"
proof -
  have c: "canonical_uri_from_encoded ''/photos/a%20b%2fc+%25'' = Inr ''/photos/a%20b%2Fc%2B%25''"
    by code_simp
  have v: "valid_utf8 ''/photos/a%20b%2fc+%25''" by code_simp
  from canonical_uri_identity[OF c v] c show ?thesis by blast
qed

section \<open>The query is determined up to order\<close>

lemma encode_param_inj: "encode_param p = encode_param q \<longleftrightarrow> p = q"
  by (auto simp: encode_param_def aws_true.encode_inj intro: query_param.equality)

lemma aws_true_no_sep: "CHR ''='' \<notin> set (aws_uri_encode True s)" "CHR ''&'' \<notin> set (aws_uri_encode True s)"
proof -
  have "list_all (\<lambda>c. \<not> (is_unreserved c \<or> c = CHR ''%'')) ''=&''"
    by (simp add: is_unreserved_def byte_simps)
  then show "CHR ''='' \<notin> set (aws_uri_encode True s)" "CHR ''&'' \<notin> set (aws_uri_encode True s)"
    using aws_true_alphabet by (fastforce simp: list_all_iff)+
qed

text \<open>A rendered list of pairs free of separators can be read back.\<close>

definition sep_free :: "string \<times> string \<Rightarrow> bool" where
  "sep_free p \<longleftrightarrow> CHR ''='' \<notin> set (fst p) \<and> CHR ''&'' \<notin> set (fst p) \<and> CHR ''&'' \<notin> set (snd p)"

lemma render_param_inj: "sep_free p \<Longrightarrow> sep_free q \<Longrightarrow> render_param p = render_param q \<longleftrightarrow> p = q"
proof -
  assume p: "sep_free p" and q: "sep_free q"
  have "split_once CHR ''='' (render_param p) = Some p" "split_once CHR ''='' (render_param q) = Some q"
    using p q split_once_append[of "CHR ''=''" "fst p" "snd p"]
      split_once_append[of "CHR ''=''" "fst q" "snd q"]
    by (simp_all add: render_param_def sep_free_def)
  then show ?thesis by (metis option.inject)
qed

lemma render_param_no_amp: "sep_free p \<Longrightarrow> CHR ''&'' \<notin> set (render_param p)"
  by (auto simp: render_param_def sep_free_def)

lemma render_param_not_Nil: "render_param p \<noteq> []" "[] \<noteq> render_param p"
  by (simp_all add: render_param_def)

lemma split_once_join:
  assumes "CHR ''&'' \<notin> set x" and "xs \<noteq> []"
  shows "split_once CHR ''&'' (join ''&'' (x # xs)) = Some (x, join ''&'' xs)"
proof -
  from assms(2) obtain y ys where "xs = y # ys" by (cases xs) auto
  with split_once_append[OF assms(1), of "join ''&'' xs"] show ?thesis by simp
qed

lemma join_render_Nil_iff: "join ''&'' (map render_param ps) = [] \<longleftrightarrow> ps = []"
  by (cases ps rule: remdups_adj.cases) (auto simp: render_param_not_Nil)

lemma sort_eq_iff_mset: "sort xs = sort ys \<longleftrightarrow> mset xs = mset ys"
proof
  assume "sort xs = sort ys"
  then have "mset (sort xs) = mset (sort ys)" by (rule arg_cong)
  then show "mset xs = mset ys" by simp
next
  assume "mset xs = mset ys"
  then have "sorted_list_of_multiset (mset xs) = sorted_list_of_multiset (mset ys)" by (rule arg_cong)
  then show "sort xs = sort ys" by simp
qed

lemma image_mset_inj: "inj f \<Longrightarrow> image_mset f A = image_mset f B \<longleftrightarrow> A = B"
proof
  assume f: "inj f" and eq: "image_mset f A = image_mset f B"
  have "image_mset (inv f) (image_mset f M) = M" for M
    using f by (simp only: multiset.map_comp inv_o_cancel multiset.map_id)
  from this[of A] this[of B] eq show "A = B" by metis
qed simp

lemma join_render_inj:
  "list_all sep_free ps \<Longrightarrow> list_all sep_free qs \<Longrightarrow>
   join ''&'' (map render_param ps) = join ''&'' (map render_param qs) \<Longrightarrow> ps = qs"
proof (induction ps arbitrary: qs)
  case Nil
  then show ?case using join_render_Nil_iff[of qs] by simp
next
  case (Cons p ps)
  have "qs \<noteq> []"
    using Cons.prems(3) join_render_Nil_iff[of "p # ps"] join_render_Nil_iff[of qs] by (metis list.distinct(1))
  then obtain q qs' where qs: "qs = q # qs'" by (cases qs) auto
  have amp: "CHR ''&'' \<notin> set (render_param p)" "CHR ''&'' \<notin> set (render_param q)"
    using Cons.prems qs by (simp_all add: render_param_no_amp)
  let ?s = "split_once CHR ''&''"
  have "?s (join ''&'' (map render_param (p # ps))) = ?s (join ''&'' (map render_param (q # qs')))"
    using Cons.prems(3) qs by simp
  then consider "ps = []" "qs' = []" | "ps \<noteq> []" "qs' \<noteq> []"
      "render_param p = render_param q" "join ''&'' (map render_param ps) = join ''&'' (map render_param qs')"
    using amp split_once_join[of "render_param p" "map render_param ps"]
      split_once_join[of "render_param q" "map render_param qs'"]
      split_once_None_iff[of "CHR ''&''" "render_param p"] split_once_None_iff[of "CHR ''&''" "render_param q"]
    by (cases "ps = []"; cases "qs' = []") auto
  then show ?case
  proof cases
    case 1
    with Cons.prems qs show ?thesis by (simp add: render_param_inj)
  next
    case 2
    with Cons.prems qs Cons.IH[of qs'] show ?thesis by (simp add: render_param_inj)
  qed
qed

lemma encode_param_sep_free: "sep_free (encode_param p)"
  by (simp add: sep_free_def encode_param_def aws_true_no_sep)

lemma canonical_query_permutation_mset:
  "canonical_query ps = canonical_query qs \<longleftrightarrow> mset ps = mset qs"
proof -
  have free: "list_all sep_free (sort (map encode_param xs))" for xs
    by (auto simp: list_all_iff encode_param_sep_free)
  have "canonical_query ps = canonical_query qs \<longleftrightarrow>
      sort (map encode_param ps) = sort (map encode_param qs)"
    unfolding canonical_query_def
    using join_render_inj[OF free[of ps] free[of qs]] by (rule iffI) (assumption, simp)
  also have "\<dots> \<longleftrightarrow> mset (map encode_param ps) = mset (map encode_param qs)"
    by (rule sort_eq_iff_mset)
  also have "\<dots> \<longleftrightarrow> mset ps = mset qs"
    unfolding mset_map
    by (rule image_mset_inj) (auto intro: injI simp: encode_param_inj)
  finally show ?thesis .
qed

text \<open>
  The canonical query depends on the parameters and on nothing else: two parameter
  lists have the same canonical query exactly when one is a permutation of the other, duplicates
  counted, and the encoded pairs appear in ascending order.
\<close>

lemma canonical_query_permutation:
  "(canonical_query ps = canonical_query qs \<longleftrightarrow> mset ps = mset qs) \<and>
   (\<exists>es. canonical_query ps = join ''&'' (map render_param es) \<and> sorted es \<and>
         mset es = image_mset encode_param (mset ps))"
  using canonical_query_permutation_mset
  by (auto simp: canonical_query_def intro!: exI[of _ "sort (map encode_param ps)"])

section \<open>Header values\<close>

text \<open>The reference: the maximal runs of non-blank bytes, joined by single spaces.\<close>

fun words_from :: "string \<Rightarrow> string \<Rightarrow> string list" where
  "words_from cur [] = (if cur = [] then [] else [cur])"
| "words_from cur (c # cs) =
     (if is_blank c then (if cur = [] then words_from [] cs else cur # words_from [] cs)
      else words_from (cur @ [c]) cs)"

lemma join_snoc: "xs \<noteq> [] \<Longrightarrow> join sep (xs @ [y]) = join sep xs @ sep @ y"
  by (induction xs rule: induct_list012) auto

lemma join_Nil_iff: "[] \<notin> set xs \<Longrightarrow> join '' '' xs = [] \<longleftrightarrow> xs = []"
  by (cases xs rule: remdups_adj.cases) auto

lemma normalize_loop_words:
  "(ws \<noteq> [] \<longrightarrow> [] \<notin> set ws) \<Longrightarrow>
   normalize_loop (join '' '' ws) (ws \<noteq> []) s = join '' '' (ws @ words_from [] s) \<and>
   (\<forall>cur. cur \<noteq> [] \<longrightarrow>
      normalize_loop (join '' '' (ws @ [cur])) False s = join '' '' (ws @ words_from cur s))"
proof (induction s arbitrary: ws)
  case Nil
  then show ?case by simp
next
  case (Cons c s)
  have ne: "join '' '' ws = [] \<longleftrightarrow> ws = []" using Cons.prems by (auto simp: join_Nil_iff)
  have nec: "join '' '' (ws @ [cur]) \<noteq> []" if "cur \<noteq> []" for cur
    using that Cons.prems by (cases "ws = []") (auto simp: join_snoc)
  show ?case
  proof (cases "is_blank c")
    case True
    have "normalize_loop (join '' '' (ws @ [cur])) True s = join '' '' (ws @ cur # words_from [] s)"
      if "cur \<noteq> []" for cur
      using that Cons.prems Cons.IH[of "ws @ [cur]"] by auto
    with True Cons ne nec show ?thesis by auto
  next
    case False
    have "join '' '' ws @ (if ws \<noteq> [] then '' '' else []) @ [c] = join '' '' (ws @ [[c]])"
      by (cases "ws = []") (simp_all add: join_snoc)
    moreover have "join '' '' (ws @ [cur]) @ [c] = join '' '' (ws @ [cur @ [c]])" for cur
      by (cases "ws = []") (simp_all add: join_snoc)
    ultimately show ?thesis using False Cons by simp
  qed
qed

text \<open>
  Header values are normalised as SigV4 asks: a value with a control byte other than
  a tab is rejected, and any other value becomes its words (maximal runs without spaces and tabs)
  joined by single spaces, so leading, trailing and repeated blanks never reach the signature.
\<close>

lemma normalize_header_value_words:
  "normalize_header_value v =
     (if list_ex bad_header_byte v then Inl InvalidHeaderValue
      else Inr (join '' '' (words_from [] v)))"
  using normalize_loop_words[of "[]" v] by (simp add: normalize_header_value_def)

section \<open>The header block\<close>

definition lower_name :: "header \<Rightarrow> string" where
  "lower_name h = str_to_ascii_lowercase (h_name h)"

definition valid_header :: "header \<Rightarrow> bool" where
  "valid_header h \<longleftrightarrow> valid_header_name (h_name h) \<and> \<not> list_ex bad_header_byte (h_value h)"

text \<open>The normalised values of one lowercase name, in the order the caller gave them.\<close>

definition values_of :: "header list \<Rightarrow> string \<Rightarrow> string list" where
  "values_of hs n = map (\<lambda>h. normalize_loop [] False (h_value h)) (filter (\<lambda>h. lower_name h = n) hs)"

text \<open>The specification: every name once, in ascending order, with its values.\<close>

definition grouped_headers :: "header list \<Rightarrow> (string \<times> string list) list" where
  "grouped_headers hs =
     map (\<lambda>n. (n, values_of hs n)) (sorted_list_of_set (set (map lower_name hs)))"

lemma values_of_Nil_iff: "values_of hs n = [] \<longleftrightarrow> n \<notin> set (map lower_name hs)"
  by (auto simp: values_of_def filter_empty_conv)

lemma values_of_Cons:
  "values_of (h # hs) n =
     (if n = lower_name h then [normalize_loop [] False (h_value h)] else []) @ values_of hs n"
  by (simp add: values_of_def)

abbreviation sorted_keys :: "('k::linorder \<times> 'v) list \<Rightarrow> bool" where
  "sorted_keys m \<equiv> sorted_wrt (<) (map fst m)"

lemma set_keys_entry_push: "fst ` set (entry_push k v m) = insert k (fst ` set m)"
  by (induction k v m rule: entry_push.induct) auto

lemma sorted_entry_push: "sorted_keys m \<Longrightarrow> sorted_keys (entry_push k v m)"
proof (induction k v m rule: entry_push.induct)
  case (2 k v a vs m)
  then have "\<forall>x \<in> fst ` set (entry_push k v m). a < x" if "\<not> k < a" "k \<noteq> a"
    using that by (auto simp: set_keys_entry_push)
  with 2 show ?case by (auto simp: order.strict_trans)
qed simp

lemma map_of_entry_push:
  "sorted_keys m \<Longrightarrow>
   map_of (entry_push k v m) = (map_of m)(k \<mapsto> (case map_of m k of None \<Rightarrow> [] | Some vs \<Rightarrow> vs) @ [v])"
proof (induction k v m rule: entry_push.induct)
  case (2 k v a vs m)
  have "map_of m k = None" if "k < a"
    using that 2 by (auto simp: map_of_eq_None_iff)
  with 2 show ?case by (auto simp: fun_eq_iff)
qed (auto simp: fun_eq_iff)

lemma sorted_keys_unique:
  assumes "sorted_keys m"
  shows "m = map (\<lambda>k. (k, the (map_of m k))) (sorted_list_of_set (fst ` set m))"
proof -
  have d: "distinct (map fst m)" and s: "sorted (map fst m)"
    using assms by (simp_all add: strict_sorted_iff)
  have "m = map (\<lambda>p. (fst p, the (map_of m (fst p)))) m"
    using d by (auto intro!: map_idI[symmetric])
  also have "\<dots> = map (\<lambda>k. (k, the (map_of m k))) (map fst m)" by simp
  also have "map fst m = sorted_list_of_set (set (map fst m))"
    using d s by (simp only: sorted_list_of_set.idem_if_sorted_distinct)
  finally show ?thesis by simp
qed

lemma order_headers_Inr:
  assumes "order_headers m hs = Inr m'" and "sorted_keys m"
  shows "list_all valid_header hs \<and> sorted_keys m' \<and>
    fst ` set m' = fst ` set m \<union> set (map lower_name hs) \<and>
    (\<forall>n. map_of m' n = (if n \<in> set (map lower_name hs)
       then Some ((case map_of m n of None \<Rightarrow> [] | Some vs \<Rightarrow> vs) @ values_of hs n) else map_of m n))"
  using assms
proof (induction hs arbitrary: m)
  case Nil
  then show ?case by simp
next
  case (Cons h hs)
  let ?v = "normalize_loop [] False (h_value h)"
  let ?m = "entry_push (lower_name h) ?v m"
  have h: "valid_header h" and o: "order_headers ?m hs = Inr m'"
    using Cons.prems(1)
    by (auto simp: valid_header_def lower_name_def normalize_header_value_def split: if_splits)
  note ih = Cons.IH[OF o sorted_entry_push[OF Cons.prems(2)]]
  have "values_of hs n = []" if "n \<notin> set (map lower_name hs)" for n
    using that values_of_Nil_iff by blast
  with h ih show ?case
    by (auto simp: set_keys_entry_push map_of_entry_push[OF Cons.prems(2)] values_of_Cons)
qed

lemma order_headers_valid:
  "list_all valid_header hs \<Longrightarrow> \<exists>m'. order_headers m hs = Inr m'"
  by (induction hs arbitrary: m) (auto simp: valid_header_def normalize_header_value_def)

lemma order_headers_grouped:
  assumes "order_headers [] hs = Inr m"
  shows "m = grouped_headers hs \<and> list_all valid_header hs"
proof -
  note o = order_headers_Inr[OF assms, simplified]
  then have "m = map (\<lambda>k. (k, the (map_of m k))) (sorted_list_of_set (set (map lower_name hs)))"
    using sorted_keys_unique[of m] by simp
  with o show ?thesis by (simp add: grouped_headers_def)
qed

lemma map_of_grouped:
  "map_of (grouped_headers hs) n = (if n \<in> set (map lower_name hs) then Some (values_of hs n) else None)"
  by (simp add: grouped_headers_def map_of_map_restrict restrict_map_def)

lemma canonical_headers_iff:
  "canonical_headers hs = Inr block \<longleftrightarrow>
     list_all valid_header hs \<and> (\<exists>v. values_of hs ''host'' = [v] \<and> v \<noteq> []) \<and>
     block = render_headers (grouped_headers hs)"
proof (cases "list_all valid_header hs")
  case False
  then have "order_headers [] hs \<noteq> Inr m" for m
    using order_headers_grouped by blast
  with False show ?thesis by (auto simp: canonical_headers_def)
next
  case True
  then obtain m where m: "order_headers [] hs = Inr m" using order_headers_valid by blast
  then have g: "m = grouped_headers hs" using order_headers_grouped by blast
  show ?thesis
  proof (cases "values_of hs ''host''")
    case Nil
    then have "map_of m ''host'' = None" by (simp add: g map_of_grouped values_of_Nil_iff)
    with m Nil show ?thesis by (simp add: canonical_headers_def)
  next
    case (Cons v vs)
    then have "''host'' \<in> set (map lower_name hs)"
      using values_of_Nil_iff[of hs "''host''"] by simp
    then have h: "map_of m ''host'' = Some (v # vs)" by (simp only: g map_of_grouped Cons if_True)
    then have "m \<noteq> []" by auto
    with m h True Cons g show ?thesis by (auto simp: canonical_headers_def)
  qed
qed

text \<open>
  Property C16. The ordered-map loop computes the specified header block: canonicalisation
  succeeds exactly when every name is a valid token, every value is free of control bytes and there
  is exactly one host header, not blank; the result then lists every lowercase name once in
  ascending order with its normalised values in the caller's order.
\<close>

theorem canonical_headers_spec:
  "canonical_headers hs = Inr block \<longleftrightarrow>
     list_all valid_header hs \<and> (\<exists>v. values_of hs ''host'' = [v] \<and> v \<noteq> []) \<and>
     block = render_headers (grouped_headers hs)"
  by (rule canonical_headers_iff)

text \<open>
  The header block does not depend on how the caller spelled or ordered the headers:
  two lists of valid headers with the same values for every lowercase name, in the same order for
  one name, have the same canonical block and signed-header list or the same error.
\<close>

lemma canonical_headers_case_and_order:
  assumes "list_all valid_header hs" and "list_all valid_header hs'"
    and "\<And>n. values_of hs n = values_of hs' n"
  shows "canonical_headers hs = canonical_headers hs'"
proof -
  have "n \<in> set (map lower_name hs) \<longleftrightarrow> n \<in> set (map lower_name hs')" for n
    using assms(3)[of n] values_of_Nil_iff[of hs n] values_of_Nil_iff[of hs' n] by simp
  then have names: "set (map lower_name hs) = set (map lower_name hs')" by (rule set_eqI)
  have "grouped_headers hs = grouped_headers hs'"
    unfolding grouped_headers_def names assms(3) by (rule refl)
  moreover obtain m m' where "order_headers [] hs = Inr m" "order_headers [] hs' = Inr m'"
    using assms(1,2) order_headers_valid by meson
  moreover from this have "m = grouped_headers hs" "m' = grouped_headers hs'"
    using order_headers_grouped by blast+
  ultimately show ?thesis by (simp only: canonical_headers_def)
qed

lemma canonical_headers_case_and_order_witness:
  "canonical_headers [\<lparr>h_name = ''Host'', h_value = '' a  b''\<rparr>, \<lparr>h_name = ''X'', h_value = ''1''\<rparr>] =
   canonical_headers [\<lparr>h_name = ''x'', h_value = ''1 ''\<rparr>, \<lparr>h_name = ''HOST'', h_value = ''a b''\<rparr>]"
proof (rule canonical_headers_case_and_order)
  show "list_all valid_header [\<lparr>h_name = ''Host'', h_value = '' a  b''\<rparr>, \<lparr>h_name = ''X'', h_value = ''1''\<rparr>]"
    by code_simp
  show "list_all valid_header [\<lparr>h_name = ''x'', h_value = ''1 ''\<rparr>, \<lparr>h_name = ''HOST'', h_value = ''a b''\<rparr>]"
    by code_simp
  show "values_of [\<lparr>h_name = ''Host'', h_value = '' a  b''\<rparr>, \<lparr>h_name = ''X'', h_value = ''1''\<rparr>] n =
        values_of [\<lparr>h_name = ''x'', h_value = ''1 ''\<rparr>, \<lparr>h_name = ''HOST'', h_value = ''a b''\<rparr>] n" for n
  proof -
    have names: "lower_name \<lparr>h_name = ''Host'', h_value = '' a  b''\<rparr> = ''host''"
      "lower_name \<lparr>h_name = ''HOST'', h_value = ''a b''\<rparr> = ''host''"
      "lower_name \<lparr>h_name = ''X'', h_value = ''1''\<rparr> = ''x''"
      "lower_name \<lparr>h_name = ''x'', h_value = ''1 ''\<rparr> = ''x''"
      by code_simp+
    show ?thesis
      by (simp add: values_of_Cons names is_blank_def values_of_def[of "[]"])
  qed
qed

end
