(* ===== verification/Signing.thy ===== *)
theory Signing
  imports Canonical
begin

text \<open>
  Signature Version 4, \<open>src/signing/crypto.rs\<close> and \<open>src/signing/request/\<close>: validation of
  credentials, scope, method and payload hash, the canonical request, the signing-key derivation,
  header signing and query presigning. SHA-256, HMAC and the formatting of a timestamp are
  third-party code (\<open>sha2\<close>, \<open>hmac\<close>, \<open>time\<close>): fields of the record \<open>signing_ext\<close> that every
  definition using them takes as its argument. Byte arrays are strings of bytes.
\<close>

record signing_ext =
  ext_hmac :: "string \<Rightarrow> string \<Rightarrow> string option"  \<comment> \<open>\<open>Hmac::new_from_slice\<close> may refuse a key\<close>
  ext_sha256 :: "string \<Rightarrow> string"
  ext_amz_date :: "int \<Rightarrow> string option"
  ext_date :: "int \<Rightarrow> string option"

text \<open>What the crates document: SHA-256 and its HMAC give 32 bytes, for keys of every length.\<close>

definition crypto_documented :: "signing_ext \<Rightarrow> bool" where
  "crypto_documented X \<longleftrightarrow>
     (\<forall>m. length (ext_sha256 X m) = 32) \<and> (\<forall>k m. \<exists>t. ext_hmac X k m = Some t \<and> length t = 32)"

section \<open>Types\<close>

record signing_credentials =
  sc_access_key_id :: string
  sc_secret_access_key :: string
  sc_session_token :: "string option"

record signing_scope =
  scope_region :: string
  scope_service :: string

datatype signing_path = Raw string | Encoded string

definition path_canonical :: "signing_path \<Rightarrow> signing_error + string" where
  "path_canonical p = (case p of Raw path \<Rightarrow> Inr (canonical_uri path)
                               | Encoded path \<Rightarrow> canonical_uri_from_encoded path)"

record header_signing_request =
  hs_method :: string
  hs_uri_path :: signing_path
  hs_query :: "query_param list"
  hs_headers :: "header list"
  hs_payload_hash :: string

record header_signing_output =
  hs_authorization :: string
  hs_amz_date :: string
  hs_security_token :: "string option"

record presigning_request =
  ps_method :: string
  ps_uri_path :: signing_path
  ps_query :: "query_param list"
  ps_headers :: "header list"
  ps_expires :: duration
  ps_payload_hash :: "string option"

section \<open>Crypto\<close>

abbreviation hex_lower :: string where "hex_lower \<equiv> ''0123456789abcdef''"

fun hex_encode :: "string \<Rightarrow> string" where
  "hex_encode [] = []"
| "hex_encode (c # cs) = [hex_lower ! (ord c div 16), hex_lower ! (ord c mod 16)] @ hex_encode cs"

definition payload_sha256_hex :: "signing_ext \<Rightarrow> string \<Rightarrow> string" where
  "payload_sha256_hex X payload = hex_encode (ext_sha256 X payload)"

definition hmac_sha256 :: "signing_ext \<Rightarrow> string \<Rightarrow> string \<Rightarrow> signing_error + string" where
  "hmac_sha256 X key msg = ok_or Cryptographic (ext_hmac X key msg)"

definition derive_signing_key ::
  "signing_ext \<Rightarrow> string \<Rightarrow> string \<Rightarrow> string \<Rightarrow> string \<Rightarrow> signing_error + string" where
  "derive_signing_key X secret date region service =
     and_then (hmac_sha256 X (''AWS4'' @ secret) date) (\<lambda>date_key.
     and_then (hmac_sha256 X date_key region) (\<lambda>region_key.
     and_then (hmac_sha256 X region_key service) (\<lambda>service_key.
     hmac_sha256 X service_key ''aws4_request'')))"

section \<open>Validation\<close>

abbreviation ALGORITHM :: string where "ALGORITHM \<equiv> ''AWS4-HMAC-SHA256''"
abbreviation UNSIGNED_PAYLOAD :: string where "UNSIGNED_PAYLOAD \<equiv> ''UNSIGNED-PAYLOAD''"

definition valid_scope_component :: "string \<Rightarrow> bool" where
  "valid_scope_component v \<longleftrightarrow> v \<noteq> [] \<and>
     list_all (\<lambda>c. is_ascii_alphanumeric c \<or> c = CHR ''-'' \<or> c = CHR ''_'') v"

definition validate_common ::
  "signing_credentials \<Rightarrow> signing_scope \<Rightarrow> string \<Rightarrow> signing_error + unit" where
  "validate_common cr sc mth =
     reject_if (sc_secret_access_key cr = [] \<or> sc_access_key_id cr = [] \<or>
         \<not> list_all (\<lambda>c. is_ascii_alphanumeric c \<or> c = CHR ''-'' \<or> c = CHR ''_'') (sc_access_key_id cr))
       InvalidCredentials
     (reject_if (sc_session_token cr = Some []) InvalidCredentials
     (reject_if (\<not> valid_scope_component (scope_region sc) \<or> \<not> valid_scope_component (scope_service sc))
       InvalidScope
     (reject_if (mth = [] \<or> \<not> list_all (\<lambda>c. is_ascii_uppercase c \<or> is_ascii_digit c \<or> c = CHR ''-'') mth)
       InvalidMethod
     (Inr ()))))"

definition validate_payload_hash :: "string \<Rightarrow> signing_error + unit" where
  "validate_payload_hash h =
     (let is_sha256 = (length h = 64 \<and>
            list_all (\<lambda>c. is_ascii_digit c \<or> (97 \<le> ord c \<and> ord c \<le> 102)) h);
          is_supported_literal = (h \<in> {UNSIGNED_PAYLOAD, ''STREAMING-AWS4-HMAC-SHA256-PAYLOAD'',
            ''STREAMING-AWS4-HMAC-SHA256-PAYLOAD-TRAILER'', ''STREAMING-UNSIGNED-PAYLOAD-TRAILER''})
      in if is_sha256 \<or> is_supported_literal then Inr () else Inl InvalidPayloadHash)"

section \<open>The canonical request and the signature\<close>

abbreviation LF :: string where "LF \<equiv> [CHR 0x0A]"

definition build_canonical_request ::
  "string \<Rightarrow> signing_path \<Rightarrow> query_param list \<Rightarrow> canonical_headers_block \<Rightarrow> string
     \<Rightarrow> signing_error + string" where
  "build_canonical_request mth path query block payload_hash =
     and_then (path_canonical path) (\<lambda>uri.
       Inr (mth @ LF @ uri @ LF @ canonical_query query @ LF @ canonical block @ LF @
            signed block @ LF @ payload_hash))"

definition calculate_signature ::
  "signing_ext \<Rightarrow> signing_credentials \<Rightarrow> signing_scope \<Rightarrow> string \<Rightarrow> string \<Rightarrow> string \<Rightarrow> string
     \<Rightarrow> signing_error + string" where
  "calculate_signature X cr sc date amz_date cred_scope canonical_request =
     (let request_hash = payload_sha256_hex X canonical_request;
          string_to_sign = ALGORITHM @ LF @ amz_date @ LF @ cred_scope @ LF @ request_hash
      in and_then (derive_signing_key X (sc_secret_access_key cr) date (scope_region sc) (scope_service sc))
           (\<lambda>key. and_then (hmac_sha256 X key string_to_sign) (\<lambda>t. Inr (hex_encode t))))"

definition credential_scope :: "string \<Rightarrow> signing_scope \<Rightarrow> string" where
  "credential_scope date sc =
     date @ ''/'' @ scope_region sc @ ''/'' @ scope_service sc @ ''/'' @ ''aws4_request''"

definition format_timestamp :: "signing_ext \<Rightarrow> int \<Rightarrow> signing_error + (string \<times> string)" where
  "format_timestamp X t =
     and_then (ok_or SigningTimestamp (ext_amz_date X t)) (\<lambda>amz_date.
     and_then (ok_or SigningTimestamp (ext_date X t)) (\<lambda>date. Inr (amz_date, date)))"

section \<open>Signing headers\<close>

definition reject_reserved_headers :: "header list \<Rightarrow> signing_error + unit" where
  "reject_reserved_headers hs =
     (if list_ex (\<lambda>h. eq_ignore_ascii_case (h_name h) ''authorization'' \<or>
           eq_ignore_ascii_case (h_name h) ''x-amz-date'' \<or>
           eq_ignore_ascii_case (h_name h) ''x-amz-security-token'') hs
      then Inl ReservedHeader else Inr ())"

definition token_header :: "signing_credentials \<Rightarrow> header list" where
  "token_header cr = (case sc_session_token cr of None \<Rightarrow> []
     | Some t \<Rightarrow> [\<lparr>h_name = ''x-amz-security-token'', h_value = t\<rparr>])"

definition sign_headers ::
  "signing_ext \<Rightarrow> signing_credentials \<Rightarrow> signing_scope \<Rightarrow> header_signing_request \<Rightarrow> int
     \<Rightarrow> signing_error + header_signing_output" where
  "sign_headers X cr sc req t =
     and_then (validate_common cr sc (hs_method req)) (\<lambda>_.
     and_then (validate_payload_hash (hs_payload_hash req)) (\<lambda>_.
     and_then (reject_reserved_headers (hs_headers req)) (\<lambda>_.
     and_then (format_timestamp X t) (\<lambda>(amz_date, date).
     and_then (canonical_headers
         (hs_headers req @ [\<lparr>h_name = ''x-amz-date'', h_value = amz_date\<rparr>] @ token_header cr)) (\<lambda>block.
     and_then (build_canonical_request (hs_method req) (hs_uri_path req) (hs_query req) block
         (hs_payload_hash req)) (\<lambda>canonical_request.
     let cred_scope = credential_scope date sc in
     and_then (calculate_signature X cr sc date amz_date cred_scope canonical_request) (\<lambda>signature.
     Inr \<lparr>hs_authorization = ALGORITHM @ '' Credential='' @ sc_access_key_id cr @ ''/'' @ cred_scope @
            '', SignedHeaders='' @ signed block @ '', Signature='' @ signature,
          hs_amz_date = amz_date,
          hs_security_token = sc_session_token cr\<rparr>)))))))"

section \<open>Presigning\<close>

definition MAX_PRESIGN_EXPIRY :: nat where "MAX_PRESIGN_EXPIRY = 7 * 24 * 60 * 60"

definition reject_reserved_query :: "query_param list \<Rightarrow> signing_error + unit" where
  "reject_reserved_query ps =
     (if list_ex (\<lambda>p. eq_ignore_ascii_case (qp_name p) ''X-Amz-Signature'') ps \<or>
         list_ex (\<lambda>p. str_to_ascii_lowercase (qp_name p) \<in>
           {''x-amz-algorithm'', ''x-amz-credential'', ''x-amz-date'', ''x-amz-expires'',
            ''x-amz-security-token'', ''x-amz-signedheaders''}) ps
      then Inl ReservedQueryParameter else Inr ())"

definition signing_params ::
  "signing_credentials \<Rightarrow> string \<Rightarrow> string \<Rightarrow> nat \<Rightarrow> canonical_headers_block \<Rightarrow> query_param list" where
  "signing_params cr cred_scope amz_date expires block =
     [\<lparr>qp_name = ''X-Amz-Algorithm'', qp_value = ALGORITHM\<rparr>,
      \<lparr>qp_name = ''X-Amz-Credential'', qp_value = sc_access_key_id cr @ ''/'' @ cred_scope\<rparr>,
      \<lparr>qp_name = ''X-Amz-Date'', qp_value = amz_date\<rparr>,
      \<lparr>qp_name = ''X-Amz-Expires'', qp_value = to_string expires\<rparr>,
      \<lparr>qp_name = ''X-Amz-SignedHeaders'', qp_value = signed block\<rparr>] @
     (case sc_session_token cr of None \<Rightarrow> []
      | Some t \<Rightarrow> [\<lparr>qp_name = ''X-Amz-Security-Token'', qp_value = t\<rparr>])"

definition sign_presigned ::
  "signing_ext \<Rightarrow> signing_credentials \<Rightarrow> signing_scope \<Rightarrow> presigning_request \<Rightarrow> int
     \<Rightarrow> signing_error + string" where
  "sign_presigned X cr sc req t =
     and_then (validate_common cr sc (ps_method req)) (\<lambda>_.
     reject_if (ps_method req \<notin> {''GET'', ''PUT'', ''HEAD'', ''DELETE'', ''POST''}) UnsupportedPresignMethod
     (let expires = as_secs (ps_expires req) in
     reject_if (expires = 0 \<or> MAX_PRESIGN_EXPIRY < expires \<or> subsec_nanos (ps_expires req) \<noteq> 0) InvalidExpiry
     (and_then (reject_reserved_query (ps_query req)) (\<lambda>_.
     and_then (case ps_payload_hash req of None \<Rightarrow> Inr () | Some h \<Rightarrow> validate_payload_hash h) (\<lambda>_.
     and_then (canonical_headers (ps_headers req)) (\<lambda>block.
     and_then (format_timestamp X t) (\<lambda>(amz_date, date).
     let cred_scope = credential_scope date sc;
         parameters = ps_query req @ signing_params cr cred_scope amz_date expires block;
         payload_hash = (case ps_payload_hash req of None \<Rightarrow> UNSIGNED_PAYLOAD | Some h \<Rightarrow> h) in
     and_then (build_canonical_request (ps_method req) (ps_uri_path req) parameters block payload_hash)
       (\<lambda>canonical_request.
     and_then (calculate_signature X cr sc date amz_date cred_scope canonical_request) (\<lambda>signature.
     Inr (canonical_query parameters @ ''&X-Amz-Signature='' @ signature))))))))))"

section \<open>No field holds a line feed\<close>

abbreviation lf_free :: "string \<Rightarrow> bool" where "lf_free s \<equiv> CHR 0x0A \<notin> set s"

lemma list_all_lf_free: "list_all P s \<Longrightarrow> \<not> P (CHR 0x0A) \<Longrightarrow> lf_free s"
  by (auto simp: list_all_iff)

lemma HEX_unreserved: "n < 16 \<Longrightarrow> is_unreserved (HEX ! n)"
  using HEX_alphanumeric[of n] by (auto simp: is_unreserved_def is_ascii_alphanumeric_def)

lemma encoded_uri_loop_alphabet:
  "encoded_uri_loop s = Inr r \<Longrightarrow> list_all (\<lambda>c. keep_slash c \<or> c = CHR ''%'') r"
proof (induction s arbitrary: r rule: encoded_uri_loop.induct)
  case (2 c cs)
  consider (pct) "c = CHR ''%''" | (kept) "c \<noteq> CHR ''%''" "keep_slash c"
    | (other) "c \<noteq> CHR ''%''" "\<not> keep_slash c" by blast
  then show ?case
  proof cases
    case pct
    with "2.prems" obtain h l rest hi lo q where
      *: "cs = h # l # rest" "hex_value h = Some hi" "hex_value l = Some lo"
        "encoded_uri_loop rest = Inr q" "r = CHR ''%'' # HEX ! hi # HEX ! lo # q"
      by (auto simp: encoded_uri_loop.simps(2) split: list.splits option.splits)
    with pct "2.IH"(1) have "list_all (\<lambda>c. keep_slash c \<or> c = CHR ''%'') q" by blast
    with * show ?thesis by (simp add: hex_value_less HEX_unreserved)
  next
    case kept
    with "2.prems" obtain q where q: "encoded_uri_loop cs = Inr q" "r = c # q" by auto
    with "2.IH"(2)[unfolded kept_iff] kept have "list_all (\<lambda>c. keep_slash c \<or> c = CHR ''%'') q" by blast
    with q kept show ?thesis by simp
  next
    case other
    then obtain q where q: "encoded_uri_loop (drop (utf8_len c - 1) cs) = Inr q"
      "r = aws_uri_encode True (take (utf8_len c) (c # cs)) @ q"
      using "2.prems" by (auto simp: encoded_uri_loop_other)
    then have "list_all (\<lambda>c. keep_slash c \<or> c = CHR ''%'') q"
      using "2.IH"(3)[unfolded kept_iff] other by blast
    with q(2) aws_true_alphabet show ?thesis by (fastforce simp: list_all_iff)
  qed
qed simp

lemma keep_or_pct_not_lf: "\<not> (keep_slash (CHR 0x0A) \<or> CHR 0x0A = CHR ''%'')"
  by (simp add: is_unreserved_def byte_simps)

lemma path_canonical_lf_free: "path_canonical p = Inr u \<Longrightarrow> lf_free u"
proof (cases p)
  case (Raw path)
  assume "path_canonical p = Inr u"
  with Raw have u: "u = ''/'' \<or> u = aws_uri_encode False path \<or> u = ''/'' @ aws_uri_encode False path"
    by (auto simp: path_canonical_def canonical_uri_def Let_def split: if_splits)
  have "lf_free (aws_uri_encode False path)"
    using aws_false.encode_alphabet[of "CHR 0x0A" path] by (auto simp: is_unreserved_def byte_simps)
  with u show ?thesis by auto
next
  case (Encoded path)
  assume "path_canonical p = Inr u"
  with Encoded obtain r where "encoded_uri_loop path = Inr r" "set u \<subseteq> insert CHR ''/'' (set r)"
    by (auto simp: path_canonical_def canonical_uri_from_encoded_def Let_def split: if_splits)
  with list_all_lf_free[OF encoded_uri_loop_alphabet keep_or_pct_not_lf] show ?thesis by auto
qed

lemma join_set: "set (join sep xs) \<subseteq> \<Union> (set ` set xs) \<union> set sep"
  by (induction sep xs rule: join.induct) auto

lemma canonical_query_lf_free: "lf_free (canonical_query ps)"
proof
  assume "CHR 0x0A \<in> set (canonical_query ps)"
  then obtain p where "CHR 0x0A \<in> set (render_param (encode_param p))"
    using join_set[of "''&''"] by (fastforce simp: canonical_query_def)
  moreover have "lf_free (aws_uri_encode True s)" for s
    using aws_true_alphabet[of "CHR 0x0A" s] by (auto simp: is_unreserved_def byte_simps)
  ultimately show False by (auto simp: render_param_def encode_param_def)
qed

lemma valid_name_lf_free: "valid_header_name n \<Longrightarrow> lf_free (str_to_ascii_lowercase n)"
proof -
  assume "valid_header_name n"
  then have "lf_free n"
    by (intro list_all_lf_free) (auto simp: valid_header_name_def byte_simps)
  moreover have "to_ascii_lowercase c = CHR 0x0A \<Longrightarrow> c = CHR 0x0A" for c
    by (auto simp: to_ascii_lowercase_def is_ascii_uppercase_def dest!: arg_cong[where f = "ord"]
        split: if_splits)
  ultimately show ?thesis by (force simp: str_to_ascii_lowercase_def)
qed

lemma signed_lf_free: "canonical_headers hs = Inr block \<Longrightarrow> lf_free (signed block)"
proof -
  assume "canonical_headers hs = Inr block"
  then have v: "list_all valid_header hs" and b: "block = render_headers (grouped_headers hs)"
    by (simp_all add: canonical_headers_iff)
  have s: "signed block = join '';'' (sorted_list_of_set (set (map lower_name hs)))"
    by (simp add: b render_headers_def grouped_headers_def comp_def)
  have "\<forall>n \<in> set (map lower_name hs). lf_free n"
    using v by (auto simp: list_all_iff valid_header_def lower_name_def valid_name_lf_free)
  then show ?thesis
    using join_set[of "'';''" "sorted_list_of_set (set (map lower_name hs))"] by (auto simp: s)
qed

lemma validate_common_lf_free: "validate_common cr sc mth = Inr () \<Longrightarrow> lf_free mth"
  by (auto simp: validate_common_def byte_simps list_all_iff split: if_splits)

lemma validate_payload_hash_lf_free: "validate_payload_hash h = Inr () \<Longrightarrow> lf_free h"
  by (auto simp: validate_payload_hash_def byte_simps list_all_iff Let_def split: if_splits)

section \<open>What the signature covers\<close>

lemma first_sep:
  "x \<notin> set a \<Longrightarrow> x \<notin> set a' \<Longrightarrow> a @ x # b = a' @ x # b' \<longleftrightarrow> a = a' \<and> b = b'"
proof (induction a arbitrary: a')
  case Nil
  then show ?case by (cases a') auto
next
  case (Cons c a)
  then show ?case by (cases a') auto
qed

lemma last_sep:
  assumes "x \<notin> set b" and "x \<notin> set b'"
  shows "a @ x # b = a' @ x # b' \<longleftrightarrow> a = a' \<and> b = b'"
proof -
  have "a @ x # b = a' @ x # b' \<longleftrightarrow> rev b @ x # rev a = rev b' @ x # rev a'"
    by (metis append.assoc append_Cons append_Nil rev.simps(2) rev_append rev_rev_ident)
  also have "\<dots> \<longleftrightarrow> rev b = rev b' \<and> rev a = rev a'"
    using assms by (intro first_sep) simp_all
  finally show ?thesis by auto
qed

text \<open>
  Property C4. The signature covers the whole request: two requests that pass validation and have
  the same canonical request have the same method, the same canonical path, the same query
  parameters up to order, the same header block and signed-header list, and the same payload hash.
\<close>

theorem canonical_request_injective:
  assumes "validate_common cr sc m1 = Inr ()" and "validate_common cr sc m2 = Inr ()"
    and "validate_payload_hash h1 = Inr ()" and "validate_payload_hash h2 = Inr ()"
    and "canonical_headers hs1 = Inr b1" and "canonical_headers hs2 = Inr b2"
    and "build_canonical_request m1 p1 q1 b1 h1 = Inr s"
    and "build_canonical_request m2 p2 q2 b2 h2 = Inr s"
  shows "m1 = m2 \<and> path_canonical p1 = path_canonical p2 \<and> mset q1 = mset q2 \<and> b1 = b2 \<and> h1 = h2"
proof -
  from assms(7,8) obtain u1 u2 where u: "path_canonical p1 = Inr u1" "path_canonical p2 = Inr u2"
    and s: "m1 @ LF @ u1 @ LF @ canonical_query q1 @ LF @ canonical b1 @ LF @ signed b1 @ LF @ h1 =
      m2 @ LF @ u2 @ LF @ canonical_query q2 @ LF @ canonical b2 @ LF @ signed b2 @ LF @ h2"
    by (auto simp: build_canonical_request_def)
  note free = validate_common_lf_free[OF assms(1)] validate_common_lf_free[OF assms(2)]
    path_canonical_lf_free[OF u(1)] path_canonical_lf_free[OF u(2)]
    validate_payload_hash_lf_free[OF assms(3)] validate_payload_hash_lf_free[OF assms(4)]
    signed_lf_free[OF assms(5)] signed_lf_free[OF assms(6)] canonical_query_lf_free
  from s free have e: "m1 = m2" "u1 = u2" "canonical_query q1 = canonical_query q2"
    "(canonical b1 @ LF @ signed b1) @ LF @ h1 = (canonical b2 @ LF @ signed b2) @ LF @ h2"
    by (simp_all add: first_sep)
  from e(4) have "h1 = h2" and b: "canonical b1 = canonical b2 \<and> signed b1 = signed b2"
    by (simp_all only: append.simps last_sep[OF free(5,6)] last_sep[OF free(7,8)])
  moreover have "b1 = b2" using b by (intro canonical_headers_block.equality) simp_all
  ultimately show ?thesis
    using e u canonical_query_permutation_mset[of q1 q2] by simp
qed

theorem canonical_request_injective_witness:
  "\<exists>b s. canonical_headers [\<lparr>h_name = ''host'', h_value = ''a''\<rparr>] = Inr b \<and>
     build_canonical_request ''GET'' (Encoded ''/k'') [] b UNSIGNED_PAYLOAD = Inr s \<and> mset [] = mset ([] :: query_param list)"
proof -
  let ?cr = "\<lparr>sc_access_key_id = ''AK'', sc_secret_access_key = ''s'', sc_session_token = None\<rparr>"
  let ?sc = "\<lparr>scope_region = ''us-east-1'', scope_service = ''s3''\<rparr>"
  have c: "validate_common ?cr ?sc ''GET'' = Inr ()" by code_simp
  have h: "validate_payload_hash UNSIGNED_PAYLOAD = Inr ()" by code_simp
  obtain b where b: "canonical_headers [\<lparr>h_name = ''host'', h_value = ''a''\<rparr>] = Inr b"
  proof -
    have "\<not> isl (canonical_headers [\<lparr>h_name = ''host'', h_value = ''a''\<rparr>])" by code_simp
    then show ?thesis using that by (cases "canonical_headers [\<lparr>h_name = ''host'', h_value = ''a''\<rparr>]") auto
  qed
  have "\<not> isl (path_canonical (Encoded ''/k''))" by code_simp
  then obtain s where s: "build_canonical_request ''GET'' (Encoded ''/k'') [] b UNSIGNED_PAYLOAD = Inr s"
    by (cases "path_canonical (Encoded ''/k'')") (auto simp: build_canonical_request_def)
  from canonical_request_injective[OF c c h h b b s s] b s show ?thesis by blast
qed

section \<open>Signing succeeds exactly on valid requests\<close>

lemma hex_lower_digit: "n < 16 \<Longrightarrow> is_ascii_digit (hex_lower ! n) \<or> (97 \<le> ord (hex_lower ! n) \<and> ord (hex_lower ! n) \<le> 102)"
  by (drule less_16_cases) (auto simp: is_ascii_digit_def)

definition is_hex_signature :: "string \<Rightarrow> bool" where
  "is_hex_signature s \<longleftrightarrow> length s = 64 \<and>
     list_all (\<lambda>c. is_ascii_digit c \<or> (97 \<le> ord c \<and> ord c \<le> 102)) s"

lemma hex_encode_shape:
  "length (hex_encode s) = 2 * length s \<and>
   list_all (\<lambda>c. is_ascii_digit c \<or> (97 \<le> ord c \<and> ord c \<le> 102)) (hex_encode s)"
  by (induction s) (use hex_lower_digit ord_nibbles in \<open>auto\<close>)

lemma calculate_signature_hex:
  assumes "crypto_documented X"
  shows "\<exists>sig. calculate_signature X cr sc d a cs r = Inr sig \<and> is_hex_signature sig"
proof -
  have h: "\<exists>t. hmac_sha256 X k m = Inr t \<and> length t = 32" for k m
    using assms unfolding crypto_documented_def hmac_sha256_def by (metis ok_or_simps(2))
  then obtain k where "derive_signing_key X (sc_secret_access_key cr) d (scope_region sc) (scope_service sc) = Inr k"
    unfolding derive_signing_key_def by (metis and_then_simps(2))
  moreover obtain t where "hmac_sha256 X k (ALGORITHM @ LF @ a @ LF @ cs @ LF @ payload_sha256_hex X r) = Inr t"
    "length t = 32" using h by blast
  ultimately show ?thesis
    using hex_encode_shape[of t] by (auto simp: calculate_signature_def Let_def is_hex_signature_def)
qed

text \<open>
  The signature that Signature Version 4 prescribes, written out: the keyed hash, under the key derived from the secret, the date, the region and
  the service, of the string to sign over the canonical request with the given headers, each name once, in lower case and in
  ascending order with its values.
\<close>

definition sigv4_headers :: "header list \<Rightarrow> string" where
  "sigv4_headers hs = concat (map (\<lambda>n. n @ '':'' @ join '','' (values_of hs n) @ LF) (sorted_list_of_set (set (map lower_name hs))))"

definition sigv4_names :: "header list \<Rightarrow> string" where
  "sigv4_names hs = join '';'' (sorted_list_of_set (set (map lower_name hs)))"

definition sigv4_signature ::
  "signing_ext \<Rightarrow> string \<Rightarrow> string \<Rightarrow> string \<Rightarrow> string \<Rightarrow> string \<Rightarrow> string \<Rightarrow> string \<Rightarrow> query_param list \<Rightarrow> header list \<Rightarrow> string \<Rightarrow> string" where
  "sigv4_signature X secret date amz_date region service mth uri query hs payload_hash =
     (let hmac = (\<lambda>key msg. the (ext_hmac X key msg));
          key = hmac (hmac (hmac (hmac (''AWS4'' @ secret) date) region) service) ''aws4_request'';
          request = mth @ LF @ uri @ LF @ canonical_query query @ LF @ sigv4_headers hs @ LF @ sigv4_names hs @ LF @ payload_hash;
          scope = date @ ''/'' @ region @ ''/'' @ service @ ''/aws4_request'' in
      hex_encode (hmac key (''AWS4-HMAC-SHA256'' @ LF @ amz_date @ LF @ scope @ LF @ hex_encode (ext_sha256 X request))))"

lemma calculate_signature_sigv4:
  assumes "crypto_documented X" and "canonical_headers hs = Inr block" and "path_canonical path = Inr uri"
    and "build_canonical_request mth path query block payload_hash = Inr request"
    and "calculate_signature X cr sc date amz_date (credential_scope date sc) request = Inr sig"
  shows "sig = sigv4_signature X (sc_secret_access_key cr) date amz_date (scope_region sc) (scope_service sc) mth uri query hs payload_hash"
proof -
  have h: "hmac_sha256 X key msg = Inr (the (ext_hmac X key msg))" for key msg
    using assms(1) unfolding crypto_documented_def hmac_sha256_def by (metis ok_or_simps(2) option.sel)
  have b: "canonical block = sigv4_headers hs" "signed block = sigv4_names hs"
    using assms(2) by (simp_all add: canonical_headers_iff render_headers_def grouped_headers_def sigv4_headers_def sigv4_names_def comp_def)
  have "request = mth @ LF @ uri @ LF @ canonical_query query @ LF @ sigv4_headers hs @ LF @ sigv4_names hs @ LF @ payload_hash"
    using assms(3,4) by (simp add: build_canonical_request_def b)
  with assms(5) show ?thesis
    by (simp add: calculate_signature_def derive_signing_key_def h sigv4_signature_def payload_sha256_hex_def credential_scope_def Let_def)
qed

lemma payload_sha256_hex_valid:
  "crypto_documented X \<Longrightarrow> validate_payload_hash (payload_sha256_hex X m) = Inr ()"
  using hex_encode_shape[of "ext_sha256 X m"]
  by (simp add: validate_payload_hash_def payload_sha256_hex_def crypto_documented_def Let_def)

text \<open>The headers that are signed: the caller's, the date and the session token.\<close>

definition all_signed_headers :: "signing_credentials \<Rightarrow> header_signing_request \<Rightarrow> string \<Rightarrow> header list" where
  "all_signed_headers cr req amz_date =
     hs_headers req @ [\<lparr>h_name = ''x-amz-date'', h_value = amz_date\<rparr>] @ token_header cr"

text \<open>
  With hash functions that behave as documented, header signing succeeds exactly on a
  valid request: valid credentials, scope, method and payload hash, no signing-owned header from
  the caller, a representable timestamp, a canonicalisable path and valid headers with one host.
\<close>

lemma sign_headers_total:
  assumes "crypto_documented X"
  shows "(\<exists>out. sign_headers X cr sc req t = Inr out) \<longleftrightarrow>
      validate_common cr sc (hs_method req) = Inr () \<and>
      validate_payload_hash (hs_payload_hash req) = Inr () \<and>
      reject_reserved_headers (hs_headers req) = Inr () \<and>
      (\<exists>amz_date date block uri. ext_amz_date X t = Some amz_date \<and> ext_date X t = Some date \<and>
         canonical_headers (all_signed_headers cr req amz_date) = Inr block \<and>
         path_canonical (hs_uri_path req) = Inr uri)"
    (is "?L \<longleftrightarrow> ?R")
proof
  show "?L \<Longrightarrow> ?R"
    by (auto simp: sign_headers_def format_timestamp_def build_canonical_request_def
        all_signed_headers_def Let_def)
next
  assume ?R
  then show ?L
    using calculate_signature_hex[OF assms]
    by (fastforce simp: sign_headers_def format_timestamp_def build_canonical_request_def
        all_signed_headers_def Let_def)
qed

text \<open>A stand-in for the hash crates that satisfies the documented behaviour.\<close>

definition constant_ext :: signing_ext where
  "constant_ext = \<lparr>ext_hmac = (\<lambda>k m. Some (replicate 32 CHR ''k'')), ext_sha256 = (\<lambda>m. replicate 32 CHR ''s''),
     ext_amz_date = (\<lambda>t. Some ''20130524T000000Z''), ext_date = (\<lambda>t. Some ''20130524'')\<rparr>"

definition example_credentials :: signing_credentials where
  "example_credentials = \<lparr>sc_access_key_id = ''AKID'', sc_secret_access_key = ''secret'', sc_session_token = None\<rparr>"

definition example_scope :: signing_scope where
  "example_scope = \<lparr>scope_region = ''us-east-1'', scope_service = ''s3''\<rparr>"

definition example_request :: header_signing_request where
  "example_request = \<lparr>hs_method = ''GET'', hs_uri_path = Encoded ''/b/k'', hs_query = [],
     hs_headers = [\<lparr>h_name = ''host'', h_value = ''s3.amazonaws.com''\<rparr>], hs_payload_hash = UNSIGNED_PAYLOAD\<rparr>"

lemma constant_ext_documented: "crypto_documented constant_ext"
  by (simp add: crypto_documented_def constant_ext_def)

lemma example_request_signs:
  "\<not> isl (sign_headers constant_ext example_credentials example_scope example_request 0)"
  by code_simp

lemma not_isl_Inr: "\<not> isl r \<Longrightarrow> \<exists>x. r = Inr x"
  by (cases r) auto

lemma sign_headers_total_witness:
  "crypto_documented constant_ext \<and>
   validate_common example_credentials example_scope (hs_method example_request) = Inr ()"
  using constant_ext_documented not_isl_Inr[OF example_request_signs]
    sign_headers_total[OF constant_ext_documented, of example_credentials example_scope example_request 0]
  by blast

lemma lower_reserved:
  "str_to_ascii_lowercase ''authorization'' = ''authorization''"
  "str_to_ascii_lowercase ''x-amz-date'' = ''x-amz-date''"
  "str_to_ascii_lowercase ''x-amz-security-token'' = ''x-amz-security-token''"
  by code_simp+

lemma lower_signature: "str_to_ascii_lowercase ''X-Amz-Signature'' = ''x-amz-signature''"
  by code_simp

lemma sign_headers_shape:
  assumes "crypto_documented X" and "sign_headers X cr sc req t = Inr out"
  shows "\<exists>date uri sig. ext_date X t = Some date \<and> ext_amz_date X t = Some (hs_amz_date out) \<and>
     path_canonical (hs_uri_path req) = Inr uri \<and>
     sig = sigv4_signature X (sc_secret_access_key cr) date (hs_amz_date out) (scope_region sc) (scope_service sc) (hs_method req) uri
       (hs_query req) (all_signed_headers cr req (hs_amz_date out)) (hs_payload_hash req) \<and>
     hs_authorization out = ALGORITHM @ '' Credential='' @ sc_access_key_id cr @ ''/'' @
       credential_scope date sc @ '', SignedHeaders='' @
       sigv4_names (all_signed_headers cr req (hs_amz_date out)) @
       '', Signature='' @ sig \<and>
     is_hex_signature sig \<and> hs_security_token out = sc_session_token cr \<and>
     (\<forall>h \<in> set (hs_headers req).
        lower_name h \<notin> {''authorization'', ''x-amz-date'', ''x-amz-security-token''})"
proof -
  from assms(2) obtain amz date block request sig where
    *: "reject_reserved_headers (hs_headers req) = Inr ()" "ext_amz_date X t = Some amz" "ext_date X t = Some date"
      "canonical_headers (all_signed_headers cr req amz) = Inr block"
      "build_canonical_request (hs_method req) (hs_uri_path req) (hs_query req) block (hs_payload_hash req) = Inr request"
      "calculate_signature X cr sc date amz (credential_scope date sc) request = Inr sig"
      "out = \<lparr>hs_authorization = ALGORITHM @ '' Credential='' @ sc_access_key_id cr @ ''/'' @
         credential_scope date sc @ '', SignedHeaders='' @ signed block @ '', Signature='' @ sig,
         hs_amz_date = amz, hs_security_token = sc_session_token cr\<rparr>"
    by (auto simp: sign_headers_def format_timestamp_def all_signed_headers_def Let_def)
  from *(5) obtain uri where uri: "path_canonical (hs_uri_path req) = Inr uri" by (auto simp: build_canonical_request_def)
  have "block = render_headers (grouped_headers (all_signed_headers cr req amz))"
    using *(4) by (simp add: canonical_headers_iff)
  then have b: "signed block = sigv4_names (all_signed_headers cr req amz)"
    by (simp add: render_headers_def grouped_headers_def sigv4_names_def comp_def)
  have "is_hex_signature sig"
    using *(6) calculate_signature_hex[OF assms(1)] by (metis sum.inject(2))
  moreover have "\<forall>h \<in> set (hs_headers req).
        lower_name h \<notin> {''authorization'', ''x-amz-date'', ''x-amz-security-token''}"
    using *(1) lower_reserved
    by (auto simp: reject_reserved_headers_def eq_ignore_ascii_case_def lower_name_def list_ex_iff
        split: if_splits)
  ultimately show ?thesis using *(2,3,7) b uri calculate_signature_sigv4[OF assms(1) *(4) uri *(5,6)] by auto
qed

text \<open>
  What header signing returns: the authorization names the algorithm, the access key
  with the credential scope of the request's date, region and service, every header name of the
  caller and of the signer exactly once in ascending order, and a signature of 64 lowercase
  hexadecimal digits; a header name the signer owns was refused in every spelling.
\<close>

lemma sign_headers_output:
  assumes "crypto_documented X" and "sign_headers X cr sc req t = Inr out"
  shows "\<exists>date sig. ext_date X t = Some date \<and> ext_amz_date X t = Some (hs_amz_date out) \<and>
     hs_authorization out = ALGORITHM @ '' Credential='' @ sc_access_key_id cr @ ''/'' @
       credential_scope date sc @ '', SignedHeaders='' @
       join '';'' (sorted_list_of_set (set (map lower_name (all_signed_headers cr req (hs_amz_date out))))) @
       '', Signature='' @ sig \<and>
     is_hex_signature sig \<and> hs_security_token out = sc_session_token cr \<and>
     (\<forall>h \<in> set (hs_headers req).
        lower_name h \<notin> {''authorization'', ''x-amz-date'', ''x-amz-security-token''})"
  using sign_headers_shape[OF assms] unfolding sigv4_names_def by blast

lemma sign_headers_output_witness:
  "\<exists>out. sign_headers constant_ext example_credentials example_scope example_request 0 = Inr out \<and>
     ext_amz_date constant_ext 0 = Some (hs_amz_date out)"
  using not_isl_Inr[OF example_request_signs] sign_headers_output[OF constant_ext_documented] by blast

lemma sign_presigned_shape:
  assumes "crypto_documented X" and "sign_presigned X cr sc req t = Inr q"
  shows "ps_method req \<in> {''GET'', ''PUT'', ''HEAD'', ''DELETE'', ''POST''} \<and>
     (\<exists>n. 1 \<le> n \<and> n \<le> 604800 \<and> ps_expires req = from_secs n \<and>
      (\<exists>date amz_date block uri sig. path_canonical (ps_uri_path req) = Inr uri \<and>
        sig = sigv4_signature X (sc_secret_access_key cr) date amz_date (scope_region sc) (scope_service sc) (ps_method req) uri
          (ps_query req @ signing_params cr (credential_scope date sc) amz_date n block) (ps_headers req)
          (case ps_payload_hash req of None \<Rightarrow> UNSIGNED_PAYLOAD | Some h \<Rightarrow> h) \<and> ext_date X t = Some date \<and> ext_amz_date X t = Some amz_date \<and>
        canonical_headers (ps_headers req) = Inr block \<and> is_hex_signature sig \<and>
        q = canonical_query (ps_query req @
              signing_params cr (credential_scope date sc) amz_date n block) @
            ''&X-Amz-Signature='' @ sig)) \<and>
     (\<forall>p \<in> set (ps_query req). str_to_ascii_lowercase (qp_name p) \<notin>
        {''x-amz-algorithm'', ''x-amz-credential'', ''x-amz-date'', ''x-amz-expires'',
         ''x-amz-security-token'', ''x-amz-signedheaders'', ''x-amz-signature''})"
proof -
  let ?n = "as_secs (ps_expires req)"
  from assms(2) have m: "ps_method req \<in> {''GET'', ''PUT'', ''HEAD'', ''DELETE'', ''POST''}"
    and e: "\<not> (?n = 0 \<or> MAX_PRESIGN_EXPIRY < ?n \<or> subsec_nanos (ps_expires req) \<noteq> 0)"
    and r: "reject_reserved_query (ps_query req) = Inr ()"
    by (auto simp: sign_presigned_def Let_def split: if_splits)
  from assms(2) obtain amz date block cr' sig where
    *: "ext_amz_date X t = Some amz" "ext_date X t = Some date" "canonical_headers (ps_headers req) = Inr block"
      "build_canonical_request (ps_method req) (ps_uri_path req)
        (ps_query req @ signing_params cr (credential_scope date sc) amz ?n block) block
        (case ps_payload_hash req of None \<Rightarrow> UNSIGNED_PAYLOAD | Some h \<Rightarrow> h) = Inr cr'"
      "calculate_signature X cr sc date amz (credential_scope date sc) cr' = Inr sig"
      "q = canonical_query (ps_query req @ signing_params cr (credential_scope date sc) amz ?n block) @
        ''&X-Amz-Signature='' @ sig"
    by (auto simp: sign_presigned_def format_timestamp_def Let_def split: if_splits)
  from *(4) obtain uri where uri: "path_canonical (ps_uri_path req) = Inr uri" by (auto simp: build_canonical_request_def)
  have n: "1 \<le> ?n" "?n \<le> 604800" "ps_expires req = from_secs ?n"
    using e div_mult_mod_eq[of "ps_expires req" 1000000000]
    by (auto simp: MAX_PRESIGN_EXPIRY_def as_secs_def subsec_nanos_def from_secs_def)
  have "is_hex_signature sig"
    using *(5) calculate_signature_hex[OF assms(1)] by (metis sum.inject(2))
  moreover have "\<forall>p \<in> set (ps_query req). str_to_ascii_lowercase (qp_name p) \<notin>
        {''x-amz-algorithm'', ''x-amz-credential'', ''x-amz-date'', ''x-amz-expires'',
         ''x-amz-security-token'', ''x-amz-signedheaders'', ''x-amz-signature''}"
    using r lower_signature
    by (auto simp: reject_reserved_query_def eq_ignore_ascii_case_def list_ex_iff split: if_splits)
  ultimately show ?thesis using m n *(1-3,6) uri calculate_signature_sigv4[OF assms(1) *(3) uri *(4,5)] by blast
qed

text \<open>
  A presigned query is bounded and complete: it is produced only for a supported
  method and a lifetime of a whole number of seconds from 1 to 604800, never over a signing-owned
  parameter of the caller; it is the canonical query of exactly the caller's and the signer's
  parameters (among them the expiry), followed by a signature of 64 lowercase hexadecimal digits.
\<close>

lemma sign_presigned_output:
  assumes "crypto_documented X" and "sign_presigned X cr sc req t = Inr q"
  shows "ps_method req \<in> {''GET'', ''PUT'', ''HEAD'', ''DELETE'', ''POST''} \<and>
     (\<exists>n. 1 \<le> n \<and> n \<le> 604800 \<and> ps_expires req = from_secs n \<and>
      (\<exists>date amz_date block sig. ext_date X t = Some date \<and> ext_amz_date X t = Some amz_date \<and>
        canonical_headers (ps_headers req) = Inr block \<and> is_hex_signature sig \<and>
        q = canonical_query (ps_query req @
              signing_params cr (credential_scope date sc) amz_date n block) @
            ''&X-Amz-Signature='' @ sig)) \<and>
     (\<forall>p \<in> set (ps_query req). str_to_ascii_lowercase (qp_name p) \<notin>
        {''x-amz-algorithm'', ''x-amz-credential'', ''x-amz-date'', ''x-amz-expires'',
         ''x-amz-security-token'', ''x-amz-signedheaders'', ''x-amz-signature''})"
  using sign_presigned_shape[OF assms] by blast

definition example_presign :: presigning_request where
  "example_presign = \<lparr>ps_method = ''GET'', ps_uri_path = Encoded ''/b/k'', ps_query = [],
     ps_headers = [\<lparr>h_name = ''host'', h_value = ''s3.amazonaws.com''\<rparr>], ps_expires = from_secs 60,
     ps_payload_hash = None\<rparr>"

lemma sign_presigned_succeeds:
  assumes "crypto_documented X" and "validate_common cr sc (ps_method req) = Inr ()"
    and "ps_method req \<in> {''GET'', ''PUT'', ''HEAD'', ''DELETE'', ''POST''}"
    and "\<not> (as_secs (ps_expires req) = 0 \<or> MAX_PRESIGN_EXPIRY < as_secs (ps_expires req) \<or>
           subsec_nanos (ps_expires req) \<noteq> 0)"
    and "reject_reserved_query (ps_query req) = Inr ()" and "ps_payload_hash req = None"
    and "canonical_headers (ps_headers req) = Inr block" and "format_timestamp X t = Inr (amz, date)"
    and "path_canonical (ps_uri_path req) = Inr uri"
  shows "\<exists>q. sign_presigned X cr sc req t = Inr q"
proof -
  let ?params = "ps_query req @ signing_params cr (credential_scope date sc) amz (as_secs (ps_expires req)) block"
  obtain canonical_request where r: "build_canonical_request (ps_method req) (ps_uri_path req) ?params block
      UNSIGNED_PAYLOAD = Inr canonical_request"
    using assms(9) by (simp add: build_canonical_request_def)
  obtain sig where "calculate_signature X cr sc date amz (credential_scope date sc) canonical_request = Inr sig"
    using calculate_signature_hex[OF assms(1)] by blast
  with assms(2-8) r show ?thesis
    by (simp add: sign_presigned_def Let_def)
qed

lemma example_presign_signs:
  "\<exists>q. sign_presigned constant_ext example_credentials example_scope example_presign 0 = Inr q"
proof -
  have "\<not> isl (canonical_headers [\<lparr>h_name = ''host'', h_value = ''s3.amazonaws.com''\<rparr>])" by code_simp
  then obtain block where h: "canonical_headers (ps_headers example_presign) = Inr block"
    using not_isl_Inr by (auto simp: example_presign_def)
  have "\<not> isl (path_canonical (Encoded ''/b/k''))" by code_simp
  then obtain uri where u: "path_canonical (ps_uri_path example_presign) = Inr uri"
    using not_isl_Inr by (auto simp: example_presign_def)
  show ?thesis
  proof (rule sign_presigned_succeeds[OF constant_ext_documented _ _ _ _ _ h _ u])
    have "validate_common example_credentials example_scope ''GET'' = Inr ()" by code_simp
    then show "validate_common example_credentials example_scope (ps_method example_presign) = Inr ()"
      by (simp add: example_presign_def)
    show "format_timestamp constant_ext 0 = Inr (''20130524T000000Z'', ''20130524'')"
      by (simp add: format_timestamp_def constant_ext_def)
  qed (simp_all add: example_presign_def reject_reserved_query_def as_secs_def subsec_nanos_def
      from_secs_def MAX_PRESIGN_EXPIRY_def)
qed

lemma sign_presigned_output_witness:
  "\<exists>q n. sign_presigned constant_ext example_credentials example_scope example_presign 0 = Inr q \<and>
     1 \<le> n \<and> n \<le> 604800 \<and> ps_expires example_presign = from_secs n"
proof -
  obtain q where q: "sign_presigned constant_ext example_credentials example_scope example_presign 0 = Inr q"
    using example_presign_signs by blast
  from sign_presigned_output[OF constant_ext_documented q] obtain n where
    "1 \<le> n" "n \<le> 604800" "ps_expires example_presign = from_secs n" by (elim conjE exE)
  with q show ?thesis by (intro exI conjI)
qed

end
