(* ===== verification/S3_Error.thy ===== *)
theory S3_Error
  imports Prelude
begin

text \<open>
  The structured client error of \<open>src/error/mod.rs\<close>: the category, retry classification, timeout
  phase and stop reason enums, the error record with its constructors, and the builders that
  attach service details, the source marker, clock skew, retry context and a cleanup failure.
  An \<open>S3Error\<close> owns an optional cleanup \<open>S3Error\<close>, so the type is a recursive datatype around the
  record of the other fields. Times are nanoseconds of the Unix epoch.
\<close>

datatype error_category =
    Configuration | Authentication | Authorization | NotFound | Conflict | Precondition
  | Throttling | Server | Transport | Tls | Timeout | Cancellation | InvalidResponse
  | OversizedResponse | UnsupportedOperation | Integrity

datatype retry_classification = Never | Retryable | Throttled

datatype timeout_phase = PhaseConnect | PhaseRequest | PhaseResponseBody | PhaseOperation

datatype retry_stop_reason =
    NonRetryable | NonReplayable | AttemptsExhausted | ElapsedLimit | Deadline | RetryQuotaDepleted

text \<open>The redacted source keeps the type name of the underlying error only.\<close>

datatype redacted_source = RedactedSource (error_type: string)

record s3_error_details =
  category :: error_category
  code :: "string option"
  status :: "nat option"
  message :: string
  request_id :: "string option"
  host_id :: "string option"
  retry :: retry_classification
  timeout_phase :: "timeout_phase option"
  server_time :: "int option"
  clock_skew :: "int option"
  source :: "redacted_source option"
  attempts :: u32
  retry_stop_reason :: "retry_stop_reason option"

datatype s3_error = S3Error (details: s3_error_details) (cleanup_failure: "s3_error option")

type_synonym 'a s3_result = "s3_error + 'a"

section \<open>Constructors\<close>

definition new_error :: "error_category \<Rightarrow> string \<Rightarrow> retry_classification \<Rightarrow> s3_error" where
  "new_error cat msg r =
     S3Error \<lparr>category = cat, code = None, status = None, message = msg, request_id = None,
       host_id = None, retry = r, timeout_phase = None, server_time = None, clock_skew = None,
       source = None, attempts = 0, retry_stop_reason = None\<rparr> None"

definition map_details :: "(s3_error_details \<Rightarrow> s3_error_details) \<Rightarrow> s3_error \<Rightarrow> s3_error" where
  "map_details f e = S3Error (f (details e)) (cleanup_failure e)"

definition configuration :: "string \<Rightarrow> s3_error" where
  "configuration msg = new_error Configuration msg Never"

definition unsupported :: "string \<Rightarrow> s3_error" where
  "unsupported msg = new_error UnsupportedOperation msg Never"

definition with_source :: "string \<Rightarrow> s3_error \<Rightarrow> s3_error" where
  "with_source type_name e = map_details (\<lambda>d. d\<lparr>source := Some (RedactedSource type_name)\<rparr>) e"

text \<open>The argument is the type name of the source error, which is all the code keeps of it.\<close>

definition transport :: "string \<Rightarrow> s3_error" where
  "transport type_name =
     with_source type_name (new_error Transport ''HTTP transport failed'' Retryable)"

definition timeout :: "timeout_phase \<Rightarrow> string \<Rightarrow> s3_error" where
  "timeout phase msg =
     map_details (\<lambda>d. d\<lparr>timeout_phase := Some phase\<rparr>) (new_error Timeout msg Retryable)"

definition invalid_response :: "string \<Rightarrow> s3_error" where
  "invalid_response msg = new_error InvalidResponse msg Never"

definition integrity :: "string \<Rightarrow> s3_error" where
  "integrity msg = new_error Integrity msg Never"

definition cancellation :: "string \<Rightarrow> s3_error" where
  "cancellation msg = new_error Cancellation msg Never"

section \<open>Builders\<close>

definition with_service_details ::
  "string option \<Rightarrow> nat \<Rightarrow> string option \<Rightarrow> string option \<Rightarrow> s3_error \<Rightarrow> s3_error" where
  "with_service_details cd st rid hid e =
     map_details (\<lambda>d. d\<lparr>code := cd, status := Some st, request_id := rid, host_id := hid\<rparr>) e"

definition with_cleanup_failure :: "s3_error \<Rightarrow> s3_error \<Rightarrow> s3_error" where
  "with_cleanup_failure cleanup e = S3Error (details e) (Some cleanup)"

definition with_clock_skew :: "int \<Rightarrow> int \<Rightarrow> s3_error \<Rightarrow> s3_error" where
  "with_clock_skew server local e =
     map_details (\<lambda>d. d\<lparr>server_time := Some server, clock_skew := Some (server - local)\<rparr>) e"

definition with_retry_context :: "u32 \<Rightarrow> retry_stop_reason \<Rightarrow> s3_error \<Rightarrow> s3_error" where
  "with_retry_context n reason e =
     map_details (\<lambda>d. d\<lparr>attempts := n, retry_stop_reason := Some reason\<rparr>) e"

abbreviation error_category_of :: "s3_error \<Rightarrow> error_category" where
  "error_category_of e \<equiv> category (details e)"

abbreviation retry_classification_of :: "s3_error \<Rightarrow> retry_classification" where
  "retry_classification_of e \<equiv> retry (details e)"

section \<open>Display\<close>

definition category_debug :: "error_category \<Rightarrow> string" where
  "category_debug c = (case c of
     Configuration \<Rightarrow> ''Configuration'' | Authentication \<Rightarrow> ''Authentication''
   | Authorization \<Rightarrow> ''Authorization'' | NotFound \<Rightarrow> ''NotFound'' | Conflict \<Rightarrow> ''Conflict''
   | Precondition \<Rightarrow> ''Precondition'' | Throttling \<Rightarrow> ''Throttling'' | Server \<Rightarrow> ''Server''
   | Transport \<Rightarrow> ''Transport'' | Tls \<Rightarrow> ''Tls'' | Timeout \<Rightarrow> ''Timeout''
   | Cancellation \<Rightarrow> ''Cancellation'' | InvalidResponse \<Rightarrow> ''InvalidResponse''
   | OversizedResponse \<Rightarrow> ''OversizedResponse''
   | UnsupportedOperation \<Rightarrow> ''UnsupportedOperation'' | Integrity \<Rightarrow> ''Integrity'')"

definition error_display :: "s3_error \<Rightarrow> string" where
  "error_display e =
     category_debug (category (details e)) @ '': '' @ message (details e) @
     (if cleanup_failure e \<noteq> None then '' (cleanup also failed)'' else [])"

definition source_display :: "redacted_source \<Rightarrow> string" where
  "source_display s = ''underlying '' @ error_type s @ '' error (details redacted)''"

section \<open>What the constructors and builders fix\<close>

lemma details_new_error [simp]:
  "category (details (new_error c m r)) = c"
  "message (details (new_error c m r)) = m"
  "retry (details (new_error c m r)) = r"
  "timeout_phase (details (new_error c m r)) = None"
  "attempts (details (new_error c m r)) = 0"
  "retry_stop_reason (details (new_error c m r)) = None"
  "cleanup_failure (new_error c m r) = None"
  by (simp_all add: new_error_def)

lemma map_details_sel [simp]:
  "details (map_details f e) = f (details e)"
  "cleanup_failure (map_details f e) = cleanup_failure e"
  by (simp_all add: map_details_def)

lemma error_constructor_category [simp]:
  "category (details (configuration m)) = Configuration"
  "category (details (unsupported m)) = UnsupportedOperation"
  "category (details (transport m)) = Transport"
  "category (details (timeout p m)) = Timeout"
  "category (details (invalid_response m)) = InvalidResponse"
  "category (details (integrity m)) = Integrity"
  "category (details (cancellation m)) = Cancellation"
  by (simp_all add: configuration_def unsupported_def transport_def timeout_def with_source_def
      invalid_response_def integrity_def cancellation_def)

lemma error_constructor_retry [simp]:
  "retry (details (configuration m)) = Never"
  "retry (details (unsupported m)) = Never"
  "retry (details (transport m)) = Retryable"
  "retry (details (timeout p m)) = Retryable"
  "retry (details (invalid_response m)) = Never"
  "retry (details (integrity m)) = Never"
  "retry (details (cancellation m)) = Never"
  by (simp_all add: configuration_def unsupported_def transport_def timeout_def with_source_def
      invalid_response_def integrity_def cancellation_def)

lemma with_retry_context_sel [simp]:
  "attempts (details (with_retry_context n r e)) = n"
  "retry_stop_reason (details (with_retry_context n r e)) = Some r"
  "category (details (with_retry_context n r e)) = category (details e)"
  "retry (details (with_retry_context n r e)) = retry (details e)"
  "cleanup_failure (with_retry_context n r e) = cleanup_failure e"
  by (simp_all add: with_retry_context_def)

lemma with_cleanup_failure_sel [simp]:
  "details (with_cleanup_failure c e) = details e"
  "cleanup_failure (with_cleanup_failure c e) = Some c"
  by (simp_all add: with_cleanup_failure_def)

lemma with_source_sel [simp]:
  "category (details (with_source t e)) = category (details e)"
  "retry (details (with_source t e)) = retry (details e)"
  "message (details (with_source t e)) = message (details e)"
  "timeout_phase (details (with_source t e)) = timeout_phase (details e)"
  "cleanup_failure (with_source t e) = cleanup_failure e"
  by (simp_all add: with_source_def)

lemma with_service_details_sel [simp]:
  "category (details (with_service_details c s r h e)) = category (details e)"
  "retry (details (with_service_details c s r h e)) = retry (details e)"
  "message (details (with_service_details c s r h e)) = message (details e)"
  "code (details (with_service_details c s r h e)) = c"
  "status (details (with_service_details c s r h e)) = Some s"
  "cleanup_failure (with_service_details c s r h e) = cleanup_failure e"
  by (simp_all add: with_service_details_def)

lemma with_clock_skew_sel [simp]:
  "category (details (with_clock_skew s l e)) = category (details e)"
  "retry (details (with_clock_skew s l e)) = retry (details e)"
  "message (details (with_clock_skew s l e)) = message (details e)"
  "code (details (with_clock_skew s l e)) = code (details e)"
  "status (details (with_clock_skew s l e)) = status (details e)"
  by (simp_all add: with_clock_skew_def)

text \<open>
  Formatting an error is secret-safe: what the display prints depends on the
  category, the message and whether a cleanup failed, never on the source marker or on what the
  cleanup error says.
\<close>

lemma error_display_redacts:
  "error_display (with_cleanup_failure c1 (with_source t1 e)) =
   error_display (with_cleanup_failure c2 (with_source t2 e))"
  by (simp add: error_display_def)

end
