(* ===== verification/Endpoint.thy ===== *)
theory Endpoint
  imports Canonical S3_Error
begin

text \<open>
  Endpoints and request targets, \<open>src/endpoint/mod.rs\<close>: the absolute URL whose path keeps its wire
  form, endpoint validation, the AWS regional endpoints, and the URL of a bucket or object in both
  addressing styles. The URI and authority parsers are the \<open>http\<close> crate: a record of parameters whose
  results hold the components that the code asks for. IP addresses are parsed by the standard library.
\<close>

section \<open>IP addresses (standard library)\<close>

text \<open>
  \<open>core::net::parser\<close>: every reader takes the text and gives the rest, or nothing. A number has at most
  the given count of digits; a decimal octet has no leading zero and at most 255.
\<close>

definition radix_digit :: "nat \<Rightarrow> char \<Rightarrow> nat option" where
  "radix_digit radix c =
     (let v = (if is_ascii_digit c then Some (ord c - 48)
               else if 97 \<le> ord c \<and> ord c \<le> 102 then Some (ord c - 87)
               else if 65 \<le> ord c \<and> ord c \<le> 70 then Some (ord c - 55) else None) in
      case v of Some n \<Rightarrow> if n < radix then Some n else None | None \<Rightarrow> None)"

fun span_digits :: "nat \<Rightarrow> string \<Rightarrow> nat list \<times> string" where
  "span_digits radix [] = ([], [])"
| "span_digits radix (c # cs) =
     (case radix_digit radix c of None \<Rightarrow> ([], c # cs)
      | Some n \<Rightarrow> (let (ns, rest) = span_digits radix cs in (n # ns, rest)))"

definition read_number :: "nat \<Rightarrow> nat \<Rightarrow> bool \<Rightarrow> nat \<Rightarrow> string \<Rightarrow> string option" where
  "read_number radix max_digits allow_zero_prefix limit s =
     (let (ns, rest) = span_digits radix s in
      if ns = [] \<or> max_digits < length ns \<or> limit < foldl (\<lambda>a n. a * radix + n) 0 ns \<or>
         \<not> allow_zero_prefix \<and> hd ns = 0 \<and> 1 < length ns
      then None else Some rest)"

definition read_char :: "char \<Rightarrow> string \<Rightarrow> string option" where
  "read_char c s = (case s of [] \<Rightarrow> None | d # ds \<Rightarrow> if d = c then Some ds else None)"

definition read_octet :: "string \<Rightarrow> string option" where
  "read_octet s = read_number 10 3 False 255 s"

definition read_ipv4 :: "string \<Rightarrow> string option" where
  "read_ipv4 s =
     Option.bind (read_octet s) (\<lambda>s. Option.bind (read_char CHR ''.'' s) (\<lambda>s.
     Option.bind (read_octet s) (\<lambda>s. Option.bind (read_char CHR ''.'' s) (\<lambda>s.
     Option.bind (read_octet s) (\<lambda>s. Option.bind (read_char CHR ''.'' s) read_octet)))))"

text \<open>
  \<open>read_groups\<close>: up to \<open>limit\<close> groups, or an embedded IPv4 address as the last two. The result is the
  number of groups read, whether an IPv4 address ended them, and the rest. The first argument counts
  the groups that may still follow.
\<close>

fun read_groups :: "nat \<Rightarrow> nat \<Rightarrow> string \<Rightarrow> nat \<times> bool \<times> string" where
  "read_groups 0 i s = (i, False, s)"
| "read_groups (Suc left) i s =
     (let sep = (if i = 0 then Some s else read_char CHR '':'' s) in
      case (if 0 < left then Option.bind sep read_ipv4 else None) of
        Some rest \<Rightarrow> (i + 2, True, rest)
      | None \<Rightarrow>
          (case Option.bind sep (read_number 16 4 True 65535) of
             None \<Rightarrow> (i, False, s)
           | Some rest \<Rightarrow> read_groups left (i + 1) rest))"

definition read_ipv6 :: "string \<Rightarrow> string option" where
  "read_ipv6 s =
     (let (head_size, head_ipv4, rest) = read_groups 8 0 s in
      if head_size = 8 then Some rest
      else if head_ipv4 then None
      else Option.bind (read_char CHR '':'' rest) (\<lambda>r. Option.bind (read_char CHR '':'' r) (\<lambda>r.
        let (tail_size, tail_ipv4, rest') = read_groups (8 - (head_size + 1)) 0 r in Some rest')))"

definition is_ip_addr :: "string \<Rightarrow> bool" where
  "is_ip_addr s \<longleftrightarrow> read_ipv4 s = Some [] \<or> read_ipv6 s = Some []"

section \<open>Endpoint URLs\<close>

datatype addressing_style = Path | VirtualHosted

datatype aws_endpoint_variant = Standard | DualStack | Fips | FipsDualStack

record endpoint_url =
  eu_serialized :: string
  eu_scheme :: string
  eu_authority :: string
  eu_path_and_query :: string

record authority_parts =
  auth_str :: string
  auth_host :: string
  auth_port :: "nat option"

record uri_parts =
  uri_scheme :: "string option"
  uri_authority :: "authority_parts option"
  uri_path :: string
  uri_query :: "string option"

record uri_ext =
  ux_uri :: "string \<Rightarrow> uri_parts option"
  ux_authority :: "string \<Rightarrow> authority_parts option"

definition from_parts :: "uri_ext \<Rightarrow> string \<Rightarrow> string \<Rightarrow> string \<Rightarrow> s3_error + endpoint_url" where
  "from_parts U scheme authority path_and_query =
     (let serialized = scheme @ ''://'' @ authority @ path_and_query in
      case ux_uri U serialized of
        None \<Rightarrow> Inl (configuration ''endpoint does not form a valid HTTP URI'')
      | Some _ \<Rightarrow> Inr \<lparr>eu_serialized = serialized, eu_scheme = scheme, eu_authority = authority,
          eu_path_and_query = path_and_query\<rparr>)"

text \<open>The path of a path-and-query: everything before the first question mark.\<close>

definition before_query :: "string \<Rightarrow> string" where
  "before_query s = (case split_once CHR ''?'' s of None \<Rightarrow> s | Some (p, _) \<Rightarrow> p)"

definition with_query :: "uri_ext \<Rightarrow> string \<Rightarrow> endpoint_url \<Rightarrow> s3_error + endpoint_url" where
  "with_query U query u =
     reject_if (starts_with query ''?'' \<or> CHR ''#'' \<in> set query)
       (configuration (''request query must not include '' @ [CHR 0x27, CHR 0x3F, CHR 0x27] @ '' or a fragment''))
     (let path = before_query (eu_path_and_query u);
          path_and_query = (if query = [] then path else path @ ''?'' @ query) in
      from_parts U (eu_scheme u) (eu_authority u) path_and_query)"


definition with_authority :: "uri_ext \<Rightarrow> string \<Rightarrow> endpoint_url \<Rightarrow> s3_error + endpoint_url" where
  "with_authority U authority u =
     and_then (ok_or (configuration ''redirect authority is invalid'') (ux_authority U authority)) (\<lambda>parsed.
     reject_if (CHR ''@'' \<in> set (auth_str parsed) \<or> auth_host parsed = [])
       (configuration ''redirect authority is invalid'')
     (from_parts U (eu_scheme u) (auth_str parsed) (eu_path_and_query u)))"

section \<open>Endpoints\<close>

record endpoint =
  ep_url :: endpoint_url
  ep_base_path :: string

definition absolute_path :: "string \<Rightarrow> string" where
  "absolute_path p = (if p = [] then ''/'' else p)"

definition slash_terminated :: "string \<Rightarrow> string" where
  "slash_terminated p = (if ends_with p ''/'' then p else p @ ''/'')"

definition endpoint_new :: "uri_ext \<Rightarrow> string \<Rightarrow> s3_error + endpoint" where
  "endpoint_new U input =
     reject_if (CHR ''#'' \<in> set input) (configuration ''endpoint must not contain a query string or fragment'')
     (and_then (ok_or (configuration ''endpoint must be a valid absolute URL'') (ux_uri U input)) (\<lambda>uri.
     and_then (ok_or (configuration ''endpoint must include a scheme'') (uri_scheme uri)) (\<lambda>scheme.
     reject_if (scheme \<noteq> ''https'' \<and> scheme \<noteq> ''http'')
       (configuration ''endpoint scheme must be HTTPS or explicitly enabled HTTP'')
     (and_then (ok_or (configuration ''endpoint must include a host'') (uri_authority uri)) (\<lambda>authority.
     reject_if (CHR ''@'' \<in> set (auth_str authority)) (configuration ''endpoint must not contain user information'')
     (reject_if (auth_host authority = []) (configuration ''endpoint must include a host'')
     (reject_if (uri_query uri \<noteq> None) (configuration ''endpoint must not contain a query string or fragment'')
     (let base_path = absolute_path (uri_path uri) in
     reject_if (\<not> starts_with base_path ''/'') (configuration ''endpoint path must be absolute'')
     (let base_path = slash_terminated base_path in
     and_then (from_parts U scheme (auth_str authority) base_path) (\<lambda>url.
     Inr \<lparr>ep_url = url, ep_base_path = base_path\<rparr>))))))))))"

definition is_https :: "endpoint \<Rightarrow> bool" where
  "is_https e \<longleftrightarrow> eu_scheme (ep_url e) = ''https''"

definition region_char :: "char \<Rightarrow> bool" where
  "region_char c \<longleftrightarrow> is_ascii_alphanumeric c \<or> c = CHR ''-''"

definition validate_region :: "string \<Rightarrow> s3_error + unit" where
  "validate_region region =
     reject_if (region = [] \<or> 64 < length region \<or> \<not> list_all region_char region)
       (configuration ''AWS region is invalid'') (Inr ())"

definition for_aws_region_variant :: "uri_ext \<Rightarrow> string \<Rightarrow> aws_endpoint_variant \<Rightarrow> s3_error + endpoint" where
  "for_aws_region_variant U region variant =
     and_then (validate_region region) (\<lambda>_.
     let suffix = (if starts_with region ''cn-'' then ''amazonaws.com.cn'' else ''amazonaws.com'');
         service = (if variant \<in> {Standard, DualStack} then ''s3'' else ''s3-fips'');
         dualstack = (if variant \<in> {DualStack, FipsDualStack} then ''.dualstack'' else []) in
     endpoint_new U (''https://'' @ service @ dualstack @ ''.'' @ region @ ''.'' @ suffix))"

definition for_aws_region :: "uri_ext \<Rightarrow> string \<Rightarrow> s3_error + endpoint" where
  "for_aws_region U region = for_aws_region_variant U region Standard"

definition validate_bucket_for_path :: "string \<Rightarrow> s3_error + unit" where
  "validate_bucket_for_path bucket =
     reject_if (bucket = [] \<or> 255 < length bucket \<or>
         list_ex (\<lambda>c. c = CHR ''/'' \<or> c = CHR 0x5C \<or> is_ascii_control c) bucket)
       (configuration ''bucket name is invalid'') (Inr ())"

definition validate_virtual_host_bucket :: "string \<Rightarrow> s3_error + unit" where
  "validate_virtual_host_bucket bucket =
     reject_if (\<not> (3 \<le> length bucket \<and> length bucket \<le> 63) \<or>
         starts_with bucket ''-'' \<or> starts_with bucket ''.'' \<or> ends_with bucket ''-'' \<or> ends_with bucket ''.'' \<or>
         contains_str bucket ''..'' \<or>
         \<not> list_all (\<lambda>c. is_ascii_lowercase c \<or> is_ascii_digit c \<or> c = CHR ''-'' \<or> c = CHR ''.'') bucket \<or>
         is_ip_addr bucket)
       (configuration ''bucket is not valid for virtual-hosted addressing'') (Inr ())"

text \<open>\<open>trim_matches\<close> of the brackets around an IPv6 host.\<close>

definition trim_brackets :: "string \<Rightarrow> string" where
  "trim_brackets s =
     (let br = (\<lambda>c. c = CHR ''['' \<or> c = CHR '']'') in rev (dropWhile br (rev (dropWhile br s))))"

definition virtual_host_authority :: "uri_ext \<Rightarrow> endpoint \<Rightarrow> string \<Rightarrow> s3_error + string" where
  "virtual_host_authority U e bucket =
     and_then (validate_virtual_host_bucket bucket) (\<lambda>_.
     and_then (ok_or (configuration ''endpoint authority is invalid'') (ux_authority U (eu_authority (ep_url e)))) (\<lambda>parsed.
     reject_if (is_ip_addr (trim_brackets (auth_host parsed)))
       (configuration ''virtual-hosted addressing cannot be used with an IP endpoint'')
     (Inr (case auth_port parsed of
        None \<Rightarrow> bucket @ ''.'' @ auth_host parsed
      | Some port \<Rightarrow> bucket @ ''.'' @ auth_host parsed @ '':'' @ to_string port))))"

definition object_path :: "endpoint \<Rightarrow> string \<Rightarrow> string option \<Rightarrow> addressing_style \<Rightarrow> string" where
  "object_path e bucket object_key style =
     (let path = ep_base_path e @ (if style = Path then encode_path_component bucket else []) in
      case object_key of
        Some key \<Rightarrow> (if style = Path \<and> \<not> ends_with path ''/'' then path @ ''/'' else path) @ encode_object_key key
      | None \<Rightarrow> if style = VirtualHosted \<and> 1 < length path then butlast path else path)"

definition object_url ::
  "uri_ext \<Rightarrow> endpoint \<Rightarrow> string \<Rightarrow> string option \<Rightarrow> addressing_style \<Rightarrow> s3_error + endpoint_url" where
  "object_url U e bucket object_key style =
     and_then (validate_bucket_for_path bucket) (\<lambda>_.
     and_then (if style = VirtualHosted then virtual_host_authority U e bucket
               else Inr (eu_authority (ep_url e))) (\<lambda>authority.
     from_parts U (eu_scheme (ep_url e)) authority (object_path e bucket object_key style)))"

section \<open>Lemmas\<close>

lemma from_parts_Inr_iff:
  "from_parts U sc au pq = Inr u \<longleftrightarrow>
     ux_uri U (sc @ ''://'' @ au @ pq) \<noteq> None \<and>
     u = \<lparr>eu_serialized = sc @ ''://'' @ au @ pq, eu_scheme = sc, eu_authority = au, eu_path_and_query = pq\<rparr>"
  by (auto simp: from_parts_def Let_def split: option.splits)

text \<open>Every URL the code builds: its parts make up the text and the parser accepts it.\<close>

definition url_ok :: "uri_ext \<Rightarrow> endpoint_url \<Rightarrow> bool" where
  "url_ok U u \<longleftrightarrow> eu_serialized u = eu_scheme u @ ''://'' @ eu_authority u @ eu_path_and_query u \<and>
     ux_uri U (eu_serialized u) \<noteq> None"

definition endpoint_ok :: "uri_ext \<Rightarrow> endpoint \<Rightarrow> bool" where
  "endpoint_ok U e \<longleftrightarrow> url_ok U (ep_url e) \<and> eu_path_and_query (ep_url e) = ep_base_path e \<and>
     starts_with (ep_base_path e) ''/'' \<and> ends_with (ep_base_path e) ''/'' \<and>
     eu_scheme (ep_url e) \<in> {''https'', ''http''} \<and> CHR ''@'' \<notin> set (eu_authority (ep_url e))"

lemma from_parts_ok: "from_parts U sc au pq = Inr u \<Longrightarrow> url_ok U u"
  by (auto simp: from_parts_Inr_iff url_ok_def)

lemma starts_with_append_prefix: "starts_with s p \<Longrightarrow> starts_with (s @ t) p"
  by (auto simp: starts_with_iff)

lemma endpoint_new_ok:
  assumes "endpoint_new U input = Inr e"
  shows "endpoint_ok U e"
proof -
  from assms obtain scheme authority base where
    p: "scheme = ''https'' \<or> scheme = ''http''" "CHR ''@'' \<notin> set authority" "starts_with base ''/''"
      "from_parts U scheme authority (slash_terminated base) = Inr (ep_url e)"
      "ep_base_path e = slash_terminated base"
    by (auto simp: endpoint_new_def Let_def split: if_split_asm; blast)
  have "ends_with (slash_terminated base) ''/''" "starts_with (slash_terminated base) ''/''"
    using p(3) by (auto simp: slash_terminated_def ends_with_iff starts_with_append_prefix)
  with p from_parts_ok[OF p(4)] show ?thesis by (auto simp: endpoint_ok_def from_parts_Inr_iff)
qed

lemma object_url_parts:
  assumes "object_url U e bucket key style = Inr u"
  shows "url_ok U u" and "eu_scheme u = eu_scheme (ep_url e)"
    and "eu_path_and_query u = object_path e bucket key style"
    and "style = Path \<Longrightarrow> eu_authority u = eu_authority (ep_url e)"
    and "style = VirtualHosted \<Longrightarrow> virtual_host_authority U e bucket = Inr (eu_authority u)"
    and "validate_bucket_for_path bucket = Inr ()"
  using assms by (auto simp: object_url_def from_parts_ok from_parts_Inr_iff url_ok_def)

lemma last_slash: "ends_with s ''/'' \<longleftrightarrow> s \<noteq> [] \<and> last s = CHR ''/''"
  by (cases s rule: rev_cases) (auto simp: ends_with_iff)

lemma encode_path_component_no_slash: "CHR ''/'' \<notin> set (encode_path_component s)"
  using path_component.encode_alphabet[of "CHR ''/''" s] by (auto simp: is_unreserved_def byte_simps)

lemma object_path_Path_key:
  assumes "bucket \<noteq> []"
  shows "object_path e bucket (Some key) Path =
    ep_base_path e @ encode_path_component bucket @ ''/'' @ encode_object_key key"
proof -
  have "encode_path_component bucket \<noteq> []" using assms by (simp add: path_component.encode_Nil_iff)
  then have "\<not> ends_with (ep_base_path e @ encode_path_component bucket) ''/''"
    using encode_path_component_no_slash[of bucket] last_in_set by (fastforce simp: last_slash)
  then show ?thesis by (simp add: object_path_def)
qed

lemma bucket_nonempty: "validate_bucket_for_path bucket = Inr () \<Longrightarrow> bucket \<noteq> []"
  by (auto simp: validate_bucket_for_path_def split: if_splits)

text \<open>The paths of an endpoint determine the bucket (in path style) and the key.\<close>

lemma object_path_Path_inj:
  assumes "object_path e b1 k1 Path = object_path e b2 k2 Path" and "b1 \<noteq> []" and "b2 \<noteq> []"
  shows "b1 = b2 \<and> k1 = k2"
proof -
  have key: "encode_path_component b @ CHR ''/'' # encode_object_key k = encode_path_component b' @ CHR ''/'' # encode_object_key k' \<Longrightarrow>
      b = b' \<and> k = k'" for b b' k k'
    by (metis encode_path_component_no_slash split_once_append option.inject prod.inject
        path_component.encode_inj object_key.encode_inj)
  have mixed: "encode_path_component b @ CHR ''/'' # x \<noteq> encode_path_component b'" for b b' x
    using encode_path_component_no_slash[of b'] by (metis in_set_conv_decomp)
  show ?thesis
  proof (cases k1; cases k2)
    assume "k1 = None" "k2 = None"
    with assms show ?thesis by (simp add: object_path_def path_component.encode_inj)
  next
    fix x assume "k1 = None" "k2 = Some x"
    with assms mixed[of b2 "encode_object_key x" b1] show ?thesis
      by (auto simp: object_path_Path_key) (simp add: object_path_def)
  next
    fix x assume "k1 = Some x" "k2 = None"
    with assms mixed[of b1 "encode_object_key x" b2] show ?thesis
      by (auto simp: object_path_Path_key) (simp add: object_path_def)
  next
    fix x y assume "k1 = Some x" "k2 = Some y"
    with assms key[of b1 x b2 y] show ?thesis by (simp add: object_path_Path_key)
  qed
qed


lemma object_path_VirtualHosted_inj:
  assumes "object_path e b1 k1 VirtualHosted = object_path e b2 k2 VirtualHosted"
    and "k1 \<noteq> Some []" and "k2 \<noteq> Some []" and "ep_base_path e \<noteq> []"
  shows "k1 = k2"
proof -
  let ?base = "ep_base_path e"
  have none: "object_path e b None VirtualHosted \<noteq> object_path e b' (Some x) VirtualHosted" if "x \<noteq> []" for b b' x
  proof -
    have "encode_object_key x \<noteq> []" using that by (simp add: object_key.encode_Nil_iff)
    then have "length (object_path e b' (Some x) VirtualHosted) > length ?base" by (simp add: object_path_def)
    moreover have "length (object_path e b None VirtualHosted) \<le> length ?base"
      by (simp add: object_path_def Let_def)
    ultimately show ?thesis by (metis not_le)
  qed
  show ?thesis
  proof (cases k1; cases k2)
    fix x assume "k1 = None" "k2 = Some x"
    with none[of x b1 b2] assms show ?thesis by auto
  next
    fix x assume "k1 = Some x" "k2 = None"
    with none[of x b2 b1] assms show ?thesis by auto
  next
    fix x y assume "k1 = Some x" "k2 = Some y"
    with assms(1) show ?thesis by (simp add: object_path_def object_key.encode_inj)
  qed simp
qed

lemma virtual_host_authority_inj:
  "virtual_host_authority U e b1 = Inr a \<Longrightarrow> virtual_host_authority U e b2 = Inr a \<Longrightarrow> b1 = b2"
  by (auto simp: virtual_host_authority_def split: if_splits option.splits)

text \<open>
  Property C40. Distinct objects have distinct targets: for one endpoint and addressing style, two
  requests that are sent to the same authority and path name the same bucket, and both the same key or
  both none, whatever bytes the names hold. (Keys are not empty: \<open>ObjectKey::new\<close> refuses the empty key.)
\<close>

theorem object_url_injective:
  assumes "endpoint_new U input = Inr e" and "k1 \<noteq> Some []" and "k2 \<noteq> Some []"
    and "object_url U e b1 k1 style = Inr u1" and "object_url U e b2 k2 style = Inr u2"
    and "eu_authority u1 = eu_authority u2" and "eu_path_and_query u1 = eu_path_and_query u2"
  shows "b1 = b2 \<and> k1 = k2"
proof -
  note p1 = object_url_parts[OF assms(4)] and p2 = object_url_parts[OF assms(5)]
  have path: "object_path e b1 k1 style = object_path e b2 k2 style" using p1(3) p2(3) assms(7) by simp
  have base: "ep_base_path e \<noteq> []" using endpoint_new_ok[OF assms(1)] by (auto simp: endpoint_ok_def starts_with_def)
  show ?thesis
  proof (cases style)
    case Path
    with path show ?thesis
      using object_path_Path_inj bucket_nonempty[OF p1(6)] bucket_nonempty[OF p2(6)] by blast
  next
    case VirtualHosted
    then have "b1 = b2" using p1(5) p2(5) assms(6) virtual_host_authority_inj by metis
    with VirtualHosted path base assms(2,3) show ?thesis using object_path_VirtualHosted_inj by blast
  qed
qed

text \<open>
  A stand-in for the parsers of the \<open>http\<close> crate, for concrete endpoints: it accepts every authority
  without a port and reads the parts of an absolute URL.
\<close>

definition example_uri_ext :: uri_ext where
  "example_uri_ext = \<lparr>
     ux_uri = (\<lambda>s. case strip_prefix s ''https://'' of
        None \<Rightarrow> None
      | Some r \<Rightarrow> Some \<lparr>uri_scheme = Some ''https'', 
          uri_authority = (let h = takeWhile (\<lambda>c. c \<noteq> CHR ''/'') r in Some \<lparr>auth_str = h, auth_host = h, auth_port = None\<rparr>),
          uri_path = dropWhile (\<lambda>c. c \<noteq> CHR ''/'') r, uri_query = None\<rparr>),
     ux_authority = (\<lambda>s. Some \<lparr>auth_str = s, auth_host = s, auth_port = None\<rparr>)\<rparr>"

definition example_endpoint :: endpoint where
  "example_endpoint = \<lparr>ep_url = \<lparr>eu_serialized = ''https://s3.test/'', eu_scheme = ''https'',
     eu_authority = ''s3.test'', eu_path_and_query = ''/''\<rparr>, ep_base_path = ''/''\<rparr>"

lemma example_endpoint_new: "endpoint_new example_uri_ext ''https://s3.test'' = Inr example_endpoint"
  by code_simp

definition example_target :: endpoint_url where
  "example_target = \<lparr>eu_serialized = ''https://s3.test/b/a%20b'', eu_scheme = ''https'',
     eu_authority = ''s3.test'', eu_path_and_query = ''/b/a%20b''\<rparr>"

lemma example_object_url: "object_url example_uri_ext example_endpoint ''b'' (Some ''a b'') Path = Inr example_target"
  by code_simp

theorem object_url_injective_witness:
  "endpoint_new example_uri_ext ''https://s3.test'' = Inr example_endpoint \<and>
   object_url example_uri_ext example_endpoint ''b'' (Some ''a b'') Path = Inr example_target \<and>
   object_url example_uri_ext example_endpoint ''b'' (Some ''a+b'') Path \<noteq> Inr example_target"
  using example_endpoint_new example_object_url
    object_url_injective[OF example_endpoint_new _ _ example_object_url, of "Some ''a+b''" "''b''" example_target]
  by auto

section \<open>The signed path\<close>

lemma question_free:
  "CHR ''?'' \<notin> set (encode_path_component s)" "CHR ''?'' \<notin> set (encode_object_key s)"
  using path_component.encode_alphabet[of "CHR ''?''" s] object_key.encode_alphabet[of "CHR ''?''" s]
  by (auto simp: is_unreserved_def byte_simps)

lemma before_query_plain: "CHR ''?'' \<notin> set p \<Longrightarrow> before_query p = p"
  by (simp add: before_query_def split_once_None_iff[THEN iffD2])

lemma before_query_append: "CHR ''?'' \<notin> set p \<Longrightarrow> before_query (p @ CHR ''?'' # q) = p"
  by (simp add: before_query_def split_once_append)

lemma with_query_path: "with_query U query u = Inr v \<Longrightarrow> before_query (eu_path_and_query v) = before_query (eu_path_and_query u)
    \<and> eu_scheme v = eu_scheme u \<and> eu_authority v = eu_authority u"
proof -
  assume "with_query U query u = Inr v"
  then have v: "eu_path_and_query v = (if query = [] then before_query (eu_path_and_query u)
      else before_query (eu_path_and_query u) @ ''?'' @ query)" "eu_scheme v = eu_scheme u" "eu_authority v = eu_authority u"
    by (auto simp: with_query_def Let_def from_parts_Inr_iff split: if_splits)
  have "CHR ''?'' \<notin> set (before_query s)" for s
    by (auto simp: before_query_def split_once_None_iff split: option.splits dest: split_once_SomeD)
  then show ?thesis using v by (auto simp: before_query_plain before_query_append)
qed

text \<open>
  The canonical form of a path: unreserved characters and slashes stand for themselves, and every other
  byte is a percent sign with two upper-case hexadecimal digits.
\<close>

definition upper_hex :: "char \<Rightarrow> bool" where
  "upper_hex c \<longleftrightarrow> c \<in> set HEX"

fun canonical_text :: "string \<Rightarrow> bool" where
  "canonical_text [] \<longleftrightarrow> True"
| "canonical_text (c # cs) \<longleftrightarrow>
     (if c = CHR ''%'' then
        (case cs of h # l # rest \<Rightarrow> upper_hex h \<and> upper_hex l \<and> canonical_text rest | _ \<Rightarrow> False)
      else keep_slash c \<and> canonical_text cs)"

lemma upper_hex_index: "upper_hex h \<longleftrightarrow> (\<exists>i<16. h = HEX ! i)"
proof -
  have "length HEX = 16" by simp
  then show ?thesis unfolding upper_hex_def by (metis in_set_conv_nth)
qed

lemma upper_hex_fixed: "hex_value h = Some n \<Longrightarrow> HEX ! n = h \<longleftrightarrow> upper_hex h"
proof
  assume h: "hex_value h = Some n" and "HEX ! n = h"
  with hex_value_less[OF h] show "upper_hex h" unfolding upper_hex_index by blast
next
  assume h: "hex_value h = Some n" and "upper_hex h"
  then obtain i where i: "i < 16" "h = HEX ! i" unfolding upper_hex_index by blast
  have "Some i = Some n" using h unfolding i(2) hex_value_HEX[OF i(1)] .
  with i(2) show "HEX ! n = h" by (simp only: option.inject)
qed

lemma upper_hex_value: "upper_hex h \<Longrightarrow> \<exists>n. hex_value h = Some n"
  unfolding upper_hex_index using hex_value_HEX by blast

lemma upper_hex_slash: "\<not> upper_hex CHR ''/''"
  by (simp add: upper_hex_def)

text \<open>The canonical texts are the fixed points of the signer's loop.\<close>

lemma encoded_uri_loop_fixed_iff: "encoded_uri_loop s = Inr s \<longleftrightarrow> canonical_text s"
proof (induction s rule: canonical_text.induct)
  case (2 c cs)
  consider (pct) "c = CHR ''%''" | (kept) "c \<noteq> CHR ''%''" "keep_slash c"
    | (other) "c \<noteq> CHR ''%''" "\<not> keep_slash c" by blast
  then show ?case
  proof cases
    case pct
    show ?thesis
    proof (cases "\<exists>h l rest. cs = h # l # rest")
      case True
      then obtain h l rest where cs: "cs = h # l # rest" by blast
      with pct "2.IH"(1) have IH: "encoded_uri_loop rest = Inr rest \<longleftrightarrow> canonical_text rest" by blast
      show ?thesis
        using upper_hex_fixed[of h] upper_hex_fixed[of l] upper_hex_value[of h] upper_hex_value[of l]
        by (auto simp: cs pct encoded_uri_loop.simps(2) IH split: option.splits)
    next
      case False
      then show ?thesis using pct by (auto simp: encoded_uri_loop.simps(2) split: list.splits)
    qed
  next
    case kept
    with "2.IH"(2) show ?thesis by (cases "encoded_uri_loop cs") auto
  next
    case other
    have "aws_uri_encode True (take (utf8_len c) (c # cs)) @ r \<noteq> c # cs" for r
      using other utf8_len_pos[of c] by (cases "utf8_len c") (simp_all add: aws_true.encode_Cons push_percent_encoded_def del: aws_uri_encode.simps)
    with other show ?thesis by (cases "encoded_uri_loop (drop (utf8_len c - 1) cs)") (auto simp: encoded_uri_loop_other)
  qed
qed simp

lemma canonical_text_slash: "canonical_text (x @ CHR ''/'' # t) \<longleftrightarrow> canonical_text x \<and> canonical_text t"
proof (induction x rule: canonical_text.induct)
  case (2 c cs)
  show ?case
  proof (cases "c = CHR ''%''")
    case True
    with 2 upper_hex_slash show ?thesis by (cases cs; cases "tl cs"; cases t) simp_all
  next
    case False
    with 2 show ?thesis by simp
  qed
qed simp

lemma canonical_text_encoded: "canonical_text (encode_object_key s)" "canonical_text (encode_path_component s)"
  using encoded_uri_loop_aws(2)[of s "[]"] encoded_uri_loop_aws(3)[of s "[]"]
  by (simp_all flip: encoded_uri_loop_fixed_iff)

lemma canonical_text_no_question: "canonical_text s \<Longrightarrow> CHR ''?'' \<notin> set s"
proof (induction s rule: canonical_text.induct)
  case (2 c cs)
  have "\<not> keep_slash CHR ''?''" "\<not> upper_hex CHR ''?''" by (simp_all add: is_unreserved_def byte_simps upper_hex_def)
  with 2 show ?case by (auto split: if_splits list.splits)
qed simp

text \<open>A canonical text decodes, and on its own: what follows it is decoded separately.\<close>

lemma decode_canonical:
  "canonical_text x \<Longrightarrow> \<exists>d. decode_loop x = Some d \<and> (d = [] \<longleftrightarrow> x = []) \<and>
     (\<forall>t. decode_loop (x @ t) = map_option ((@) d) (decode_loop t))"
proof (induction x rule: canonical_text.induct)
  case 1
  have "map_option ((@) []) y = y" for y :: "string option" by (cases y) simp_all
  then show ?case by simp
next
  case (2 c cs)
  have m: "map_option (\<lambda>r. a # d @ r) y = map_option ((@) (a # d)) y" for a d and y :: "string option"
    by (cases y) simp_all
  show ?case
  proof (cases "c = CHR ''%''")
    case True
    with "2.prems" obtain h l rest where cs: "cs = h # l # rest" "upper_hex h" "upper_hex l" "canonical_text rest"
      by (auto split: list.splits)
    with True "2.IH"(1) obtain d where "decode_loop rest = Some d"
      "\<forall>t. decode_loop (rest @ t) = map_option ((@) d) (decode_loop t)" by blast
    moreover obtain hi lo where "hex_value h = Some hi" "hex_value l = Some lo" using upper_hex_value cs by blast
    ultimately show ?thesis using True by (simp add: cs option.map_comp comp_def m)
  next
    case False
    with 2 obtain d where "decode_loop cs = Some d"
      "\<forall>t. decode_loop (cs @ t) = map_option ((@) d) (decode_loop t)" by auto
    with False show ?thesis by (simp add: option.map_comp comp_def m)
  qed
qed

text \<open>The path of a target, in the endpoint's base path without its last slash.\<close>

lemma object_path_cases:
  assumes "ep_base_path e = x @ ''/''" and "bucket \<noteq> []"
  shows "object_path e bucket key Path = x @ CHR ''/'' # encode_path_component bucket @
      (case key of None \<Rightarrow> [] | Some k \<Rightarrow> CHR ''/'' # encode_object_key k)"
    and "object_path e bucket (Some k) VirtualHosted = x @ CHR ''/'' # encode_object_key k"
    and "object_path e bucket None VirtualHosted = (if x = [] then ''/'' else x)"
proof -
  show "object_path e bucket key Path = x @ CHR ''/'' # encode_path_component bucket @
      (case key of None \<Rightarrow> [] | Some k \<Rightarrow> CHR ''/'' # encode_object_key k)"
    by (cases key) (simp_all add: object_path_Path_key[OF assms(2)] assms(1), simp add: object_path_def assms(1))
qed (simp_all add: object_path_def assms(1))

lemma canonical_text_object_path:
  assumes "ends_with (ep_base_path e) ''/''" and "bucket \<noteq> []"
  shows "canonical_text (object_path e bucket key style) \<longleftrightarrow> canonical_text (ep_base_path e)"
proof -
  from assms(1) obtain x where x: "ep_base_path e = x @ ''/''" by (auto simp: ends_with_iff)
  have "canonical_text (x @ ''/'') \<longleftrightarrow> canonical_text x" using canonical_text_slash[of x "[]"] by simp
  then show ?thesis using canonical_text_slash[of "[]"]
    by (cases style; cases key)
      (auto simp: object_path_cases[OF x assms(2)] x canonical_text_slash canonical_text_encoded)
qed

text \<open>The path a target stands for, when \<open>base\<close> is the decoded base path without its last slash.\<close>

definition named_path :: "string \<Rightarrow> string \<Rightarrow> string option \<Rightarrow> addressing_style \<Rightarrow> string" where
  "named_path base bucket key style =
     (case (style, key) of
        (Path, None) \<Rightarrow> base @ ''/'' @ bucket
      | (Path, Some k) \<Rightarrow> base @ ''/'' @ bucket @ ''/'' @ k
      | (VirtualHosted, None) \<Rightarrow> if base = [] then ''/'' else base
      | (VirtualHosted, Some k) \<Rightarrow> base @ ''/'' @ k)"

lemma object_path_decodes:
  assumes "ends_with (ep_base_path e) ''/''" and "bucket \<noteq> []" and "canonical_text (ep_base_path e)"
  shows "\<exists>base. decode_loop (ep_base_path e) = Some (base @ ''/'') \<and>
    decode_loop (object_path e bucket key style) = Some (named_path base bucket key style)"
proof -
  from assms(1) obtain x where x: "ep_base_path e = x @ ''/''" by (auto simp: ends_with_iff)
  then have "canonical_text x" using assms(3) canonical_text_slash[of x "[]"] by simp
  then obtain d where d: "decode_loop x = Some d" "d = [] \<longleftrightarrow> x = []"
    "\<And>t. decode_loop (x @ t) = map_option ((@) d) (decode_loop t)" using decode_canonical by blast
  have s: "decode_loop (CHR ''/'' # t) = map_option ((#) CHR ''/'') (decode_loop t)" for t by simp
  show ?thesis
    by (cases style; cases key)
      (auto simp: object_path_cases[OF x assms(2)] x d s named_path_def object_key.decode_encode
        path_component.decode_encode path_component.decode_encode_append simp del: decode_loop.simps(2))
qed

lemma starts_slash_object_path:
  assumes "starts_with (ep_base_path e) ''/''"
  shows "starts_with (object_path e bucket key style) ''/''"
proof -
  from assms obtain r where r: "ep_base_path e = CHR ''/'' # r" by (auto simp: starts_with_iff)
  show ?thesis
    by (cases style; cases key; cases r) (simp_all add: object_path_def Let_def r starts_with_def)
qed

lemma before_query_slash: "starts_with p ''/'' \<Longrightarrow> starts_with (before_query p) ''/''"
  by (cases p) (auto simp: before_query_def starts_with_def split: option.splits)

lemma canonical_uri_absolute:
  "starts_with p ''/'' \<Longrightarrow> canonical_uri_from_encoded p = encoded_uri_loop p"
  by (cases "encoded_uri_loop (tl p)"; cases p) (auto simp: canonical_uri_from_encoded_def starts_with_def)

text \<open>
  An absolute path and its part before a question mark have the path itself as canonical form exactly
  when the path is canonical.
\<close>

lemma canonical_uri_fixed_iff:
  assumes "starts_with p ''/''"
  shows "canonical_uri_from_encoded (before_query p) = Inr p \<longleftrightarrow> canonical_text p"
proof
  assume "canonical_uri_from_encoded (before_query p) = Inr p"
  then have "encoded_uri_loop p = Inr p"
    using canonical_uri_absolute[OF before_query_slash[OF assms]] encoded_uri_loop_idem by metis
  then show "canonical_text p" by (simp add: encoded_uri_loop_fixed_iff)
next
  assume "canonical_text p"
  then show "canonical_uri_from_encoded (before_query p) = Inr p"
    by (simp add: before_query_plain canonical_text_no_question canonical_uri_absolute[OF assms] encoded_uri_loop_fixed_iff)
qed

text \<open>
  Property C35. The path that is signed is the path on the wire exactly when the endpoint's base path is
  canonical: for the target of any bucket, with or without a key, in both addressing styles and with any
  query, the signer canonicalises the path to itself if and only if the base path consists of unreserved
  characters, slashes and percent triplets with upper-case digits (the encoded bucket and key never break
  it). Such a target decodes to the decoded base path followed by the exact bytes of the bucket and the key.
\<close>

theorem signed_path_is_wire_path:
  assumes "endpoint_new U input = Inr e"
    and "object_url U e bucket key style = Inr u" and "with_query U query u = Inr v"
  shows "(canonical_uri_from_encoded (before_query (eu_path_and_query v)) = Inr (eu_path_and_query u)
       \<longleftrightarrow> canonical_text (ep_base_path e)) \<and>
    (canonical_text (ep_base_path e) \<longrightarrow>
       before_query (eu_path_and_query v) = eu_path_and_query u \<and>
       (\<exists>base. decode_loop (ep_base_path e) = Some (base @ ''/'') \<and>
          decode_loop (eu_path_and_query u) = Some (named_path base bucket key style)))"
proof -
  note parts = object_url_parts[OF assms(2)]
  have ok: "starts_with (ep_base_path e) ''/''" "ends_with (ep_base_path e) ''/''"
    using endpoint_new_ok[OF assms(1)] by (simp_all add: endpoint_ok_def)
  have b: "bucket \<noteq> []" using bucket_nonempty[OF parts(6)] .
  have v: "before_query (eu_path_and_query v) = before_query (object_path e bucket key style)"
    using with_query_path[OF assms(3)] parts(3) by simp
  show ?thesis
    using canonical_uri_fixed_iff[OF starts_slash_object_path[OF ok(1)], of bucket key style]
      canonical_text_object_path[OF ok(2) b, of key style] object_path_decodes[OF ok(2) b, of key style]
    by (auto simp: v parts(3) before_query_plain canonical_text_no_question)
qed

theorem signed_path_is_wire_path_witness:
  "canonical_text (ep_base_path example_endpoint) \<and>
   canonical_uri_from_encoded (before_query (eu_path_and_query example_target)) = Inr (eu_path_and_query example_target) \<and>
   decode_loop (eu_path_and_query example_target) = Some ''/b/a b''"
proof -
  have k: "canonical_text (ep_base_path example_endpoint)" by (simp add: example_endpoint_def)
  have q: "with_query example_uri_ext [] example_target = Inr example_target" by code_simp
  have b: "decode_loop (ep_base_path example_endpoint) = Some ''/''" by (simp add: example_endpoint_def)
  have n: "named_path [] ''b'' (Some ''a b'') Path = ''/b/a b''" by (simp add: named_path_def)
  show ?thesis
    using signed_path_is_wire_path[OF example_endpoint_new example_object_url q] k b n by fastforce
qed

end
