(* ===== verification/Retry.thy ===== *)
theory Retry
  imports S3_Error
begin

text \<open>
  The retry policy of \<open>src/retry/mod.rs\<close> and the client-wide retry quota of
  \<open>src/client/mod.rs\<close>. Attempt counts and tokens are 32-bit words. The jitter source is the
  third-party function \<open>fastrand::u64(0..=n)\<close>: a parameter \<open>rng\<close> whose documented behaviour, a
  value of the range, is the hypothesis \<open>rng_in_range\<close>. The quota is an atomic counter: each
  \<open>fetch_update\<close> is one step, and the interleavings of the clients that share it are the
  inductive relation \<open>quota_step\<close>.
\<close>

section \<open>The policy\<close>

record retry_policy =
  max_attempts :: u32
  base_delay :: duration
  max_delay :: duration
  max_elapsed :: duration

definition standard_policy :: retry_policy where
  "standard_policy = \<lparr>max_attempts = 4, base_delay = from_millis 100, max_delay = from_secs 10,
     max_elapsed = from_secs 30\<rparr>"

definition policy_new :: "u32 \<Rightarrow> duration \<Rightarrow> duration \<Rightarrow> duration \<Rightarrow> retry_policy s3_result" where
  "policy_new ma base mx el =
     reject_if (ma = 0) (configuration ''retry max_attempts must be at least one'')
     (reject_if (base = 0) (configuration ''retry base_delay must be greater than zero'')
     (reject_if (mx < base) (configuration ''retry max_delay must not be shorter than base_delay'')
     (reject_if (el = 0) (configuration ''retry max_elapsed must be greater than zero'')
     (Inr \<lparr>max_attempts = ma, base_delay = base, max_delay = mx, max_elapsed = el\<rparr>))))"

definition permits_retry :: "retry_policy \<Rightarrow> retry_classification \<Rightarrow> u32 \<Rightarrow> duration \<Rightarrow> bool" where
  "permits_retry p cls completed elapsed \<longleftrightarrow>
     cls \<noteq> Never \<and> completed < max_attempts p \<and> elapsed < max_elapsed p"

definition delay_ceiling :: "retry_policy \<Rightarrow> retry_classification \<Rightarrow> u32 \<Rightarrow> duration" where
  "delay_ceiling p cls completed =
     (let base = (if cls = Throttled then max (base_delay p) (from_secs 1) else base_delay p);
          exponent = min (unat completed - 1) 31;
          multiplier = 2 ^ exponent
      in min (saturating_mul_duration base multiplier) (max_delay p))"

definition delay_for ::
  "(nat \<Rightarrow> nat) \<Rightarrow> retry_policy \<Rightarrow> retry_classification \<Rightarrow> u32 \<Rightarrow> duration \<Rightarrow> duration option
     \<Rightarrow> duration option" where
  "delay_for rng p cls completed elapsed retry_after =
     (if completed = 0 \<or> max_attempts p \<le> completed \<or> max_elapsed p \<le> elapsed \<or> cls = Never
      then None
      else
        let remaining = max_elapsed p - elapsed in
        case retry_after of
          Some d \<Rightarrow> if d \<le> remaining then Some d else None
        | None \<Rightarrow>
            let ceiling = min (delay_ceiling p cls completed) remaining;
                ceiling_nanos = (if ceiling \<le> U64_MAX then ceiling else U64_MAX)
            in Some (rng ceiling_nanos))"

definition delay :: "(nat \<Rightarrow> nat) \<Rightarrow> retry_policy \<Rightarrow> u32 \<Rightarrow> duration \<Rightarrow> duration option
     \<Rightarrow> duration option" where
  "delay rng p completed elapsed retry_after = delay_for rng p Retryable completed elapsed retry_after"

text \<open>What \<open>fastrand::u64\<close> documents of an inclusive range starting at zero.\<close>

definition rng_in_range :: "(nat \<Rightarrow> nat) \<Rightarrow> bool" where
  "rng_in_range rng \<longleftrightarrow> (\<forall>n. rng n \<le> n)"

text \<open>The bounds every policy that can be constructed satisfies.\<close>

definition valid_policy :: "retry_policy \<Rightarrow> bool" where
  "valid_policy p \<longleftrightarrow>
     max_attempts p \<noteq> 0 \<and> base_delay p \<noteq> 0 \<and> base_delay p \<le> max_delay p \<and> max_elapsed p \<noteq> 0"

lemma rng_in_rangeD: "rng_in_range rng \<Longrightarrow> rng n \<le> n"
  by (simp add: rng_in_range_def)

lemma policy_new_Inr_iff:
  "policy_new ma base mx el = Inr p \<longleftrightarrow>
     p = \<lparr>max_attempts = ma, base_delay = base, max_delay = mx, max_elapsed = el\<rparr> \<and> valid_policy p"
  by (auto simp: policy_new_def valid_policy_def)

lemma valid_standard_policy: "valid_policy standard_policy"
  by (simp add: valid_policy_def standard_policy_def from_millis_def from_secs_def)

text \<open>The saturated doubling shared by both bases.\<close>

definition backoff :: "duration \<Rightarrow> duration \<Rightarrow> nat \<Rightarrow> duration" where
  "backoff mx base n = min (saturating_mul_duration base (2 ^ min (n - 1) 31)) mx"

lemma delay_ceiling_backoff:
  "delay_ceiling p cls n =
     backoff (max_delay p)
       (if cls = Throttled then max (base_delay p) (from_secs 1) else base_delay p) (unat n)"
  by (simp add: delay_ceiling_def backoff_def Let_def)

lemma backoff_mono:
  assumes "b \<le> c" and "m \<le> n"
  shows "backoff mx b m \<le> backoff mx c n"
proof -
  have "(2::nat) ^ min (m - 1) 31 \<le> 2 ^ min (n - 1) 31"
    using assms(2) by (intro power_increasing) auto
  with assms(1) have "b * 2 ^ min (m - 1) 31 \<le> c * 2 ^ min (n - 1) 31"
    by (rule mult_le_mono)
  then show ?thesis by (auto simp: backoff_def saturating_mul_duration_def min_def)
qed

lemma delay_ceiling_mono: "m \<le> n \<Longrightarrow> delay_ceiling p cls m \<le> delay_ceiling p cls n"
  by (simp add: delay_ceiling_backoff backoff_mono word_le_nat_alt)

lemma delay_ceiling_throttled: "delay_ceiling p cls n \<le> delay_ceiling p Throttled n"
  by (simp add: delay_ceiling_backoff backoff_mono)

lemma delay_ceiling_unsaturated:
  assumes "cls \<noteq> Throttled \<and> 1 \<le> unat n \<and> unat n \<le> 32 \<and>
    base_delay p * 2 ^ (unat n - 1) \<le> max_delay p \<and> max_delay p \<le> DURATION_MAX"
  shows "delay_ceiling p cls n = base_delay p * 2 ^ (unat n - 1)"
proof -
  from assms have "unat n \<le> 32" by blast
  then have "min (unat n - 1) 31 = unat n - 1" by linarith
  with assms show ?thesis
    by (simp add: delay_ceiling_backoff backoff_def saturating_mul_duration_def)
qed

lemma delay_ceiling_le_max: "delay_ceiling p cls n \<le> max_delay p"
  by (simp add: delay_ceiling_def Let_def)

lemma delay_ceiling_pos: "valid_policy p \<Longrightarrow> 0 < delay_ceiling p cls n"
  by (auto simp: delay_ceiling_def Let_def valid_policy_def saturating_mul_duration_def
      DURATION_MAX_def from_secs_def)

lemma delay_for_guard:
  "delay_for rng p cls n el ra \<noteq> None \<Longrightarrow> permits_retry p cls n el \<and> n \<noteq> 0"
  by (auto simp: delay_for_def permits_retry_def not_le split: if_splits)

lemma delay_for_without_hint:
  assumes "permits_retry p cls n el" and "n \<noteq> 0"
  shows "delay_for rng p cls n el None =
     Some (rng (min (min (delay_ceiling p cls n) (max_elapsed p - el)) U64_MAX))"
  using assms by (auto simp: delay_for_def permits_retry_def Let_def not_le min_def)

lemma delay_for_with_hint:
  assumes "permits_retry p cls n el" and "n \<noteq> 0"
  shows "delay_for rng p cls n el (Some d) = (if d \<le> max_elapsed p - el then Some d else None)"
  using assms by (auto simp: delay_for_def permits_retry_def Let_def not_le)

text \<open>
  A delay keeps the next attempt inside the elapsed-time bound, and a delay the
  client chose itself is at most the policy's maximum delay: whatever the jitter source returns
  from its range, for every classification and attempt count.
\<close>

lemma delay_for_bounded:
  assumes "rng_in_range rng" and "delay_for rng p cls n el ra = Some d"
  shows "el + d \<le> max_elapsed p \<and> (ra = None \<longrightarrow> d \<le> delay_ceiling p cls n \<and> d \<le> max_delay p)"
proof -
  have g: "permits_retry p cls n el \<and> n \<noteq> 0"
    using assms(2) delay_for_guard[of rng p cls n el ra] by simp
  then have el: "el < max_elapsed p" by (simp add: permits_retry_def)
  show ?thesis
  proof (cases ra)
    case None
    define c where "c = min (min (delay_ceiling p cls n) (max_elapsed p - el)) U64_MAX"
    from g assms(2) None have "d = rng c" by (simp add: delay_for_without_hint c_def)
    with assms(1) have "d \<le> c" by (simp add: rng_in_rangeD)
    then have "d \<le> delay_ceiling p cls n" and "d \<le> max_elapsed p - el"
      by (simp_all add: c_def)
    with el delay_ceiling_le_max[of p cls n] show ?thesis by auto
  next
    case (Some h)
    with g assms(2) el show ?thesis by (auto simp: delay_for_with_hint split: if_splits)
  qed
qed

lemma delay_for_bounded_witness:
  "rng_in_range (\<lambda>n. n div 2) \<and>
   delay_for (\<lambda>n. n div 2) standard_policy Throttled 2 (from_secs 29) None = Some (from_millis 500) \<and>
   from_secs 29 + from_millis 500 \<le> max_elapsed standard_policy"
proof -
  have r: "rng_in_range (\<lambda>n. n div 2)" by (simp add: rng_in_range_def)
  have d: "delay_for (\<lambda>n. n div 2) standard_policy Throttled 2 (from_secs 29) None
      = Some (from_millis 500)"
    by (simp add: delay_for_def standard_policy_def delay_ceiling_def saturating_mul_duration_def
        DURATION_MAX_def from_secs_def from_millis_def Let_def)
  from delay_for_bounded[OF r d] r d show ?thesis by simp
qed

lemma delay_for_None: "\<not> permits_retry p cls n el \<Longrightarrow> delay_for rng p cls n el ra = None"
  using delay_for_guard[of rng p cls n el ra] by (cases "delay_for rng p cls n el ra") auto

text \<open>
  A retry is scheduled exactly when the policy permits one: after at least one
  attempt, a delay is produced if and only if the classification, attempt and elapsed bounds
  allow another attempt and a server-provided \<open>Retry-After\<close>, if any, fits in the remaining time;
  the hint is then honoured exactly.
\<close>

lemma delay_for_iff_permitted:
  assumes "n \<noteq> 0"
  shows "(delay_for rng p cls n el (Some h) = Some d \<longleftrightarrow>
           permits_retry p cls n el \<and> h \<le> max_elapsed p - el \<and> d = h) \<and>
         ((\<exists>d. delay_for rng p cls n el None = Some d) \<longleftrightarrow> permits_retry p cls n el)"
  using assms
  by (cases "permits_retry p cls n el")
     (auto simp: delay_for_with_hint delay_for_without_hint delay_for_None)

lemma delay_for_iff_permitted_witness:
  "(1::u32) \<noteq> 0 \<and>
   delay_for (\<lambda>n. 0) standard_policy Retryable 1 (from_secs 1) (Some (from_secs 9)) = Some (from_secs 9) \<and>
   permits_retry standard_policy Retryable 1 (from_secs 1)"
proof -
  have n: "(1::u32) \<noteq> 0" by simp
  have p: "permits_retry standard_policy Retryable 1 (from_secs 1)"
    by (simp add: permits_retry_def standard_policy_def from_secs_def)
  have h: "from_secs 9 \<le> max_elapsed standard_policy - from_secs 1"
    by (simp add: standard_policy_def from_secs_def)
  from delay_for_iff_permitted[OF n, of "\<lambda>n. 0" standard_policy Retryable "from_secs 1" "from_secs 9"] n p h
  show ?thesis by blast
qed

text \<open>
  The backoff ceiling is exponential and saturating: it never decreases with the
  number of completed attempts, it is at most the maximum delay, throttling never lowers it, and
  while no bound is reached it is the base delay doubled once per completed attempt after the
  first.
\<close>

lemma delay_ceiling_exponential:
  assumes "m \<le> n"
  shows "delay_ceiling p cls m \<le> delay_ceiling p cls n \<and>
    delay_ceiling p cls n \<le> max_delay p \<and>
    delay_ceiling p cls n \<le> delay_ceiling p Throttled n \<and>
    (cls \<noteq> Throttled \<and> 1 \<le> unat n \<and> unat n \<le> 32 \<and>
       base_delay p * 2 ^ (unat n - 1) \<le> max_delay p \<and> max_delay p \<le> DURATION_MAX \<longrightarrow>
     delay_ceiling p cls n = base_delay p * 2 ^ (unat n - 1))"
  using delay_ceiling_mono[OF assms] delay_ceiling_le_max delay_ceiling_throttled
    delay_ceiling_unsaturated by blast

lemma delay_ceiling_exponential_witness:
  "(2::u32) \<le> 3 \<and>
   delay_ceiling standard_policy Retryable 2 \<le> delay_ceiling standard_policy Retryable 3 \<and>
   delay_ceiling standard_policy Retryable 3 = base_delay standard_policy * 2 ^ (unat (3::u32) - 1)"
proof -
  have le: "(2::u32) \<le> 3" by simp
  have b: "base_delay standard_policy * 2 ^ (unat (3::u32) - 1) \<le> max_delay standard_policy"
    "max_delay standard_policy \<le> DURATION_MAX"
    by (simp_all add: standard_policy_def from_millis_def from_secs_def DURATION_MAX_def)
  from delay_ceiling_exponential[OF le, of standard_policy Retryable] le b
  show ?thesis by simp
qed

section \<open>The retry quota\<close>

definition RETRY_QUOTA_CAPACITY :: u32 where "RETRY_QUOTA_CAPACITY = 500"
definition TRANSIENT_RETRY_COST :: u32 where "TRANSIENT_RETRY_COST = 14"
definition THROTTLING_RETRY_COST :: u32 where "THROTTLING_RETRY_COST = 5"

record retry_quota =
  tokens :: u32

record retry_permit =
  cost :: u32
  committed :: bool

definition quota_new :: retry_quota where
  "quota_new = \<lparr>tokens = RETRY_QUOTA_CAPACITY\<rparr>"

definition retry_cost :: "retry_classification \<Rightarrow> u32 option" where
  "retry_cost cls = (case cls of
     Throttled \<Rightarrow> Some THROTTLING_RETRY_COST
   | Retryable \<Rightarrow> Some TRANSIENT_RETRY_COST
   | Never \<Rightarrow> None)"

definition acquire :: "retry_classification \<Rightarrow> retry_quota \<Rightarrow> retry_quota \<times> retry_permit option" where
  "acquire cls q = (case retry_cost cls of
     None \<Rightarrow> (q, None)
   | Some c \<Rightarrow>
       if c \<le> tokens q
       then (q\<lparr>tokens := tokens q - c\<rparr>, Some \<lparr>cost = c, committed = False\<rparr>)
       else (q, None))"

definition replenish_after_success :: "u32 option \<Rightarrow> retry_quota \<Rightarrow> retry_quota" where
  "replenish_after_success last_cost q =
     (let restored = (case last_cost of None \<Rightarrow> 1 | Some c \<Rightarrow> c)
      in q\<lparr>tokens := min (saturating_add (tokens q) restored) RETRY_QUOTA_CAPACITY\<rparr>)"

text \<open>\<open>commit\<close> consumes the permit and returns its cost; its drop then restores nothing.\<close>

definition commit :: "retry_permit \<Rightarrow> retry_permit \<times> u32" where
  "commit p = (p\<lparr>committed := True\<rparr>, cost p)"

definition drop_permit :: "retry_permit \<Rightarrow> retry_quota \<Rightarrow> retry_quota" where
  "drop_permit p q = (if committed p then q else replenish_after_success (Some (cost p)) q)"

definition quota_ok :: "retry_quota \<Rightarrow> bool" where
  "quota_ok q \<longleftrightarrow> tokens q \<le> RETRY_QUOTA_CAPACITY"

subsection \<open>A token budget as an interface\<close>

text \<open>
  What the request loop relies on: taking a cost either fails and changes nothing or removes
  exactly the cost, and giving back never exceeds the capacity.
\<close>

locale token_budget =
  fixes level :: "'q \<Rightarrow> nat"
    and capacity :: nat
    and take_cost :: "nat \<Rightarrow> 'q \<Rightarrow> 'q option"
    and give_back :: "nat \<Rightarrow> 'q \<Rightarrow> 'q"
    and invar :: "'q \<Rightarrow> bool"
  assumes level_invar: "invar q \<Longrightarrow> level q \<le> capacity"
    and take_Some: "invar q \<Longrightarrow> take_cost n q = Some q' \<Longrightarrow> n \<le> level q \<and> level q' = level q - n \<and> invar q'"
    and take_None: "invar q \<Longrightarrow> take_cost n q = None \<longleftrightarrow> level q < n"
    and give_level: "invar q \<Longrightarrow> level (give_back n q) = min (level q + n) capacity"
    and give_invar: "invar q \<Longrightarrow> invar (give_back n q)"
begin

lemma take_give_level:
  assumes "invar q" and "take_cost n q = Some q'"
  shows "level (give_back n q') = level q"
  using take_Some[OF assms] level_invar[OF assms(1)] by (auto simp: give_level)

text \<open>A run takes and gives back in any order; \<open>None\<close> when a taking is refused.\<close>

fun run :: "(nat + nat) list \<Rightarrow> 'q \<Rightarrow> 'q option" where
  "run [] q = Some q"
| "run (Inl n # es) q = (case take_cost n q of None \<Rightarrow> None | Some q' \<Rightarrow> run es q')"
| "run (Inr n # es) q = run es (give_back n q)"

fun taken :: "(nat + nat) list \<Rightarrow> nat" where
  "taken [] = 0"
| "taken (Inl n # es) = n + taken es"
| "taken (Inr n # es) = taken es"

fun given :: "(nat + nat) list \<Rightarrow> nat" where
  "given [] = 0"
| "given (Inl n # es) = given es"
| "given (Inr n # es) = n + given es"

lemma run_budget: "invar q \<Longrightarrow> run es q = Some q' \<Longrightarrow> level q' + taken es \<le> level q + given es \<and> invar q'"
proof (induction es q rule: run.induct)
  case (2 n es q)
  then obtain r where r: "take_cost n q = Some r" by (auto split: option.splits)
  with 2 have "level q' + taken es \<le> level r + given es" and "invar q'"
    by (auto dest: take_Some)
  with take_Some[OF "2.prems"(1) r] show ?case by (simp, linarith)
next
  case (3 n es q)
  then have "level q' + taken es \<le> level (give_back n q) + given es" and "invar q'"
    by (auto simp: give_invar)
  with "3.prems"(1) show ?case by (simp add: give_level)
qed simp

end

definition quota_take :: "nat \<Rightarrow> retry_quota \<Rightarrow> retry_quota option" where
  "quota_take n q = (if n \<le> unat (tokens q) then Some (q\<lparr>tokens := tokens q - of_nat n\<rparr>) else None)"

definition quota_give :: "nat \<Rightarrow> retry_quota \<Rightarrow> retry_quota" where
  "quota_give n q = replenish_after_success (Some (of_nat (min n 500))) q"

lemma unat_capacity [simp]: "unat RETRY_QUOTA_CAPACITY = 500"
  by (simp add: RETRY_QUOTA_CAPACITY_def)

lemma unat_min_word: "unat (min a b) = min (unat a) (unat b)"
  by (simp add: min_def word_le_nat_alt)

lemma replenish_tokens:
  "unat (tokens (replenish_after_success (Some c) q)) =
     min (min (unat (tokens q) + unat c) (2 ^ 32 - 1)) 500"
  "unat (tokens (replenish_after_success None q)) =
     min (min (unat (tokens q) + 1) (2 ^ 32 - 1)) 500"
  by (simp_all add: replenish_after_success_def unat_min_word unat_saturating_add)

interpretation quota: token_budget "\<lambda>q. unat (tokens q)" 500 quota_take quota_give quota_ok
proof unfold_locales
  fix q q' :: retry_quota and n
  assume ok: "quota_ok q"
  then have le: "unat (tokens q) \<le> 500"
    by (simp add: quota_ok_def word_le_nat_alt)
  then show "unat (tokens q) \<le> 500" .
  show "quota_take n q = None \<longleftrightarrow> unat (tokens q) < n"
    by (simp add: quota_take_def not_le)
  show "unat (tokens (quota_give n q)) = min (unat (tokens q) + n) 500"
    using le by (simp add: quota_give_def replenish_tokens unat_of_nat min_def)
  show "quota_ok (quota_give n q)"
    by (simp add: quota_give_def quota_ok_def word_le_nat_alt replenish_tokens)
  assume "quota_take n q = Some q'"
  then have n: "n \<le> unat (tokens q)" and q': "q' = q\<lparr>tokens := tokens q - of_nat n\<rparr>"
    by (auto simp: quota_take_def split: if_splits)
  have u: "unat (of_nat n :: u32) = n"
    using n le by (simp add: unat_of_nat)
  then have "(of_nat n :: u32) \<le> tokens q" using n by (simp add: word_le_nat_alt)
  then have "unat (tokens q - of_nat n) = unat (tokens q) - n"
    using u by (simp add: unat_sub)
  with n le q' show "n \<le> unat (tokens q) \<and> unat (tokens q') = unat (tokens q) - n \<and> quota_ok q'"
    by (simp add: quota_ok_def word_le_nat_alt)
qed

subsection \<open>The operations on the shared counter\<close>

lemma retry_cost_le: "retry_cost cls = Some c \<Longrightarrow> unat c \<le> 14 \<and> 5 \<le> unat c"
  by (cases cls) (auto simp: retry_cost_def THROTTLING_RETRY_COST_def TRANSIENT_RETRY_COST_def)

lemma acquire_Some:
  assumes "acquire cls q = (q', Some p)"
  shows "\<exists>c. retry_cost cls = Some c \<and> cost p = c \<and> \<not> committed p \<and> quota_take (unat c) q = Some q'"
  using assms
  by (auto simp: acquire_def quota_take_def word_le_nat_alt split: option.splits if_splits)

lemma acquire_None:
  assumes "acquire cls q = (q', None)"
  shows "q' = q \<and> (\<forall>c. retry_cost cls = Some c \<longrightarrow> unat (tokens q) < unat c)"
  using assms
  by (auto simp: acquire_def word_le_nat_alt not_le split: option.splits if_splits)

lemma replenish_give: "unat c \<le> 500 \<Longrightarrow> replenish_after_success (Some c) q = quota_give (unat c) q"
  by (simp add: quota_give_def)

lemma replenish_None_give: "replenish_after_success None q = quota_give 1 q"
  by (simp add: quota_give_def replenish_after_success_def)

text \<open>
  A retry permit that is not used gives its tokens back: acquiring one and dropping
  it without a commit leaves the quota as it was, and committing it charges exactly the cost of
  its classification, 14 tokens for a transient failure and 5 for throttling.
\<close>

lemma permit_charges_once:
  assumes "quota_ok q" and "acquire cls q = (q', Some p)"
  shows "drop_permit p q' = q \<and>
         (case commit p of (p', c) \<Rightarrow> drop_permit p' q' = q' \<and>
            unat (tokens q') + unat c = unat (tokens q) \<and>
            (cls = Retryable \<longrightarrow> c = 14) \<and> (cls = Throttled \<longrightarrow> c = 5))"
proof -
  from acquire_Some[OF assms(2)] obtain c where c: "retry_cost cls = Some c" "cost p = c"
    "\<not> committed p" "quota_take (unat c) q = Some q'" by blast
  note t = quota.take_Some[OF assms(1) c(4)]
  have "unat (tokens (drop_permit p q')) = unat (tokens q)"
    using quota.take_give_level[OF assms(1) c(4)] c retry_cost_le[OF c(1)]
    by (simp add: drop_permit_def replenish_give)
  then have "tokens (drop_permit p q') = tokens q" by (rule unsigned_word_eqI)
  then have "drop_permit p q' = q" by (intro retry_quota.equality) simp_all
  moreover have "(cls = Retryable \<longrightarrow> c = 14) \<and> (cls = Throttled \<longrightarrow> c = 5)"
    using c(1) by (auto simp: retry_cost_def THROTTLING_RETRY_COST_def TRANSIENT_RETRY_COST_def)
  ultimately show ?thesis using t c by (simp add: commit_def drop_permit_def)
qed

lemma permit_charges_once_witness:
  "quota_ok quota_new \<and>
   acquire Throttled quota_new = (\<lparr>tokens = 495\<rparr>, Some \<lparr>cost = 5, committed = False\<rparr>) \<and>
   drop_permit \<lparr>cost = 5, committed = False\<rparr> \<lparr>tokens = 495\<rparr> = quota_new"
proof -
  have q: "quota_ok quota_new" by (simp add: quota_ok_def quota_new_def)
  have a: "acquire Throttled quota_new = (\<lparr>tokens = 495\<rparr>, Some \<lparr>cost = 5, committed = False\<rparr>)"
    by (simp add: acquire_def retry_cost_def quota_new_def THROTTLING_RETRY_COST_def
        RETRY_QUOTA_CAPACITY_def)
  from permit_charges_once[OF q a] q a show ?thesis by blast
qed

subsection \<open>Clients sharing one quota\<close>

text \<open>
  The state of every client that shares the quota: the counter, the permits acquired and neither
  committed nor dropped, and, as history, the tokens spent on committed retries and the tokens
  successes asked to restore.
\<close>

record quota_system =
  pool :: retry_quota
  held :: "retry_permit list"
  spent :: nat
  regained :: nat

definition quota_init :: quota_system where
  "quota_init = \<lparr>pool = quota_new, held = [], spent = 0, regained = 0\<rparr>"

inductive quota_step :: "quota_system \<Rightarrow> quota_system \<Rightarrow> bool" where
  qs_acquire: "acquire cls (pool s) = (q, Some p) \<Longrightarrow>
     quota_step s (s\<lparr>pool := q, held := p # held s\<rparr>)"
| qs_refuse: "acquire cls (pool s) = (q, None) \<Longrightarrow> quota_step s (s\<lparr>pool := q\<rparr>)"
| qs_commit: "p \<in> set (held s) \<Longrightarrow> commit p = (p', c) \<Longrightarrow>
     quota_step s (s\<lparr>pool := drop_permit p' (pool s), held := remove1 p (held s),
       spent := spent s + unat c\<rparr>)"
| qs_drop: "p \<in> set (held s) \<Longrightarrow>
     quota_step s (s\<lparr>pool := drop_permit p (pool s), held := remove1 p (held s)\<rparr>)"
| qs_success_first: "quota_step s (s\<lparr>pool := replenish_after_success None (pool s),
       regained := regained s + 1\<rparr>)"
| qs_success_retry: "retry_cost cls = Some c \<Longrightarrow>
     quota_step s (s\<lparr>pool := replenish_after_success (Some c) (pool s),
       regained := regained s + unat c\<rparr>)"

inductive quota_reachable :: "quota_system \<Rightarrow> bool" where
  qr_init: "quota_reachable quota_init"
| qr_step: "quota_reachable s \<Longrightarrow> quota_step s t \<Longrightarrow> quota_reachable t"

definition held_cost :: "quota_system \<Rightarrow> nat" where
  "held_cost s = sum_list (map (\<lambda>p. unat (cost p)) (held s))"

definition quota_inv :: "quota_system \<Rightarrow> bool" where
  "quota_inv s \<longleftrightarrow> quota_ok (pool s) \<and>
     (\<forall>p \<in> set (held s). \<not> committed p \<and> unat (cost p) \<le> 14) \<and>
     unat (tokens (pool s)) + held_cost s + spent s \<le> 500 + regained s"

lemma sum_list_remove1:
  "x \<in> set xs \<Longrightarrow> sum_list (map f xs) = f x + sum_list (map f (remove1 x xs))"
  for f :: "'a \<Rightarrow> nat"
  by (induction xs) auto

lemma quota_step_inv: "quota_step s t \<Longrightarrow> quota_inv s \<Longrightarrow> quota_inv t"
proof (induction rule: quota_step.induct)
  case (qs_acquire cls s q p)
  from acquire_Some[OF qs_acquire(1)] obtain c where c: "retry_cost cls = Some c" "cost p = c"
    "\<not> committed p" "quota_take (unat c) (pool s) = Some q" by blast
  have ok: "quota_ok (pool s)" using qs_acquire(2) by (simp add: quota_inv_def)
  from quota.take_Some[OF ok c(4)] retry_cost_le[OF c(1)] c qs_acquire(2)
  show ?case by (auto simp: quota_inv_def held_cost_def)
next
  case (qs_refuse cls s q)
  then show ?case by (auto dest!: acquire_None simp: quota_inv_def held_cost_def)
next
  case (qs_commit p s p' c)
  then show ?case
    using sum_list_remove1[OF qs_commit(1), of "\<lambda>p. unat (cost p)"]
    by (auto simp: quota_inv_def held_cost_def commit_def drop_permit_def dest: notin_set_remove1)
next
  case (qs_drop p s)
  then have p: "\<not> committed p" "unat (cost p) \<le> 14" and ok: "quota_ok (pool s)"
    by (auto simp: quota_inv_def)
  then have d: "drop_permit p (pool s) = quota_give (unat (cost p)) (pool s)"
    by (simp add: drop_permit_def replenish_give)
  show ?case
    using qs_drop sum_list_remove1[OF qs_drop(1), of "\<lambda>p. unat (cost p)"]
      quota.give_level[OF ok, of "unat (cost p)"] quota.give_invar[OF ok]
    by (auto simp: quota_inv_def held_cost_def d dest: notin_set_remove1)
next
  case (qs_success_first s)
  then have ok: "quota_ok (pool s)" by (simp add: quota_inv_def)
  with qs_success_first quota.give_level[OF ok, of 1] quota.give_invar[OF ok] show ?case
    by (auto simp: quota_inv_def held_cost_def replenish_None_give)
next
  case (qs_success_retry cls c s)
  then have ok: "quota_ok (pool s)" by (simp add: quota_inv_def)
  have "replenish_after_success (Some c) (pool s) = quota_give (unat c) (pool s)"
    using retry_cost_le[OF qs_success_retry(1)] by (simp add: replenish_give)
  with qs_success_retry quota.give_level[OF ok, of "unat c"] quota.give_invar[OF ok] show ?case
    by (auto simp: quota_inv_def held_cost_def)
qed

lemma quota_reachable_inv: "quota_reachable s \<Longrightarrow> quota_inv s"
proof (induction rule: quota_reachable.induct)
  case qr_init
  show ?case
    by (simp add: quota_inv_def quota_init_def quota_new_def quota_ok_def held_cost_def)
next
  case (qr_step s t)
  then show ?case by (blast intro: quota_step_inv)
qed

text \<open>
  Property C17. The shared quota bounds retries under every interleaving of the clients that share
  it: the counter never exceeds its capacity of 500 tokens, and the tokens left, held by pending
  permits and spent on committed retries never exceed the capacity plus what successes restored.
  In particular, without any success at most 35 retries of transient failures are committed.
\<close>

theorem quota_bounds_retries:
  assumes "quota_reachable s"
  shows "tokens (pool s) \<le> RETRY_QUOTA_CAPACITY \<and>
         unat (tokens (pool s)) + held_cost s + spent s \<le> 500 + regained s \<and>
         (regained s = 0 \<longrightarrow> spent s div unat TRANSIENT_RETRY_COST \<le> 35)"
proof -
  from quota_reachable_inv[OF assms] have i: "quota_inv s" .
  then have "regained s = 0 \<Longrightarrow> spent s \<le> 500" by (simp add: quota_inv_def)
  then have "regained s = 0 \<Longrightarrow> spent s div 14 \<le> 500 div 14" by (intro div_le_mono) simp
  with i show ?thesis by (auto simp: quota_inv_def quota_ok_def TRANSIENT_RETRY_COST_def)
qed

theorem quota_bounds_retries_witness:
  "quota_reachable (quota_init\<lparr>pool := \<lparr>tokens = 486\<rparr>, held := [\<lparr>cost = 14, committed = False\<rparr>]\<rparr>) \<and>
   held_cost (quota_init\<lparr>pool := \<lparr>tokens = 486\<rparr>, held := [\<lparr>cost = 14, committed = False\<rparr>]\<rparr>) + 486 \<le> 500"
proof -
  let ?s = "quota_init\<lparr>pool := \<lparr>tokens = 486\<rparr>, held := [\<lparr>cost = 14, committed = False\<rparr>]\<rparr>"
  have a: "acquire Retryable (pool quota_init) =
      (\<lparr>tokens = 486\<rparr>, Some \<lparr>cost = 14, committed = False\<rparr>)"
    by (simp add: acquire_def retry_cost_def quota_init_def quota_new_def TRANSIENT_RETRY_COST_def
        RETRY_QUOTA_CAPACITY_def)
  have "quota_step quota_init ?s"
    using quota_step.qs_acquire[OF a] by (simp add: quota_init_def)
  then have r: "quota_reachable ?s" by (rule qr_step[OF qr_init])
  from quota_bounds_retries[OF r] r show ?thesis by (simp add: quota_init_def)
qed

end
