(* ===== verification/Client_Config.thy ===== *)
theory Client_Config
  imports Endpoint Retry
begin

text \<open>
  Client configuration, \<open>src/config/mod.rs\<close>, with the part of \<open>src/client/mod.rs\<close> that builds a client,
  derives a client for another bucket and forms operation targets, the transport of \<open>src/transport/mod.rs\<close> as it is configured, and the request observer of
  \<open>src/observer.rs\<close>. The credential provider and the observer are application objects: type parameters.
  Whether a text is a valid header value and whether the clock can represent a deadline are parameters.
\<close>

record ('p, 'o) s3_config =
  cfg_endpoint :: endpoint
  cfg_region :: string
  cfg_bucket :: string
  cfg_addressing_style :: addressing_style
  cfg_connect_timeout :: duration
  cfg_attempt_timeout :: duration
  cfg_operation_timeout :: duration
  cfg_idle_body_timeout :: duration
  cfg_max_xml_response_size :: nat
  cfg_max_error_response_size :: nat
  cfg_retry_policy :: retry_policy
  cfg_user_agent :: string
  cfg_credentials_provider :: 'p
  cfg_observer :: "'o option"

record ('p, 'o) s3_config_builder =
  b_endpoint :: endpoint
  b_region :: string
  b_bucket :: "string option"
  b_addressing_style :: addressing_style
  b_allow_http :: bool
  b_connect_timeout :: duration
  b_attempt_timeout :: duration
  b_operation_timeout :: duration
  b_idle_body_timeout :: duration
  b_max_xml_response_size :: nat
  b_max_error_response_size :: nat
  b_retry_policy :: retry_policy
  b_user_agent :: string
  b_credentials_provider :: 'p
  b_observer :: "'o option"

text \<open>The default builder; the endpoint constant and the package version come from the caller.\<close>

definition default_builder :: "endpoint \<Rightarrow> string \<Rightarrow> 'p \<Rightarrow> ('p, 'o) s3_config_builder" where
  "default_builder aws version provider = \<lparr>b_endpoint = aws, b_region = ''us-east-1'', b_bucket = None,
     b_addressing_style = Path, b_allow_http = False, b_connect_timeout = from_secs 10,
     b_attempt_timeout = from_secs 30, b_operation_timeout = from_secs 300,
     b_idle_body_timeout = from_secs 30, b_max_xml_response_size = 1024 * 1024,
     b_max_error_response_size = 64 * 1024, b_retry_policy = standard_policy,
     b_user_agent = ''s3-wire/'' @ version, b_credentials_provider = provider, b_observer = None\<rparr>"

text \<open>The setters of the builder.\<close>

definition builder_endpoint :: "endpoint \<Rightarrow> ('p, 'o) s3_config_builder \<Rightarrow> ('p, 'o) s3_config_builder" where
  "builder_endpoint x b = b\<lparr>b_endpoint := x\<rparr>"

definition builder_region :: "string \<Rightarrow> ('p, 'o) s3_config_builder \<Rightarrow> ('p, 'o) s3_config_builder" where
  "builder_region x b = b\<lparr>b_region := x\<rparr>"

definition builder_bucket :: "string \<Rightarrow> ('p, 'o) s3_config_builder \<Rightarrow> ('p, 'o) s3_config_builder" where
  "builder_bucket x b = b\<lparr>b_bucket := Some x\<rparr>"

definition builder_addressing_style :: "addressing_style \<Rightarrow> ('p, 'o) s3_config_builder \<Rightarrow> ('p, 'o) s3_config_builder" where
  "builder_addressing_style x b = b\<lparr>b_addressing_style := x\<rparr>"

definition allow_http_for_local_testing :: "('p, 'o) s3_config_builder \<Rightarrow> ('p, 'o) s3_config_builder" where
  "allow_http_for_local_testing b = b\<lparr>b_allow_http := True\<rparr>"

definition builder_connect_timeout :: "duration \<Rightarrow> ('p, 'o) s3_config_builder \<Rightarrow> ('p, 'o) s3_config_builder" where
  "builder_connect_timeout x b = b\<lparr>b_connect_timeout := x\<rparr>"

definition builder_attempt_timeout :: "duration \<Rightarrow> ('p, 'o) s3_config_builder \<Rightarrow> ('p, 'o) s3_config_builder" where
  "builder_attempt_timeout x b = b\<lparr>b_attempt_timeout := x\<rparr>"

definition builder_operation_timeout :: "duration \<Rightarrow> ('p, 'o) s3_config_builder \<Rightarrow> ('p, 'o) s3_config_builder" where
  "builder_operation_timeout x b = b\<lparr>b_operation_timeout := x\<rparr>"

definition builder_idle_body_timeout :: "duration \<Rightarrow> ('p, 'o) s3_config_builder \<Rightarrow> ('p, 'o) s3_config_builder" where
  "builder_idle_body_timeout x b = b\<lparr>b_idle_body_timeout := x\<rparr>"

definition builder_max_xml_response_size :: "nat \<Rightarrow> ('p, 'o) s3_config_builder \<Rightarrow> ('p, 'o) s3_config_builder" where
  "builder_max_xml_response_size x b = b\<lparr>b_max_xml_response_size := x\<rparr>"

definition builder_max_error_response_size :: "nat \<Rightarrow> ('p, 'o) s3_config_builder \<Rightarrow> ('p, 'o) s3_config_builder" where
  "builder_max_error_response_size x b = b\<lparr>b_max_error_response_size := x\<rparr>"

definition builder_retry_policy :: "retry_policy \<Rightarrow> ('p, 'o) s3_config_builder \<Rightarrow> ('p, 'o) s3_config_builder" where
  "builder_retry_policy x b = b\<lparr>b_retry_policy := x\<rparr>"

definition builder_user_agent :: "string \<Rightarrow> ('p, 'o) s3_config_builder \<Rightarrow> ('p, 'o) s3_config_builder" where
  "builder_user_agent x b = b\<lparr>b_user_agent := x\<rparr>"

definition builder_credentials_provider :: "'p \<Rightarrow> ('p, 'o) s3_config_builder \<Rightarrow> ('p, 'o) s3_config_builder" where
  "builder_credentials_provider x b = b\<lparr>b_credentials_provider := x\<rparr>"

definition builder_observer :: "'o \<Rightarrow> ('p, 'o) s3_config_builder \<Rightarrow> ('p, 'o) s3_config_builder" where
  "builder_observer x b = b\<lparr>b_observer := Some x\<rparr>"

text \<open>A call of one setter, and what it does.\<close>

datatype ('p, 'o) builder_call =
    SetEndpoint endpoint
  | SetRegion string
  | SetBucket string
  | SetAddressingStyle addressing_style
  | SetConnectTimeout duration
  | SetAttemptTimeout duration
  | SetOperationTimeout duration
  | SetIdleBodyTimeout duration
  | SetMaxXmlResponseSize nat
  | SetMaxErrorResponseSize nat
  | SetRetryPolicy retry_policy
  | SetUserAgent string
  | SetCredentialsProvider 'p
  | SetObserver 'o
  | AllowHttp

fun apply_call :: "('p, 'o) builder_call \<Rightarrow> ('p, 'o) s3_config_builder \<Rightarrow> ('p, 'o) s3_config_builder" where
  "apply_call (SetEndpoint x) b = builder_endpoint x b"
| "apply_call (SetRegion x) b = builder_region x b"
| "apply_call (SetBucket x) b = builder_bucket x b"
| "apply_call (SetAddressingStyle x) b = builder_addressing_style x b"
| "apply_call (SetConnectTimeout x) b = builder_connect_timeout x b"
| "apply_call (SetAttemptTimeout x) b = builder_attempt_timeout x b"
| "apply_call (SetOperationTimeout x) b = builder_operation_timeout x b"
| "apply_call (SetIdleBodyTimeout x) b = builder_idle_body_timeout x b"
| "apply_call (SetMaxXmlResponseSize x) b = builder_max_xml_response_size x b"
| "apply_call (SetMaxErrorResponseSize x) b = builder_max_error_response_size x b"
| "apply_call (SetRetryPolicy x) b = builder_retry_policy x b"
| "apply_call (SetUserAgent x) b = builder_user_agent x b"
| "apply_call (SetCredentialsProvider x) b = builder_credentials_provider x b"
| "apply_call (SetObserver x) b = builder_observer x b"
| "apply_call AllowHttp b = allow_http_for_local_testing b"

definition configure :: "('p, 'o) builder_call list \<Rightarrow> ('p, 'o) s3_config_builder \<Rightarrow> ('p, 'o) s3_config_builder" where
  "configure calls b = fold apply_call calls b"

definition validate_nonempty_token :: "string \<Rightarrow> string \<Rightarrow> s3_error + unit" where
  "validate_nonempty_token name v =
     reject_if (v = [] \<or> \<not> list_all (\<lambda>c. is_ascii_alphanumeric c \<or> c = CHR ''-'' \<or> c = CHR ''_'') v)
       (configuration (name @ '' is invalid'')) (Inr ())"

text \<open>The loop over the named timeouts.\<close>

fun check_timeouts :: "(duration \<Rightarrow> bool) \<Rightarrow> (string \<times> duration) list \<Rightarrow> s3_error + unit" where
  "check_timeouts representable [] = Inr ()"
| "check_timeouts representable ((name, t) # ts) =
     reject_if (t = 0) (configuration (name @ '' must be greater than zero''))
     (reject_if (\<not> representable t) (configuration (name @ '' is too large to represent as a deadline''))
     (check_timeouts representable ts))"

record config_ext =
  cx_uri :: uri_ext
  cx_representable :: "duration \<Rightarrow> bool"
  cx_header_value :: "string \<Rightarrow> bool"
  cx_http2 :: bool

definition named_timeouts :: "('p, 'o) s3_config_builder \<Rightarrow> (string \<times> duration) list" where
  "named_timeouts b = [(''connect timeout'', b_connect_timeout b), (''attempt timeout'', b_attempt_timeout b),
     (''operation timeout'', b_operation_timeout b), (''idle body timeout'', b_idle_body_timeout b)]"

definition build :: "config_ext \<Rightarrow> ('p, 'o) s3_config_builder \<Rightarrow> s3_error + ('p, 'o) s3_config" where
  "build C b =
     and_then (ok_or (configuration ''bucket is required'') (b_bucket b)) (\<lambda>bucket.
     reject_if (\<not> is_https (b_endpoint b) \<and> \<not> b_allow_http b)
       (configuration ''plain HTTP requires allow_http_for_local_testing'')
     (and_then (validate_nonempty_token ''region'' (b_region b)) (\<lambda>_.
     reject_if (bucket = []) (configuration ''bucket must not be empty'')
     (and_then (check_timeouts (cx_representable C) (named_timeouts b)) (\<lambda>_.
     reject_if (b_max_xml_response_size b = 0 \<or> b_max_error_response_size b = 0)
       (configuration ''response body limits must be greater than zero'')
     (reject_if (\<not> cx_header_value C (b_user_agent b)) (configuration ''user agent is not a valid HTTP header value'')
     (reject_if (b_user_agent b = []) (configuration ''user agent must not be empty'')
     (and_then (object_url (cx_uri C) (b_endpoint b) bucket None (b_addressing_style b)) (\<lambda>_.
     Inr \<lparr>cfg_endpoint = b_endpoint b, cfg_region = b_region b, cfg_bucket = bucket,
       cfg_addressing_style = b_addressing_style b, cfg_connect_timeout = b_connect_timeout b,
       cfg_attempt_timeout = b_attempt_timeout b, cfg_operation_timeout = b_operation_timeout b,
       cfg_idle_body_timeout = b_idle_body_timeout b, cfg_max_xml_response_size = b_max_xml_response_size b,
       cfg_max_error_response_size = b_max_error_response_size b, cfg_retry_policy = b_retry_policy b,
       cfg_user_agent = b_user_agent b, cfg_credentials_provider = b_credentials_provider b,
       cfg_observer = b_observer b\<rparr>)))))))))"

definition config_for_bucket :: "uri_ext \<Rightarrow> string \<Rightarrow> ('p, 'o) s3_config \<Rightarrow> s3_error + ('p, 'o) s3_config" where
  "config_for_bucket U bucket cfg =
     reject_if (bucket = []) (configuration ''bucket must not be empty'')
     (and_then (object_url U (cfg_endpoint cfg) bucket None (cfg_addressing_style cfg)) (\<lambda>_.
     Inr (cfg\<lparr>cfg_bucket := bucket\<rparr>)))"

section \<open>Clients\<close>

text \<open>
  The transport: the connector as it is configured (what hyper and rustls do with it is outside) with the scheme switch. Whether the
  crate is built with HTTP/2 is a flag of the build.
\<close>

record connector =
  cn_enforce_http :: bool
  cn_connect_timeout :: "duration option"
  cn_nodelay :: bool
  cn_webpki_roots :: bool
  cn_https_only :: bool
  cn_http1 :: bool
  cn_http2 :: bool

record http_transport =
  tr_client :: connector
  tr_user_agent :: string
  tr_allow_http :: bool

definition http_connector :: "duration \<Rightarrow> connector" where
  "http_connector connect_timeout = \<lparr>cn_enforce_http = False, cn_connect_timeout = Some connect_timeout, cn_nodelay = True,
     cn_webpki_roots = False, cn_https_only = False, cn_http1 = False, cn_http2 = False\<rparr>"

definition https_connector :: "bool \<Rightarrow> bool \<Rightarrow> connector \<Rightarrow> connector" where
  "https_connector http2 allow_http http =
     (if allow_http
      then http\<lparr>cn_webpki_roots := True, cn_https_only := False, cn_http1 := True, cn_http2 := http2\<rparr>
      else http\<lparr>cn_webpki_roots := True, cn_https_only := True, cn_http1 := True, cn_http2 := http2\<rparr>)"

definition transport_new :: "config_ext \<Rightarrow> duration \<Rightarrow> string \<Rightarrow> bool \<Rightarrow> s3_error + http_transport" where
  "transport_new C connect_timeout user_agent allow_http =
     reject_if (\<not> cx_header_value C user_agent) (configuration ''user agent is not a valid HTTP header value'')
     (Inr \<lparr>tr_client = https_connector (cx_http2 C) allow_http (http_connector connect_timeout),
       tr_user_agent = user_agent, tr_allow_http = allow_http\<rparr>)"

text \<open>A client's retry quota is shared by reference: it is named by an identifier into the world's quotas.\<close>

record ('p, 'o) client =
  cl_config :: "('p, 'o) s3_config"
  cl_transport :: http_transport
  cl_quota :: nat

abbreviation cl_allow_http :: "('p, 'o) client \<Rightarrow> bool" where
  "cl_allow_http cl \<equiv> tr_allow_http (cl_transport cl)"

definition client_new ::
  "config_ext \<Rightarrow> ('p, 'o) s3_config \<Rightarrow> retry_quota list \<Rightarrow> (s3_error + ('p, 'o) client) \<times> retry_quota list" where
  "client_new C cfg quotas =
     (case transport_new C (cfg_connect_timeout cfg) (cfg_user_agent cfg) (\<not> is_https (cfg_endpoint cfg)) of
        Inl e \<Rightarrow> (Inl e, quotas)
      | Inr tr \<Rightarrow>
          (Inr \<lparr>cl_config = cfg, cl_transport = tr, cl_quota = length quotas\<rparr>, quotas @ [quota_new]))"

definition client_for_bucket :: "uri_ext \<Rightarrow> string \<Rightarrow> ('p, 'o) client \<Rightarrow> s3_error + ('p, 'o) client" where
  "client_for_bucket U bucket cl =
     and_then (config_for_bucket U bucket (cl_config cl)) (\<lambda>cfg. Inr (cl\<lparr>cl_config := cfg\<rparr>))"

definition operation_target :: "uri_ext \<Rightarrow> ('p, 'o) client \<Rightarrow> string option \<Rightarrow> s3_error + endpoint_url" where
  "operation_target U cl key =
     object_url U (cfg_endpoint (cl_config cl)) (cfg_bucket (cl_config cl)) key (cfg_addressing_style (cl_config cl))"

text \<open>The transport's check of the scheme before a request is sent.\<close>

definition transport_refuses :: "('p, 'o) client \<Rightarrow> endpoint_url \<Rightarrow> bool" where
  "transport_refuses cl target \<longleftrightarrow>
     eu_scheme target \<noteq> ''https'' \<and> (\<not> cl_allow_http cl \<or> eu_scheme target \<noteq> ''http'')"

section \<open>The observer\<close>

datatype request_event_kind = AttemptStarted | AttemptSucceeded | AttemptFailed | RetryScheduled | RegionRedirected

record request_event =
  ev_kind :: request_event_kind
  ev_method :: string
  ev_attempt :: u32
  ev_error_category :: "error_category option"
  ev_retry_classification :: "retry_classification option"
  ev_retry_delay :: "duration option"

text \<open>
  Observation appends to what the observer has seen; a panic of the observer is caught, so it never
  changes the result. Without an observer nothing is recorded.
\<close>

definition observe :: "('p, 'o) client \<Rightarrow> request_event \<Rightarrow> request_event list \<Rightarrow> request_event list" where
  "observe cl event trace = (case cfg_observer (cl_config cl) of None \<Rightarrow> trace | Some _ \<Rightarrow> trace @ [event])"

section \<open>What a built configuration guarantees\<close>

definition config_ok :: "config_ext \<Rightarrow> ('p, 'o) s3_config \<Rightarrow> bool" where
  "config_ok C cfg \<longleftrightarrow>
     cfg_bucket cfg \<noteq> [] \<and> cfg_region cfg \<noteq> [] \<and>
     list_all (\<lambda>c. is_ascii_alphanumeric c \<or> c = CHR ''-'' \<or> c = CHR ''_'') (cfg_region cfg) \<and>
     list_all (\<lambda>t. 0 < t \<and> cx_representable C t) [cfg_connect_timeout cfg, cfg_attempt_timeout cfg,
       cfg_operation_timeout cfg, cfg_idle_body_timeout cfg] \<and>
     0 < cfg_max_xml_response_size cfg \<and> 0 < cfg_max_error_response_size cfg \<and>
     cfg_user_agent cfg \<noteq> [] \<and> cx_header_value C (cfg_user_agent cfg) \<and>
     \<not> isl (object_url (cx_uri C) (cfg_endpoint cfg) (cfg_bucket cfg) None (cfg_addressing_style cfg))"

lemma check_timeouts_Inr_iff:
  "check_timeouts representable ts = Inr () \<longleftrightarrow> list_all (\<lambda>(n, t). 0 < t \<and> representable t) ts"
  by (induction representable ts rule: check_timeouts.induct) auto

lemma build_config_ok:
  assumes "build C b = Inr cfg"
  shows "config_ok C cfg" and "is_https (cfg_endpoint cfg) \<or> b_allow_http b"
  using assms
  by (auto simp: build_def config_ok_def check_timeouts_Inr_iff named_timeouts_def validate_nonempty_token_def
      split: if_split_asm)

lemma config_for_bucket_ok: "config_ok C cfg \<Longrightarrow> config_for_bucket (cx_uri C) bucket cfg = Inr cfg' \<Longrightarrow> config_ok C cfg'"
  by (auto simp: config_for_bucket_def config_ok_def split: if_splits)

text \<open>
  The transport is as strict as its switch: its connector accepts plain HTTP exactly if the transport does, it always verifies
  certificates against the built-in roots, and it bounds connecting by the configured timeout.
\<close>

definition transport_ok :: "('p, 'o) s3_config \<Rightarrow> http_transport \<Rightarrow> bool" where
  "transport_ok cfg t \<longleftrightarrow> cn_https_only (tr_client t) = (\<not> tr_allow_http t) \<and> tr_allow_http t = (\<not> is_https (cfg_endpoint cfg)) \<and>
     cn_webpki_roots (tr_client t) \<and> cn_connect_timeout (tr_client t) = Some (cfg_connect_timeout cfg) \<and>
     tr_user_agent t = cfg_user_agent cfg"

lemma client_new_Inr:
  "client_new C cfg quotas = (Inr cl, quotas') \<Longrightarrow>
     cl_config cl = cfg \<and> transport_ok cfg (cl_transport cl) \<and> cl_quota cl = length quotas \<and> quotas' = quotas @ [quota_new]"
  by (auto simp: client_new_def transport_new_def transport_ok_def https_connector_def http_connector_def split: sum.splits if_splits)

text \<open>A configuration that was built always gives a client: the transport accepts its user agent.\<close>

lemma client_new_total: "config_ok C cfg \<Longrightarrow> \<exists>cl. client_new C cfg quotas = (Inr cl, quotas @ [quota_new])"
  by (simp add: client_new_def transport_new_def config_ok_def)

lemma object_url_key_scheme:
  "object_url U e b k s = Inr u \<Longrightarrow> eu_scheme u = eu_scheme (ep_url e)"
  by (rule object_url_parts(2))

lemmas builder_setter_defs = builder_endpoint_def builder_region_def builder_bucket_def builder_addressing_style_def builder_connect_timeout_def builder_attempt_timeout_def builder_operation_timeout_def builder_idle_body_timeout_def builder_max_xml_response_size_def builder_max_error_response_size_def builder_retry_policy_def builder_user_agent_def builder_credentials_provider_def builder_observer_def allow_http_for_local_testing_def

lemma configure_allow_http: "b_allow_http (configure calls b) \<longleftrightarrow> b_allow_http b \<or> AllowHttp \<in> set calls"
proof (induction calls arbitrary: b)
  case (Cons call calls)
  have "b_allow_http (apply_call call b) \<longleftrightarrow> b_allow_http b \<or> call = AllowHttp"
    by (cases call) (simp_all add: builder_setter_defs)
  with Cons[of "apply_call call b"] show ?case by (auto simp: configure_def)
qed (simp add: configure_def)

text \<open>
  Property C38. Plain HTTP needs the explicit switch: whatever else was set on the builder, unless
  \<open>allow_http_for_local_testing\<close> was called, a client built from it, or derived from such a client for another bucket, sends every operation's target over HTTPS
  and its transport refuses anything else, over a connector that is restricted to HTTPS with verified certificates; the derived client uses the same retry quota and its bucket is
  valid for the addressing style.
\<close>

theorem no_plain_http_without_opt_in:
  assumes "build C (configure calls (default_builder aws version provider)) = Inr cfg" and "AllowHttp \<notin> set calls" and "client_new C cfg quotas = (Inr cl, quotas')"
    and "client_for_bucket (cx_uri C) bucket cl = Inr cl'" and "operation_target (cx_uri C) cl' key = Inr target"
  shows "eu_scheme target = ''https'' \<and> (\<forall>t. eu_scheme t \<noteq> ''https'' \<longrightarrow> transport_refuses cl' t) \<and>
    cn_https_only (tr_client (cl_transport cl')) \<and> cn_webpki_roots (tr_client (cl_transport cl')) \<and>
    cl_quota cl' = cl_quota cl \<and> config_ok C (cl_config cl') \<and> cfg_bucket (cl_config cl') = bucket"
proof -
  have h: "is_https (cfg_endpoint cfg)" and ok: "config_ok C cfg"
    using build_config_ok[OF assms(1)] assms(2) by (auto simp: configure_allow_http default_builder_def)
  from client_new_Inr[OF assms(3)] have cl: "cl_config cl = cfg" "transport_ok cfg (cl_transport cl)" by simp_all
  from assms(4) obtain cfg' where cfg': "config_for_bucket (cx_uri C) bucket cfg = Inr cfg'" "cl' = cl\<lparr>cl_config := cfg'\<rparr>"
    by (auto simp: client_for_bucket_def cl)
  from cfg'(1) have e: "cfg_endpoint cfg' = cfg_endpoint cfg" "cfg_bucket cfg' = bucket"
    by (auto simp: config_for_bucket_def split: if_splits)
  have "eu_scheme target = ''https''"
    using assms(5) object_url_key_scheme h by (fastforce simp: operation_target_def cfg'(2) e is_https_def)
  with h cfg' e cl show ?thesis
    using config_for_bucket_ok[OF ok cfg'(1)] by (simp add: transport_refuses_def transport_ok_def)
qed

definition example_config_ext :: config_ext where
  "example_config_ext = \<lparr>cx_uri = example_uri_ext, cx_representable = (\<lambda>_. True), cx_header_value = (\<lambda>_. True), cx_http2 = False\<rparr>"

definition example_builder :: "(unit, unit) s3_config_builder" where
  "example_builder = (default_builder example_endpoint ''0.1'' ())\<lparr>b_bucket := Some ''b''\<rparr>"

lemma example_build: "\<exists>cfg. build example_config_ext example_builder = Inr cfg \<and> cfg_endpoint cfg = example_endpoint \<and>
    cfg_addressing_style cfg = Path \<and> cfg_user_agent cfg = ''s3-wire/0.1''"
proof -
  have u: "\<not> isl (object_url example_uri_ext example_endpoint ''b'' None Path)" by code_simp
  then obtain x where "object_url example_uri_ext example_endpoint ''b'' None Path = Inr x" by (auto simp: isl_def) (metis sum.exhaust)
  moreover have "validate_nonempty_token ''region'' ''us-east-1'' = Inr ()" by code_simp
  moreover have "is_https example_endpoint" by (simp add: is_https_def example_endpoint_def)
  ultimately show ?thesis
    by (simp add: build_def example_builder_def default_builder_def example_config_ext_def named_timeouts_def
        from_secs_def)
qed

theorem no_plain_http_without_opt_in_witness:
  "\<exists>cfg cl quotas' cl' target. build example_config_ext example_builder = Inr cfg \<and>
     client_new example_config_ext cfg [] = (Inr cl, quotas') \<and>
     client_for_bucket example_uri_ext ''b'' cl = Inr cl' \<and>
     operation_target example_uri_ext cl' (Some ''a b'') = Inr target \<and> eu_scheme target = ''https''"
proof -
  from example_build obtain cfg where cfg: "build example_config_ext example_builder = Inr cfg"
    "cfg_endpoint cfg = example_endpoint" "cfg_addressing_style cfg = Path" "cfg_user_agent cfg = ''s3-wire/0.1''" by blast
  have b: "example_builder = configure [SetBucket ''b''] (default_builder example_endpoint ''0.1'' ())"
    by (simp add: example_builder_def configure_def builder_bucket_def)
  let ?cl = "\<lparr>cl_config = cfg, cl_transport = \<lparr>tr_client = https_connector False (\<not> is_https (cfg_endpoint cfg))
      (http_connector (cfg_connect_timeout cfg)), tr_user_agent = cfg_user_agent cfg, tr_allow_http = \<not> is_https (cfg_endpoint cfg)\<rparr>,
    cl_quota = 0\<rparr>"
  have cl: "client_new example_config_ext cfg [] = (Inr ?cl, [quota_new])"
    by (simp add: client_new_def transport_new_def example_config_ext_def)
  have "\<not> isl (object_url example_uri_ext example_endpoint ''b'' None Path)" by code_simp
  then obtain x where "object_url example_uri_ext example_endpoint ''b'' None Path = Inr x" by (auto simp: isl_def) (metis sum.exhaust)
  then have cl': "client_for_bucket example_uri_ext ''b'' ?cl = Inr (?cl\<lparr>cl_config := cfg\<lparr>cfg_bucket := ''b''\<rparr>\<rparr>)"
    by (simp add: client_for_bucket_def config_for_bucket_def cfg)
  have t: "operation_target example_uri_ext (?cl\<lparr>cl_config := cfg\<lparr>cfg_bucket := ''b''\<rparr>\<rparr>) (Some ''a b'') = Inr example_target"
    by (simp add: operation_target_def cfg example_object_url)
  have "eu_scheme example_target = ''https''"
    using no_plain_http_without_opt_in[OF cfg(1)[unfolded b] _ cl, of "''b''" _ "Some ''a b''" example_target] cl' t
    by (simp add: example_config_ext_def)
  with cfg(1) cl cl' t show ?thesis by blast
qed

end
