(* ===== verification/Operation_Types.thy ===== *)
theory Operation_Types
  imports S3_Error
begin

text \<open>
  The validated request and response types of \<open>src/operation/\<close>: object keys, byte ranges, checksum
  names, page sizes, delete batches, upload identifiers, part numbers, completed parts, the
  resource bounds of a managed upload and the recorded state of a multipart upload. A newtype with
  a private field is a one-constructor datatype; its constructor function is the only code path
  that builds it, and the \<open>valid_\<close> predicates say what that function establishes. A header map is
  the list of name and value pairs its iterator yields; a \<open>BTreeMap\<close> is the ascending list of
  its entries. Request bodies are a type parameter here; they are modelled in the stream theories.
\<close>

type_synonym header_map = "(string \<times> string) list"
type_synonym metadata_map = "(string \<times> string) list"
type_synonym offset_date_time = int

section \<open>Standard library: maps, searching and white space\<close>

text \<open>\<open>BTreeMap::insert\<close> on the ascending list of entries.\<close>

fun btree_insert :: "'k::linorder \<Rightarrow> 'v \<Rightarrow> ('k \<times> 'v) list \<Rightarrow> ('k \<times> 'v) list" where
  "btree_insert k v [] = [(k, v)]"
| "btree_insert k v ((k', v') # m) =
     (if k < k' then (k, v) # (k', v') # m
      else if k = k' then (k, v) # m
      else (k', v') # btree_insert k v m)"

lemma map_of_btree_insert: "map_of (btree_insert k v m) = (map_of m)(k \<mapsto> v)"
  by (induction m) auto

lemma set_btree_insert: "fst ` set (btree_insert k v m) = insert k (fst ` set m)"
  by (induction k v m rule: btree_insert.induct) (simp_all add: insert_commute)

lemma sorted_btree_insert: "ascending (map fst m) \<Longrightarrow> ascending (map fst (btree_insert k v m))"
proof (induction m)
  case (Cons e m)
  obtain k' v' where e: "e = (k', v')" by (cases e)
  have s: "set (map fst (btree_insert k v m)) = insert k (set (map fst m))"
    using set_btree_insert[of k v m] by simp
  consider "k < k'" | "k = k'" | "k' < k" by fastforce
  then show ?case
  proof cases
    case 1
    with Cons.prems e show ?thesis by auto
  next
    case 3
    then have "\<forall>x \<in> set (map fst (btree_insert k v m)). k' < x"
      unfolding s using Cons.prems e by auto
    with 3 Cons e show ?thesis by auto
  qed (use Cons.prems e in auto)
qed simp

text \<open>
  \<open>slice::binary_search_by_key\<close> over the keys of a slice: a probing loop that halves the window,
  then one last comparison. \<open>Ok(i)\<close> is \<open>Inr i\<close>; \<open>Err(i)\<close>, the insertion point, is \<open>Inl i\<close>.
\<close>

function search_loop :: "'k::linorder list \<Rightarrow> 'k \<Rightarrow> nat \<Rightarrow> nat \<Rightarrow> nat" where
  "search_loop ks k base window =
     (if 1 < window
      then let half = window div 2; mid = base + half in
           search_loop ks k (if ks ! mid > k then base else mid) (window - half)
      else base)"
  by pat_completeness auto
termination by (relation "measure (\<lambda>(_, _, _, window). window)") auto

declare search_loop.simps [simp del]

definition binary_search :: "'k::linorder list \<Rightarrow> 'k \<Rightarrow> nat + nat" where
  "binary_search ks k =
     (if ks = [] then Inl 0
      else let i = search_loop ks k 0 (length ks) in
           if ks ! i = k then Inr i else Inl (i + (if ks ! i < k then 1 else 0)))"

lemma search_loop_bounds:
  assumes "ascending ks" and "0 < window" and "base + window \<le> length ks"
    and "base = 0 \<or> ks ! base \<le> k" and "\<And>j. base + window \<le> j \<Longrightarrow> j < length ks \<Longrightarrow> k < ks ! j"
  shows "search_loop ks k base window < length ks \<and>
    (search_loop ks k base window = 0 \<or> ks ! search_loop ks k base window \<le> k) \<and>
    (\<forall>j. search_loop ks k base window < j \<longrightarrow> j < length ks \<longrightarrow> k < ks ! j)"
  using assms
proof (induction ks k base window rule: search_loop.induct)
  case (1 ks k base window)
  show ?case
  proof (cases "1 < window")
    case False
    then have "window = 1" and u: "search_loop ks k base window = base"
      using "1.prems"(2) by (simp_all add: search_loop.simps)
    with "1.prems"(3-5) show ?thesis by simp
  next
    case True
    define mid where "mid = base + window div 2"
    define base' where "base' = (if ks ! mid > k then base else mid)"
    have m: "mid < length ks" "base < mid" using True "1.prems"(2,3) by (simp_all add: mid_def)
    have u: "search_loop ks k base window = search_loop ks k base' (window - window div 2)"
      using True by (subst search_loop.simps) (simp add: mid_def base'_def Let_def)
    have b: "base' + (window - window div 2) \<le> length ks"
      using "1.prems"(3) True by (auto simp: base'_def mid_def)
    have above: "k < ks ! j" if j: "base' + (window - window div 2) \<le> j" "j < length ks" for j
    proof (cases "ks ! mid > k")
      case hi: True
      then have "mid \<le> j" using j(1) by (simp add: base'_def mid_def)
      then have "ks ! mid \<le> ks ! j"
        using "1.prems"(1) j(2) by (simp add: sorted_nth_mono ascending_imp_sorted)
      with hi show ?thesis by simp
    next
      case False
      then have "base + window \<le> j" using j(1) by (simp add: base'_def mid_def)
      with "1.prems"(5) j(2) show ?thesis by blast
    qed
    have "base' = 0 \<or> ks ! base' \<le> k" using "1.prems"(4) by (auto simp: base'_def not_less)
    moreover have "0 < window - window div 2" using True by simp
    ultimately show ?thesis unfolding u
      using "1.IH"[OF True refl mid_def] "1.prems"(1) b above unfolding base'_def by blast
  qed
qed

lemma binary_search_Inr: "binary_search ks k = Inr i \<Longrightarrow> ascending ks \<Longrightarrow> i < length ks \<and> ks ! i = k"
  using search_loop_bounds[of ks "length ks" 0 k]
  by (auto simp: binary_search_def Let_def split: if_splits)

lemma binary_search_Inl:
  assumes "binary_search ks k = Inl i" and "ascending ks"
  shows "i \<le> length ks \<and> (\<forall>x \<in> set (take i ks). x < k) \<and> (\<forall>x \<in> set (drop i ks). k < x)"
proof (cases "ks = []")
  case True
  with assms show ?thesis by (simp add: binary_search_def)
next
  case False
  define r where "r = search_loop ks k 0 (length ks)"
  have r: "r < length ks" "r = 0 \<or> ks ! r \<le> k" "\<And>j. r < j \<Longrightarrow> j < length ks \<Longrightarrow> k < ks ! j"
    using search_loop_bounds[of ks "length ks" 0 k] False assms(2) by (auto simp: r_def)
  have i: "ks ! r \<noteq> k" "i = r + (if ks ! r < k then 1 else 0)"
    using assms(1) False by (auto simp: binary_search_def Let_def r_def split: if_splits)
  have below: "ks ! j < k" if "j < i" for j
  proof -
    have "j \<le> r" "ks ! r < k" using that i r(2) by (auto split: if_splits)
    then show ?thesis
      using sorted_nth_mono[OF ascending_imp_sorted[OF assms(2)], of j r] r(1) by simp
  qed
  have above: "k < ks ! j" if "i \<le> j" "j < length ks" for j
    using that i r by (cases "j = r") (auto split: if_splits)
  have "i \<le> length ks" using i(2) r(1) by simp
  moreover have "\<forall>x \<in> set (take i ks). x < k" using below by (auto simp: in_set_conv_nth)
  moreover have "\<forall>x \<in> set (drop i ks). k < x" using above by (auto simp: in_set_conv_nth)
  ultimately show ?thesis by blast
qed

lemma binary_search_found: "ascending ks \<Longrightarrow> isl (binary_search ks k) \<longleftrightarrow> k \<notin> set ks"
proof (cases "binary_search ks k")
  case (Inl i)
  assume "ascending ks"
  with Inl binary_search_Inl[of ks k i] have "k \<notin> set (take i ks @ drop i ks)"
    unfolding set_append by blast
  with Inl show ?thesis unfolding append_take_drop_id by simp
next
  case (Inr i)
  assume "ascending ks"
  with Inr binary_search_Inr[of ks k i] show ?thesis by auto
qed

text \<open>
  \<open>str::trim().is_empty()\<close>: every character has the Unicode \<open>White_Space\<close> property. The
  characters are matched by their UTF-8 encodings.
\<close>

fun blank_str :: "string \<Rightarrow> bool" where
  "blank_str s =
     (case s of [] \<Rightarrow> True
      | c # cs \<Rightarrow>
          if (9 \<le> ord c \<and> ord c \<le> 13) \<or> ord c = 32 then blank_str cs
          else if ord c = 0xC2 then
            (case cs of d # r \<Rightarrow> (ord d = 0x85 \<or> ord d = 0xA0) \<and> blank_str r | [] \<Rightarrow> False)
          else if ord c \<in> {0xE1, 0xE2, 0xE3} then
            (case cs of d # f # r \<Rightarrow>
               (ord c = 0xE1 \<and> ord d = 0x9A \<and> ord f = 0x80 \<or>
                ord c = 0xE2 \<and> ord d = 0x80 \<and>
                  (0x80 \<le> ord f \<and> ord f \<le> 0x8A \<or> ord f \<in> {0xA8, 0xA9, 0xAF}) \<or>
                ord c = 0xE2 \<and> ord d = 0x81 \<and> ord f = 0x9F \<or>
                ord c = 0xE3 \<and> ord d = 0x80 \<and> ord f = 0x80) \<and> blank_str r
             | _ \<Rightarrow> False)
          else False)"

declare blank_str.simps [simp del]

lemma not_blank_ascii: "33 \<le> ord c \<Longrightarrow> ord c < 128 \<Longrightarrow> \<not> blank_str (c # cs)"
  by (simp add: blank_str.simps)

lemma blank_Nil [simp]: "blank_str []"
  by (simp add: blank_str.simps)


section \<open>Object keys, ranges and checksum names\<close>

definition MAX_OBJECT_KEY_BYTES :: nat where "MAX_OBJECT_KEY_BYTES = 1024"

datatype object_key = ObjectKey (key_str: string)

datatype object_key_error = KeyEmpty | KeyTooLong (key_actual: nat) (key_maximum: nat)

definition object_key_new :: "string \<Rightarrow> object_key_error + object_key" where
  "object_key_new v =
     reject_if (v = []) KeyEmpty
     (reject_if (MAX_OBJECT_KEY_BYTES < length v) (KeyTooLong (length v) MAX_OBJECT_KEY_BYTES)
     (Inr (ObjectKey v)))"

definition valid_key :: "object_key \<Rightarrow> bool" where
  "valid_key k \<longleftrightarrow> key_str k \<noteq> [] \<and> length (key_str k) \<le> MAX_OBJECT_KEY_BYTES"

datatype range_error = RangeError (range_start: u64) (range_end: u64)

text \<open>The suffix length is a \<open>NonZeroU64\<close>.\<close>

datatype byte_range = Inclusive u64 u64 | FromOffset u64 | Suffix u64

definition byte_range_inclusive :: "u64 \<Rightarrow> u64 \<Rightarrow> range_error + byte_range" where
  "byte_range_inclusive a b = reject_if (b < a) (RangeError a b) (Inr (Inclusive a b))"

definition byte_range_from :: "u64 \<Rightarrow> byte_range" where "byte_range_from a = FromOffset a"

definition byte_range_suffix :: "u64 \<Rightarrow> byte_range option" where
  "byte_range_suffix n = (if n = 0 then None else Some (Suffix n))"

definition to_header_value :: "byte_range \<Rightarrow> string" where
  "to_header_value r = (case r of
     Inclusive a b \<Rightarrow> ''bytes='' @ to_string (unat a) @ ''-'' @ to_string (unat b)
   | FromOffset a \<Rightarrow> ''bytes='' @ to_string (unat a) @ ''-''
   | Suffix n \<Rightarrow> ''bytes=-'' @ to_string (unat n))"

record conditions =
  if_match :: "string option"
  if_none_match :: "string option"
  if_modified_since :: "offset_date_time option"
  if_unmodified_since :: "offset_date_time option"

definition no_conditions :: conditions where
  "no_conditions = \<lparr>if_match = None, if_none_match = None, if_modified_since = None,
     if_unmodified_since = None\<rparr>"

datatype checksum_algorithm = Crc32 | Crc32c | Crc64Nvme | Sha1 | Sha256

datatype checksum_type = Composite | FullObject | UnknownChecksumType string

definition checksum_type_str :: "checksum_type \<Rightarrow> string" where
  "checksum_type_str t = (case t of Composite \<Rightarrow> ''COMPOSITE'' | FullObject \<Rightarrow> ''FULL_OBJECT''
     | UnknownChecksumType v \<Rightarrow> v)"

definition checksum_type_parse :: "string \<Rightarrow> checksum_type" where
  "checksum_type_parse v =
     (if v = ''COMPOSITE'' then Composite else if v = ''FULL_OBJECT'' then FullObject
      else UnknownChecksumType v)"

record checksum =
  crc32_value :: "string option"
  crc32c_value :: "string option"
  crc64_nvme_value :: "string option"
  sha1_value :: "string option"
  sha256_value :: "string option"

definition no_checksum :: checksum where
  "no_checksum = \<lparr>crc32_value = None, crc32c_value = None, crc64_nvme_value = None,
     sha1_value = None, sha256_value = None\<rparr>"

record request_ids =
  ids_request_id :: "string option"
  ids_host_id :: "string option"

definition no_request_ids :: request_ids where
  "no_request_ids = \<lparr>ids_request_id = None, ids_host_id = None\<rparr>"

datatype presigned_url = PresignedUrl (expose: string)

definition presigned_url_debug :: "presigned_url \<Rightarrow> string" where
  "presigned_url_debug u = ''PresignedUrl([REDACTED])''"

definition presigned_url_display :: "presigned_url \<Rightarrow> string" where
  "presigned_url_display u = ''[REDACTED PRESIGNED URL]''"

section \<open>Object requests and results\<close>

record object_metadata =
  om_e_tag :: "string option"
  om_content_length :: nat
  om_content_type :: "string option"
  om_last_modified :: "offset_date_time option"
  om_version_id :: "string option"
  om_user_metadata :: metadata_map
  om_checksum :: checksum
  om_request_ids :: request_ids

record 'b put_object_request =
  put_key :: object_key
  put_body :: 'b
  put_content_type :: "string option"
  put_user_metadata :: metadata_map
  put_conditions :: conditions
  put_checksum_algorithm :: "checksum_algorithm option"
  put_headers :: header_map

definition put_object_request_new :: "object_key \<Rightarrow> 'b \<Rightarrow> 'b put_object_request" where
  "put_object_request_new k b = \<lparr>put_key = k, put_body = b, put_content_type = None,
     put_user_metadata = [], put_conditions = no_conditions, put_checksum_algorithm = None,
     put_headers = []\<rparr>"

definition put_with_headers :: "header_map \<Rightarrow> 'b put_object_request \<Rightarrow> 'b put_object_request" where
  "put_with_headers headers rq = rq\<lparr>put_headers := headers\<rparr>"

record put_object_output =
  po_e_tag :: "string option"
  po_version_id :: "string option"
  po_checksum :: checksum
  po_request_ids :: request_ids

record get_object_request =
  get_key :: object_key
  get_range :: "byte_range option"
  get_conditions :: conditions
  get_version_id :: "string option"
  get_headers :: header_map

definition get_object_request_new :: "object_key \<Rightarrow> get_object_request" where
  "get_object_request_new k = \<lparr>get_key = k, get_range = None, get_conditions = no_conditions,
     get_version_id = None, get_headers = []\<rparr>"

definition get_with_headers :: "header_map \<Rightarrow> get_object_request \<Rightarrow> get_object_request" where
  "get_with_headers headers rq = rq\<lparr>get_headers := headers\<rparr>"

record 'b get_object_output =
  go_metadata :: object_metadata
  go_body :: 'b
  go_content_range :: "(nat \<times> nat \<times> nat option) option"

record head_object_request =
  head_key :: object_key
  head_conditions :: conditions
  head_version_id :: "string option"
  head_headers :: header_map

definition head_object_request_new :: "object_key \<Rightarrow> head_object_request" where
  "head_object_request_new k = \<lparr>head_key = k, head_conditions = no_conditions,
     head_version_id = None, head_headers = []\<rparr>"

definition head_with_headers :: "header_map \<Rightarrow> head_object_request \<Rightarrow> head_object_request" where
  "head_with_headers headers rq = rq\<lparr>head_headers := headers\<rparr>"

record delete_object_request =
  del_key :: object_key
  del_version_id :: "string option"
  del_if_match :: "string option"
  del_headers :: header_map

definition delete_object_request_new :: "object_key \<Rightarrow> delete_object_request" where
  "delete_object_request_new k = \<lparr>del_key = k, del_version_id = None, del_if_match = None,
     del_headers = []\<rparr>"

definition del_with_headers :: "header_map \<Rightarrow> delete_object_request \<Rightarrow> delete_object_request" where
  "del_with_headers headers rq = rq\<lparr>del_headers := headers\<rparr>"

record delete_object_output =
  do_delete_marker :: bool
  do_version_id :: "string option"
  do_request_ids :: request_ids

record delete_object_identifier =
  doi_key :: object_key
  doi_version_id :: "string option"
  doi_if_match :: "string option"

definition delete_object_identifier_new :: "object_key \<Rightarrow> delete_object_identifier" where
  "delete_object_identifier_new k = \<lparr>doi_key = k, doi_version_id = None, doi_if_match = None\<rparr>"

definition MAX_DELETE_OBJECTS :: nat where "MAX_DELETE_OBJECTS = 1000"

record delete_objects_request =
  dos_objects :: "delete_object_identifier list"
  dos_quiet :: bool
  dos_headers :: header_map

datatype delete_objects_error = BatchEmpty | BatchTooMany (batch_actual: nat) (batch_maximum: nat)

definition delete_objects_request_new ::
  "delete_object_identifier list \<Rightarrow> delete_objects_error + delete_objects_request" where
  "delete_objects_request_new os =
     reject_if (os = []) BatchEmpty
     (reject_if (MAX_DELETE_OBJECTS < length os) (BatchTooMany (length os) MAX_DELETE_OBJECTS)
     (Inr \<lparr>dos_objects = os, dos_quiet = False, dos_headers = []\<rparr>))"

definition dos_with_headers :: "header_map \<Rightarrow> delete_objects_request \<Rightarrow> delete_objects_request" where
  "dos_with_headers headers rq = rq\<lparr>dos_headers := headers\<rparr>"

record deleted_object =
  deleted_key :: object_key
  deleted_version_id :: "string option"
  deleted_marker :: bool
  deleted_marker_version_id :: "string option"

record delete_error =
  de_key :: string
  de_version_id :: "string option"
  de_code :: "string option"
  de_message :: "string option"

record delete_objects_output =
  doo_deleted :: "deleted_object list"
  doo_errors :: "delete_error list"
  doo_request_ids :: request_ids

record copy_source =
  cs_bucket :: string
  cs_key :: object_key
  cs_version_id :: "string option"

datatype copy_metadata_directive =
    CopyMetadata
  | ReplaceMetadata (replace_content_type: "string option") (replace_user_metadata: metadata_map)

record copy_object_request =
  co_source :: copy_source
  co_destination :: object_key
  co_source_conditions :: conditions
  co_metadata :: copy_metadata_directive
  co_headers :: header_map

definition copy_object_request_new :: "copy_source \<Rightarrow> object_key \<Rightarrow> copy_object_request" where
  "copy_object_request_new src dst = \<lparr>co_source = src, co_destination = dst,
     co_source_conditions = no_conditions, co_metadata = CopyMetadata, co_headers = []\<rparr>"

definition co_with_headers :: "header_map \<Rightarrow> copy_object_request \<Rightarrow> copy_object_request" where
  "co_with_headers headers rq = rq\<lparr>co_headers := headers\<rparr>"

record object_owner =
  owner_id :: "string option"
  owner_display_name :: "string option"

record copy_object_output =
  coo_e_tag :: "string option"
  coo_last_modified :: "offset_date_time option"
  coo_version_id :: "string option"
  coo_checksum :: checksum
  coo_request_ids :: request_ids

text \<open>A page size is a \<open>NonZeroU16\<close> of at most 1000.\<close>

datatype page_size = PageSize (page_get: u16)

definition PAGE_MAX :: u16 where "PAGE_MAX = 1000"

definition page_size_new :: "u16 \<Rightarrow> page_size option" where
  "page_size_new n = (if n \<noteq> 0 \<and> n \<le> PAGE_MAX then Some (PageSize n) else None)"

definition default_page_size :: page_size where "default_page_size = PageSize PAGE_MAX"

record list_objects_request =
  lo_prefix :: "string option"
  lo_delimiter :: "string option"
  lo_continuation_token :: "string option"
  lo_start_after :: "object_key option"
  lo_max_keys :: page_size
  lo_fetch_owner :: bool
  lo_headers :: header_map

definition lo_with_headers :: "header_map \<Rightarrow> list_objects_request \<Rightarrow> list_objects_request" where
  "lo_with_headers headers rq = rq\<lparr>lo_headers := headers\<rparr>"

record listed_object =
  lob_key :: object_key
  lob_last_modified :: "offset_date_time option"
  lob_e_tag :: "string option"
  lob_size :: nat
  lob_storage_class :: "string option"
  lob_owner :: "object_owner option"
  lob_checksum_algorithms :: "string list"
  lob_checksum_type :: "checksum_type option"

record list_objects_output =
  loo_objects :: "listed_object list"
  loo_common_prefixes :: "string list"
  loo_is_truncated :: bool
  loo_next_continuation_token :: "string option"
  loo_key_count :: "nat option"
  loo_request_ids :: request_ids

end
