(* ===== verification/Credential_Providers.thy ===== *)
theory Credential_Providers
  imports S3_Error Operation_Types
begin

text \<open>
  Credentials and their providers, \<open>src/credentials/mod.rs\<close>. A provider is a step of its state under an
  environment: the clock reading at which the call holds the cache lock, the process environment and,
  for a provider given by the application, what that provider answers. The trait is the locale
  \<open>credentials_source\<close>: every credential a provider hands out is well-formed. The caching provider
  wraps any source; concurrent callers are serialised by its lock, so a history of calls is a list.
  \<open>OffsetDateTime::saturating_add\<close> of the \<open>time\<close> crate is the parameter \<open>sat_add\<close>.
\<close>

section \<open>Credential values\<close>

record credentials =
  access_key_id :: string
  secret_access_key :: string
  session_token :: "string option"
  expires_at :: "offset_date_time option"

definition with_expiration ::
  "string \<Rightarrow> string \<Rightarrow> string option \<Rightarrow> offset_date_time option \<Rightarrow> s3_error + credentials" where
  "with_expiration akid sec token expiry =
     reject_if (akid = []) (configuration ''credential access key identifier must not be empty'')
     (reject_if (sec = []) (configuration ''credential secret access key must not be empty'')
     (reject_if (token = Some []) (configuration ''credential session token must not be empty when present'')
     (Inr \<lparr>access_key_id = akid, secret_access_key = sec, session_token = token, expires_at = expiry\<rparr>)))"

definition credentials_new :: "string \<Rightarrow> string \<Rightarrow> string option \<Rightarrow> s3_error + credentials" where
  "credentials_new akid sec token = with_expiration akid sec token None"

definition expires_by :: "credentials \<Rightarrow> offset_date_time \<Rightarrow> bool" where
  "expires_by c t \<longleftrightarrow> (case expires_at c of None \<Rightarrow> False | Some expiration \<Rightarrow> expiration \<le> t)"

definition well_formed :: "credentials \<Rightarrow> bool" where
  "well_formed c \<longleftrightarrow> access_key_id c \<noteq> [] \<and> secret_access_key c \<noteq> [] \<and> session_token c \<noteq> Some []"

lemma with_expiration_Inr_iff:
  "with_expiration a s t x = Inr c \<longleftrightarrow>
     c = \<lparr>access_key_id = a, secret_access_key = s, session_token = t, expires_at = x\<rparr> \<and> well_formed c"
  by (auto simp: with_expiration_def well_formed_def)

section \<open>The provider interface\<close>

record call_env =
  ce_now :: offset_date_time
  ce_vars :: "string \<Rightarrow> (unit + string) option"

text \<open>A history of calls: every environment in turn, the results and the final state.\<close>

fun provide_all :: "('e \<Rightarrow> 's \<Rightarrow> (s3_error + credentials) \<times> 's) \<Rightarrow> 'e list \<Rightarrow> 's \<Rightarrow> (s3_error + credentials) list \<times> 's" where
  "provide_all provide [] s = ([], s)"
| "provide_all provide (env # envs) s =
     (let (r, s1) = provide env s; (rs, s2) = provide_all provide envs s1 in (r # rs, s2))"

locale credentials_source =
  fixes provide :: "call_env \<Rightarrow> 's \<Rightarrow> (s3_error + credentials) \<times> 's"
    and inv :: "'s \<Rightarrow> bool"
  assumes provide_inv: "inv s \<Longrightarrow> provide env s = (r, s') \<Longrightarrow> inv s'"
    and provide_well_formed: "inv s \<Longrightarrow> provide env s = (Inr c, s') \<Longrightarrow> well_formed c"
begin

lemma history_well_formed:
  "inv s \<Longrightarrow> provide_all provide envs s = (rs, s') \<Longrightarrow> inv s' \<and> (\<forall>c. Inr c \<in> set rs \<longrightarrow> well_formed c)"
proof (induction envs arbitrary: s rs)
  case (Cons env envs)
  obtain r s1 where 1: "provide env s = (r, s1)" by fastforce
  obtain rs' s2 where 2: "provide_all provide envs s1 = (rs', s2)" by fastforce
  have "inv s1" using provide_inv Cons.prems(1) 1 by blast
  moreover have "\<forall>c. r = Inr c \<longrightarrow> well_formed c" using provide_well_formed Cons.prems(1) 1 by blast
  ultimately show ?case using Cons.IH[of s1 rs'] Cons.prems(2) 1 2 by auto
qed auto

end

section \<open>Static and environment providers\<close>

definition provide_static :: "call_env \<Rightarrow> credentials \<Rightarrow> (s3_error + credentials) \<times> credentials" where
  "provide_static env c = (Inr c, c)"

definition authentication :: "string \<Rightarrow> s3_error" where
  "authentication msg = new_error Authentication msg Never"

text \<open>A variable is unset, set to text, or set to bytes that are not Unicode (\<open>Inl ()\<close>).\<close>

definition read_optional_env :: "call_env \<Rightarrow> string \<Rightarrow> s3_error + string option" where
  "read_optional_env env name =
     map_transpose (\<lambda>v. case v of
        Inl _ \<Rightarrow> Inl (authentication (''credential environment variable '' @ name @ '' is not valid Unicode''))
      | Inr t \<Rightarrow> Inr t) (ce_vars env name)"

definition read_required_env :: "call_env \<Rightarrow> string \<Rightarrow> s3_error + string" where
  "read_required_env env name =
     and_then (read_optional_env env name) (\<lambda>v.
       ok_or (authentication (''required credential environment variable '' @ name @ '' is not set'')) v)"

definition provide_environment :: "call_env \<Rightarrow> unit \<Rightarrow> (s3_error + credentials) \<times> unit" where
  "provide_environment env s =
     (and_then (read_required_env env ''AWS_ACCESS_KEY_ID'') (\<lambda>akid.
      and_then (read_required_env env ''AWS_SECRET_ACCESS_KEY'') (\<lambda>sec.
      and_then (read_optional_env env ''AWS_SESSION_TOKEN'') (\<lambda>token.
      credentials_new akid sec token))), ())"

section \<open>The bridge to the AWS credential chain\<close>

text \<open>
  The AWS SDK's chain is not part of the repository: building a chain, for the default or for a named profile, resolving
  credentials with it and resolving a region are parameters. A failed resolution leaves the name of its error type.
\<close>

record sdk_credentials =
  sdk_access_key_id :: string
  sdk_secret_access_key :: string
  sdk_session_token :: "string option"
  sdk_expiry :: "offset_date_time option"

definition aws_new :: "(string option \<Rightarrow> 's) \<Rightarrow> 's" where
  "aws_new build_chain = build_chain None"

definition aws_for_profile :: "(string option \<Rightarrow> 's) \<Rightarrow> string \<Rightarrow> s3_error + 's" where
  "aws_for_profile build_chain profile =
     reject_if (profile = []) (configuration ''AWS profile name must not be empty'') (Inr (build_chain (Some profile)))"

definition provide_aws ::
  "(call_env \<Rightarrow> 's \<Rightarrow> (string + sdk_credentials) \<times> 's) \<Rightarrow> call_env \<Rightarrow> 's \<Rightarrow> (s3_error + credentials) \<times> 's" where
  "provide_aws resolve env s = (case resolve env s of
     (Inl type_name, s') \<Rightarrow>
       (Inl (with_source type_name (authentication ''AWS default credential chain did not resolve credentials'')), s')
   | (Inr c, s') \<Rightarrow>
       (with_expiration (sdk_access_key_id c) (sdk_secret_access_key c) (sdk_session_token c) (sdk_expiry c), s'))"

definition resolve_default_aws_region :: "(string option \<Rightarrow> string option) \<Rightarrow> s3_error + string" where
  "resolve_default_aws_region region_chain =
     ok_or (configuration ''AWS default region chain did not resolve a region'') (region_chain None)"

definition resolve_aws_region_for_profile :: "(string option \<Rightarrow> string option) \<Rightarrow> string \<Rightarrow> s3_error + string" where
  "resolve_aws_region_for_profile region_chain profile =
     reject_if (profile = []) (configuration ''AWS profile name must not be empty'')
     (ok_or (configuration ''AWS profile did not resolve a region'') (region_chain (Some profile)))"

interpretation static: credentials_source provide_static well_formed
  by unfold_locales (simp_all add: provide_static_def)

interpretation environment: credentials_source provide_environment "\<lambda>_. True"
  by unfold_locales (auto simp: provide_environment_def credentials_new_def with_expiration_Inr_iff)

interpretation aws: credentials_source "provide_aws resolve" "\<lambda>_. True" for resolve
  by unfold_locales (auto simp: provide_aws_def with_expiration_Inr_iff split: prod.splits sum.splits)

section \<open>The caching provider\<close>

record 's cached_provider =
  cp_inner :: 's
  cp_refresh_before :: duration
  cp_cached :: "credentials option"

definition cached_with_refresh_before :: "'s \<Rightarrow> duration \<Rightarrow> 's cached_provider" where
  "cached_with_refresh_before inner before = \<lparr>cp_inner = inner, cp_refresh_before = before, cp_cached = None\<rparr>"

definition cached_new :: "'s \<Rightarrow> 's cached_provider" where
  "cached_new inner = cached_with_refresh_before inner (from_secs 60)"

definition refresh_deadline :: "(offset_date_time \<Rightarrow> duration \<Rightarrow> offset_date_time) \<Rightarrow> 's cached_provider \<Rightarrow>
    offset_date_time \<Rightarrow> offset_date_time" where
  "refresh_deadline sat_add p now = sat_add now (cp_refresh_before p)"

definition invalidate :: "'s cached_provider \<Rightarrow> 's cached_provider" where
  "invalidate p = p\<lparr>cp_cached := None\<rparr>"

definition fresh_cached :: "(offset_date_time \<Rightarrow> duration \<Rightarrow> offset_date_time) \<Rightarrow> 's cached_provider \<Rightarrow>
    offset_date_time \<Rightarrow> credentials option" where
  "fresh_cached sat_add p now =
     (case cp_cached p of
        Some c \<Rightarrow> if \<not> expires_by c (refresh_deadline sat_add p now) then Some c else None
      | None \<Rightarrow> None)"

definition provide_cached ::
  "(offset_date_time \<Rightarrow> duration \<Rightarrow> offset_date_time) \<Rightarrow> (call_env \<Rightarrow> 's \<Rightarrow> (s3_error + credentials) \<times> 's)
     \<Rightarrow> call_env \<Rightarrow> 's cached_provider \<Rightarrow> (s3_error + credentials) \<times> 's cached_provider" where
  "provide_cached sat_add provide env p =
     (case fresh_cached sat_add p (ce_now env) of
        Some c \<Rightarrow> (Inr c, p)
      | None \<Rightarrow>
          (case provide env (cp_inner p) of
             (Inr c, inner) \<Rightarrow> (Inr c, p\<lparr>cp_inner := inner, cp_cached := Some c\<rparr>)
           | (Inl refresh_error, inner) \<Rightarrow>
               (case cp_cached p of
                  Some c \<Rightarrow> if \<not> expires_by c (ce_now env) then (Inr c, p\<lparr>cp_inner := inner\<rparr>)
                           else (Inl refresh_error, p\<lparr>cp_inner := inner\<rparr>)
                | None \<Rightarrow> (Inl refresh_error, p\<lparr>cp_inner := inner\<rparr>))))"

definition cached_inv :: "('s \<Rightarrow> bool) \<Rightarrow> 's cached_provider \<Rightarrow> bool" where
  "cached_inv inner_inv p \<longleftrightarrow> inner_inv (cp_inner p) \<and> (\<forall>c. cp_cached p = Some c \<longrightarrow> well_formed c)"

text \<open>Caching a source gives a source.\<close>

locale cached_source = inner: credentials_source provide inv
  for provide :: "call_env \<Rightarrow> 's \<Rightarrow> (s3_error + credentials) \<times> 's" and inv :: "'s \<Rightarrow> bool" +
  fixes sat_add :: "offset_date_time \<Rightarrow> duration \<Rightarrow> offset_date_time"
begin

lemma cached_step:
  assumes "cached_inv inv p" and "provide_cached sat_add provide env p = (r, p')"
  shows "cached_inv inv p' \<and> (\<forall>c. r = Inr c \<longrightarrow> well_formed c)"
proof (cases "fresh_cached sat_add p (ce_now env)")
  case (Some c)
  then have "cp_cached p = Some c" by (auto simp: fresh_cached_def split: option.splits if_splits)
  with Some assms show ?thesis by (auto simp: provide_cached_def cached_inv_def)
next
  case None
  obtain q inner where p: "provide env (cp_inner p) = (q, inner)" by fastforce
  have "inv inner" "\<forall>c. q = Inr c \<longrightarrow> well_formed c"
    using assms(1) inner.provide_inv inner.provide_well_formed p by (auto simp: cached_inv_def)
  with None p assms show ?thesis
    by (cases q) (auto simp: provide_cached_def cached_inv_def split: option.splits if_splits)
qed

end

sublocale cached_source \<subseteq> cached: credentials_source "provide_cached sat_add provide" "cached_inv inv"
  using cached_step by unfold_locales blast+

interpretation static_cached: cached_source provide_static well_formed sat_add for sat_add
  by unfold_locales

interpretation environment_cached: cached_source provide_environment "\<lambda>_. True" sat_add for sat_add
  by unfold_locales

interpretation aws_cached: cached_source "provide_aws resolve" "\<lambda>_. True" sat_add for resolve sat_add
  by unfold_locales

lemma cached_inv_start: "cached_inv (\<lambda>_. True) (cached_with_refresh_before x before)"
  by (simp add: cached_inv_def cached_with_refresh_before_def)

text \<open>
  Property C37. A caching provider around the process environment or around the AWS credential chain only hands out usable
  credentials: in every history of calls, whatever the environment, the chain and the clock do between them, each
  credential returned has a non-empty key identifier and secret and no empty session token.
\<close>

theorem cached_sources_well_formed:
  assumes "Inr c \<in> set (fst (provide_all (provide_cached sat_add provide_environment) envs (cached_with_refresh_before () before))) \<or>
    Inr c \<in> set (fst (provide_all (provide_cached sat_add (provide_aws resolve)) envs (cached_with_refresh_before chain before)))"
  shows "well_formed c"
  using assms
  by (elim disjE)
    (blast dest: environment_cached.cached.history_well_formed[OF cached_inv_start surjective_pairing, THEN conjunct2, rule_format]
      aws_cached.cached.history_well_formed[OF cached_inv_start surjective_pairing, THEN conjunct2, rule_format])+

definition example_env :: "offset_date_time \<Rightarrow> call_env" where
  "example_env t = \<lparr>ce_now = t, ce_vars = (\<lambda>n. if n = ''AWS_ACCESS_KEY_ID'' then Some (Inr ''AKID'')
     else if n = ''AWS_SECRET_ACCESS_KEY'' then Some (Inr ''secret'') else None)\<rparr>"

theorem cached_sources_well_formed_witness:
  "well_formed \<lparr>access_key_id = ''AKID'', secret_access_key = ''secret'', session_token = None, expires_at = None\<rparr>"
proof (rule cached_sources_well_formed[where sat_add = "\<lambda>t d. t + int d" and envs = "[example_env 0]" and before = 60
      and resolve = "\<lambda>_ s. (Inl ''NoCredentials'', s)" and chain = "()"], rule disjI1)
  show "Inr \<lparr>access_key_id = ''AKID'', secret_access_key = ''secret'', session_token = None, expires_at = None\<rparr>
    \<in> set (fst (provide_all (provide_cached (\<lambda>t d. t + int d) provide_environment) [example_env 0]
        (cached_with_refresh_before () 60)))"
    by (simp add: provide_cached_def fresh_cached_def cached_with_refresh_before_def provide_environment_def
        read_required_env_def read_optional_env_def example_env_def credentials_new_def with_expiration_def)
qed

section \<open>Refreshing\<close>

lemma provide_cached_hit:
  "fresh_cached sat_add p (ce_now env) = Some c \<Longrightarrow> provide_cached sat_add provide env p = (Inr c, p)"
  by (simp add: provide_cached_def)

text \<open>
  A call never hands out an expired credential of its own: what it returns was either
  answered by the wrapped provider in this very call, or it is the cached credential and has not expired; it
  is the wrapped provider's error only when nothing unexpired is cached; and while the cached credential
  outlives the refresh window the wrapped provider is not consulted and the cache does not change.
\<close>

lemma provide_cached_spec:
  assumes "\<And>t d. t \<le> sat_add t d" and "provide_cached sat_add provide env p = (r, p')"
  shows "(\<forall>c. r = Inr c \<longrightarrow>
      (cp_cached p = Some c \<and> \<not> expires_by c (ce_now env)) \<or> fst (provide env (cp_inner p)) = Inr c) \<and>
    (\<forall>e. r = Inl e \<longrightarrow> fst (provide env (cp_inner p)) = Inl e \<and>
      (\<forall>c. cp_cached p = Some c \<longrightarrow> expires_by c (ce_now env))) \<and>
    (\<forall>c. fresh_cached sat_add p (ce_now env) = Some c \<longrightarrow> r = Inr c \<and> p' = p) \<and>
    cp_refresh_before p' = cp_refresh_before p"
proof (cases "fresh_cached sat_add p (ce_now env)")
  case (Some c)
  then have "cp_cached p = Some c" "\<not> expires_by c (sat_add (ce_now env) (cp_refresh_before p))"
    by (auto simp: fresh_cached_def refresh_deadline_def split: option.splits if_splits)
  moreover then have "\<not> expires_by c (ce_now env)"
    using assms(1)[of "ce_now env" "cp_refresh_before p"] by (auto simp: expires_by_def split: option.splits)
  ultimately show ?thesis using assms(2) Some by (auto simp: provide_cached_hit)
next
  case None
  obtain q inner where p: "provide env (cp_inner p) = (q, inner)" by fastforce
  from None assms(2) p show ?thesis
    by (cases q) (auto simp: provide_cached_def split: option.splits if_splits)
qed

lemma provide_cached_spec_witness:
  "fst (provide_cached (\<lambda>t d. t + int d) provide_environment (example_env 5)
     \<lparr>cp_inner = (), cp_refresh_before = 60, cp_cached = Some \<lparr>access_key_id = ''A'', secret_access_key = ''s'',
        session_token = None, expires_at = None\<rparr>\<rparr>) =
   Inr \<lparr>access_key_id = ''A'', secret_access_key = ''s'', session_token = None, expires_at = None\<rparr>"
proof -
  let ?c = "\<lparr>access_key_id = ''A'', secret_access_key = ''s'', session_token = None, expires_at = None\<rparr>"
  let ?p = "\<lparr>cp_inner = (), cp_refresh_before = 60, cp_cached = Some ?c\<rparr>"
  have "fresh_cached (\<lambda>t d. t + int d) ?p (ce_now (example_env 5)) = Some ?c"
    by (simp add: fresh_cached_def expires_by_def)
  with provide_cached_spec[where sat_add = "\<lambda>t d. t + int d" and p = ?p and env = "example_env 5"
      and provide = provide_environment, OF _ surjective_pairing]
  show ?thesis by simp
qed

text \<open>
  Counting the calls to the wrapped provider: it is instrumented with a counter in its state.
\<close>

definition counted :: "(call_env \<Rightarrow> 's \<Rightarrow> (s3_error + credentials) \<times> 's) \<Rightarrow> call_env \<Rightarrow> 's \<times> nat
    \<Rightarrow> (s3_error + credentials) \<times> ('s \<times> nat)" where
  "counted provide env s = (let (r, s') = provide env (fst s) in (r, (s', Suc (snd s))))"

lemma provide_all_hits:
  assumes "\<forall>env \<in> set envs. fresh_cached sat_add p (ce_now env) = Some c"
  shows "provide_all (provide_cached sat_add provide) envs p = (map (\<lambda>_. Inr c) envs, p)"
  using assms by (induction envs) (simp_all add: provide_cached_hit)

text \<open>
  There is no refresh storm: when the cache is empty and the first caller's refresh gives a
  credential that outlives the refresh window of every caller that was waiting for the lock, the wrapped
  provider is called exactly once and all of them get that credential.
\<close>

lemma refresh_is_coalesced:
  assumes "fst (provide env s) = Inr c"
    and "\<forall>e \<in> set envs. \<not> expires_by c (sat_add (ce_now e) before)"
  shows "fst (provide_all (provide_cached sat_add (counted provide)) (env # envs) (cached_with_refresh_before (s, 0) before)) =
      replicate (Suc (length envs)) (Inr c) \<and>
    snd (cp_inner (snd (provide_all (provide_cached sat_add (counted provide)) (env # envs)
      (cached_with_refresh_before (s, 0) before)))) = 1"
proof -
  obtain s' where s': "provide env s = (Inr c, s')" using assms(1) by (cases "provide env s") auto
  let ?p = "\<lparr>cp_inner = (s', Suc 0), cp_refresh_before = before, cp_cached = Some c\<rparr>"
  have first: "provide_cached sat_add (counted provide) env (cached_with_refresh_before (s, 0) before) = (Inr c, ?p)"
    by (simp add: provide_cached_def fresh_cached_def cached_with_refresh_before_def counted_def s')
  have "\<forall>e \<in> set envs. fresh_cached sat_add ?p (ce_now e) = Some c"
    using assms(2) by (simp add: fresh_cached_def refresh_deadline_def)
  from provide_all_hits[OF this] first show ?thesis
    by (simp add: map_replicate_const)
qed

lemma refresh_is_coalesced_witness:
  "snd (cp_inner (snd (provide_all (provide_cached (\<lambda>t d. t + int d) (counted provide_environment))
      [example_env 0, example_env 3, example_env 9] (cached_with_refresh_before ((), 0) 60)))) = 1"
  by (rule refresh_is_coalesced[where provide = provide_environment and env = "example_env 0" and s = "()"
        and c = "\<lparr>access_key_id = ''AKID'', secret_access_key = ''secret'', session_token = None, expires_at = None\<rparr>",
        THEN conjunct2])
    (simp_all add: provide_environment_def read_required_env_def read_optional_env_def example_env_def
      credentials_new_def with_expiration_def expires_by_def)

end
