(* ===== verification/Checksums.thy ===== *)
theory Checksums
  imports Operation_Types
begin

unbundle bit_operations_syntax

text \<open>
  Local checksum calculation, \<open>src/operation/checksum.rs\<close>: the lookup tables, the table-driven
  update of a CRC state, CRC-32, CRC-32C and CRC-64/NVME, and the two entry points, one over the
  whole buffer and one that works in chunks and yields between them. The Base64 engine and SHA-256
  are crates outside the repository and are fields of a record of parameters.
\<close>

section \<open>The algorithm\<close>

text \<open>One turn of the inner table loop: shift right, and add the polynomial if a one fell out.\<close>

definition crc_bit :: "'l::len word \<Rightarrow> 'l word \<Rightarrow> 'l word" where
  "crc_bit polynomial v =
     (if v AND 1 = 0 then drop_bit 1 v else drop_bit 1 v XOR polynomial)"

definition crc32_table :: "u32 \<Rightarrow> u32 list" where
  "crc32_table polynomial = map (\<lambda>index. (crc_bit polynomial ^^ 8) (of_nat index)) [0..<256]"

definition crc64_table :: "u64 \<Rightarrow> u64 list" where
  "crc64_table polynomial = map (\<lambda>index. (crc_bit polynomial ^^ 8) (of_nat index)) [0..<256]"

definition CRC32_TABLE :: "u32 list" where "CRC32_TABLE = crc32_table 0xedb88320"
definition CRC32C_TABLE :: "u32 list" where "CRC32C_TABLE = crc32_table 0x82f63b78"
definition CRC64_NVME_TABLE :: "u64 list" where "CRC64_NVME_TABLE = crc64_table 0x9a6c9329ac4bc9b5"

abbreviation byte :: "char \<Rightarrow> u8" where "byte c \<equiv> of_char c"

primrec update_crc32_state :: "u32 list \<Rightarrow> u32 \<Rightarrow> string \<Rightarrow> u32" where
  "update_crc32_state table v [] = v"
| "update_crc32_state table v (c # bytes) =
     (let index = unat ((ucast v :: u8) XOR byte c) in
      update_crc32_state table ((table ! index) XOR drop_bit 8 v) bytes)"

definition update_crc32 :: "u32 list \<Rightarrow> string \<Rightarrow> u32" where
  "update_crc32 table bytes = NOT (update_crc32_state table (- 1) bytes)"

definition crc32 :: "string \<Rightarrow> u32" where "crc32 bytes = update_crc32 CRC32_TABLE bytes"

definition crc32c :: "string \<Rightarrow> u32" where "crc32c bytes = update_crc32 CRC32C_TABLE bytes"

primrec update_crc64_state :: "u64 \<Rightarrow> string \<Rightarrow> u64" where
  "update_crc64_state v [] = v"
| "update_crc64_state v (c # bytes) =
     (let index = unat ((ucast v :: u8) XOR byte c) in
      update_crc64_state ((CRC64_NVME_TABLE ! index) XOR drop_bit 8 v) bytes)"

definition crc64_nvme :: "string \<Rightarrow> u64" where
  "crc64_nvme bytes = NOT (update_crc64_state (- 1) bytes)"

text \<open>\<open>to_be_bytes\<close> of a word of \<open>n\<close> bytes.\<close>

definition to_be_bytes :: "nat \<Rightarrow> 'l::len word \<Rightarrow> string" where
  "to_be_bytes n v = map (\<lambda>i. char_of (unat (drop_bit (8 * i) v AND 255))) (rev [0..<n])"

text \<open>
  The crates: Base64 with the standard alphabet, SHA-256 of a buffer, and the incremental digest
  with its start state, update and finalisation.
\<close>

record 'd checksum_ext =
  ce_base64 :: "string \<Rightarrow> string"
  ce_sha256 :: "string \<Rightarrow> string"
  ce_digest_new :: 'd
  ce_digest_update :: "'d \<Rightarrow> string \<Rightarrow> 'd"
  ce_digest_finalize :: "'d \<Rightarrow> string"

text \<open>
  What the digest crate documents: finalising after any sequence of updates gives the digest of the
  concatenation of the pieces.
\<close>

definition digest_documented :: "'d checksum_ext \<Rightarrow> bool" where
  "digest_documented X \<longleftrightarrow>
     (\<forall>pieces. ce_digest_finalize X (foldl (ce_digest_update X) (ce_digest_new X) pieces) =
        ce_sha256 X (concat pieces))"

datatype checksum_calculation_error = ChecksumCalculationError (failed_algorithm: checksum_algorithm)

definition calculate :: "'d checksum_ext \<Rightarrow> checksum_algorithm \<Rightarrow> string \<Rightarrow> checksum_calculation_error + checksum" where
  "calculate X algorithm bytes = (case algorithm of
     Crc32 \<Rightarrow> Inr (no_checksum\<lparr>crc32_value := Some (ce_base64 X (to_be_bytes 4 (crc32 bytes)))\<rparr>)
   | Crc32c \<Rightarrow> Inr (no_checksum\<lparr>crc32c_value := Some (ce_base64 X (to_be_bytes 4 (crc32c bytes)))\<rparr>)
   | Crc64Nvme \<Rightarrow> Inr (no_checksum\<lparr>crc64_nvme_value := Some (ce_base64 X (to_be_bytes 8 (crc64_nvme bytes)))\<rparr>)
   | Sha256 \<Rightarrow> Inr (no_checksum\<lparr>sha256_value := Some (ce_base64 X (ce_sha256 X bytes))\<rparr>)
   | Sha1 \<Rightarrow> Inl (ChecksumCalculationError algorithm))"

definition CHUNK_SIZE :: nat where "CHUNK_SIZE = 256 * 1024"

text \<open>\<open>slice::chunks\<close> with a positive size: pieces of that size, the last one shorter.\<close>

function chunks :: "nat \<Rightarrow> 'a list \<Rightarrow> 'a list list" where
  "chunks n xs = (if xs = [] \<or> n = 0 then [] else take n xs # chunks n (drop n xs))"
  by pat_completeness auto
termination by (relation "measure (length o snd)") auto

declare chunks.simps [simp del]

text \<open>The nested matches of the code, with arms marked unreachable, as one case analysis on the algorithm.\<close>

definition calculate_cooperatively ::
  "'d checksum_ext \<Rightarrow> checksum_algorithm \<Rightarrow> string \<Rightarrow> checksum_calculation_error + checksum" where
  "calculate_cooperatively X algorithm bytes =
     (let crc = (\<lambda>table. ce_base64 X (to_be_bytes 4
            (NOT (foldl (update_crc32_state table) (- 1) (chunks CHUNK_SIZE bytes))))) in
      case algorithm of
        Crc32 \<Rightarrow> Inr (no_checksum\<lparr>crc32_value := Some (crc CRC32_TABLE)\<rparr>)
      | Crc32c \<Rightarrow> Inr (no_checksum\<lparr>crc32c_value := Some (crc CRC32C_TABLE)\<rparr>)
      | Crc64Nvme \<Rightarrow> Inr (no_checksum\<lparr>crc64_nvme_value := Some (ce_base64 X (to_be_bytes 8
            (NOT (foldl update_crc64_state (- 1) (chunks CHUNK_SIZE bytes)))))\<rparr>)
      | Sha256 \<Rightarrow> Inr (no_checksum\<lparr>sha256_value := Some (ce_base64 X (ce_digest_finalize X
            (foldl (ce_digest_update X) (ce_digest_new X) (chunks CHUNK_SIZE bytes))))\<rparr>)
      | Sha1 \<Rightarrow> Inl (ChecksumCalculationError algorithm))"

section \<open>The bitwise reference\<close>

text \<open>
  The definition of a reflected CRC without tables: add the byte to the low end of the state, then
  eight single-bit steps.
\<close>

definition crc_byte :: "'l::len word \<Rightarrow> 'l word \<Rightarrow> char \<Rightarrow> 'l word" where
  "crc_byte polynomial v c = (crc_bit polynomial ^^ 8) (v XOR ucast (byte c))"

definition crc_reference :: "'l::len word \<Rightarrow> string \<Rightarrow> 'l word" where
  "crc_reference polynomial bytes = NOT (foldl (crc_byte polynomial) (- 1) bytes)"

lemma crc_bit_alt: "crc_bit p v = drop_bit 1 v XOR (if bit v 0 then p else 0)"
  by (simp add: crc_bit_def and_one_eq odd_iff_mod_2_eq_one bit_0)

lemma drop_bit_xor: "drop_bit n (a XOR b) = drop_bit n a XOR drop_bit n (b :: 'l::len word)"
  by (rule bit_word_eqI) (simp add: bit_drop_bit_eq bit_xor_iff)

lemma xor_right_cancel: "a XOR c = b XOR c \<longleftrightarrow> a = (b :: 'l::len word)"
  by (metis xor.assoc xor.right_neutral xor_self_eq)

lemma crc_bit_xor: "crc_bit p (a XOR b) = crc_bit p a XOR crc_bit p b"
  by (rule bit_word_eqI) (auto simp: crc_bit_alt drop_bit_xor bit_xor_iff)

lemma crc_bits_xor: "(crc_bit p ^^ n) (a XOR b) = (crc_bit p ^^ n) a XOR (crc_bit p ^^ n) b"
  by (induction n) (simp_all add: crc_bit_xor)

lemma crc_bits_high:
  "(\<And>i. i < n \<Longrightarrow> \<not> bit v i) \<Longrightarrow> (crc_bit p ^^ n) v = drop_bit n (v :: 'l::len word)"
proof (induction n)
  case (Suc n)
  then have "(crc_bit p ^^ n) v = drop_bit n v" by simp
  moreover have "\<not> bit (drop_bit n v) 0" using Suc.prems[of n] by (simp add: bit_drop_bit_eq)
  ultimately show ?case by (simp add: crc_bit_alt[of p "drop_bit n v"])
qed simp

text \<open>Eight steps depend on the low byte through the table and on the rest through a shift.\<close>

lemma crc_bits_split:
  "(crc_bit p ^^ 8) v = (crc_bit p ^^ 8) (v AND 255) XOR drop_bit 8 (v :: 'l::len word)"
proof -
  have m: "(255 :: 'l word) = mask 8" by (simp add: mask_eq_exp_minus_1)
  have "v = (v AND 255) XOR (v AND NOT 255)" unfolding m
    by (rule bit_word_eqI) (auto simp: bit_xor_iff bit_and_iff bit_not_iff bit_mask_iff)
  then have "(crc_bit p ^^ 8) v = (crc_bit p ^^ 8) (v AND 255) XOR (crc_bit p ^^ 8) (v AND NOT 255)"
    by (metis crc_bits_xor)
  moreover have "(crc_bit p ^^ 8) (v AND NOT 255) = drop_bit 8 (v AND NOT 255)"
    by (rule crc_bits_high) (auto simp: m bit_and_iff bit_not_iff bit_mask_iff)
  moreover have "drop_bit 8 (v AND NOT 255) = drop_bit 8 v"
    by (rule bit_word_eqI)
      (auto simp: m bit_drop_bit_eq bit_and_iff bit_not_iff bit_mask_iff dest: bit_imp_le_length)
  ultimately show ?thesis by simp
qed


lemma ucast_low_byte:
  fixes v :: "'l::len word" and b :: u8
  assumes "8 \<le> LENGTH('l)"
  shows "ucast ((ucast v :: u8) XOR b) = ((v XOR ucast b) AND 255)"
proof -
  have m: "(255 :: 'l word) = mask 8" by (simp add: mask_eq_exp_minus_1)
  show ?thesis unfolding m
    by (rule bit_word_eqI)
      (auto simp: bit_ucast_iff bit_and_iff bit_xor_iff bit_mask_iff dest: bit_imp_le_length)
qed

lemma drop_bit_ucast_byte: "drop_bit 8 (ucast (b :: u8) :: 'l::len word) = 0"
  by (rule bit_word_eqI) (auto simp: bit_drop_bit_eq bit_ucast_iff dest: bit_imp_le_length)

lemma table_step:
  fixes v p :: "'l::len word"
  assumes "8 \<le> LENGTH('l)" and "table = map (\<lambda>index. (crc_bit p ^^ 8) (of_nat index)) [0..<256]"
  shows "(table ! unat ((ucast v :: u8) XOR byte c)) XOR drop_bit 8 v = crc_byte p v c"
proof -
  let ?i = "(ucast v :: u8) XOR byte c"
  have "unat ?i < 2 ^ LENGTH(8)" by (rule unsigned_less)
  then have "unat ?i < 256" by simp
  then have "table ! unat ?i = (crc_bit p ^^ 8) (of_nat (unat ?i))"
    using assms(2) by simp
  also have "\<dots> = (crc_bit p ^^ 8) ((v XOR ucast (byte c)) AND 255)"
    by (simp only: of_nat_unat ucast_low_byte[OF assms(1)])
  finally show ?thesis
    using crc_bits_split[of p "v XOR ucast (byte c)"]
    by (simp add: crc_byte_def drop_bit_xor drop_bit_ucast_byte)
qed


lemma update_crc32_state_eq:
  "update_crc32_state (crc32_table p) v bytes = foldl (crc_byte p) v bytes"
  by (induction bytes arbitrary: v)
    (simp_all add: Let_def table_step[where 'l = 32, OF _ crc32_table_def])

lemma update_crc64_state_eq:
  "update_crc64_state v bytes = foldl (crc_byte 0x9a6c9329ac4bc9b5) v bytes"
  by (induction bytes arbitrary: v)
    (simp_all add: Let_def table_step[where 'l = 64, OF _ crc64_table_def] CRC64_NVME_TABLE_def)

lemma table_crc_reference:
  "crc32 bytes = crc_reference 0xedb88320 bytes"
  "crc32c bytes = crc_reference 0x82f63b78 bytes"
  "crc64_nvme bytes = crc_reference 0x9a6c9329ac4bc9b5 bytes"
  by (simp_all add: crc32_def crc32c_def crc64_nvme_def update_crc32_def CRC32_TABLE_def CRC32C_TABLE_def
      update_crc32_state_eq update_crc64_state_eq crc_reference_def)

text \<open>
  Property C34. The table-driven checksums are the CRCs they claim to be: CRC-32, CRC-32C and
  CRC-64/NVME computed with the lookup tables equal the bit-by-bit definition of the reflected CRC
  with the standard polynomial, for every byte sequence.
\<close>

theorem table_crc_is_reference:
  "crc32 bytes = crc_reference 0xedb88320 bytes \<and>
   crc32c bytes = crc_reference 0x82f63b78 bytes \<and>
   crc64_nvme bytes = crc_reference 0x9a6c9329ac4bc9b5 bytes"
  by (simp only: table_crc_reference)

section \<open>Chunked calculation\<close>

lemma concat_chunks: "0 < n \<Longrightarrow> concat (chunks n xs) = xs"
proof (induction n xs rule: chunks.induct)
  case (1 n xs)
  show ?case
  proof (cases "xs = []")
    case False
    with 1 have "concat (chunks n (drop n xs)) = drop n xs" by simp
    with False 1 show ?thesis by (subst chunks.simps) simp
  qed (simp add: chunks.simps)
qed

lemma foldl_update_crc32: "foldl (update_crc32_state t) v ps = update_crc32_state t v (concat ps)"
proof (induction ps arbitrary: v)
  case (Cons p ps)
  have "update_crc32_state t v (xs @ ys) = update_crc32_state t (update_crc32_state t v xs) ys" for xs ys v
    by (induction xs arbitrary: v) (simp_all add: Let_def)
  with Cons show ?case by simp
qed simp

lemma foldl_update_crc64: "foldl update_crc64_state v ps = update_crc64_state v (concat ps)"
  unfolding update_crc64_state_eq by (induction ps arbitrary: v) simp_all

text \<open>
  Yielding between chunks does not change the checksum: the cooperative calculation
  gives what the direct one gives, for every algorithm and every buffer, the refusal of SHA-1
  included, when the digest crate's incremental interface behaves as documented.
\<close>

lemma calculate_cooperatively_eq:
  assumes "digest_documented X"
  shows "calculate_cooperatively X algorithm bytes = calculate X algorithm bytes"
proof -
  have c: "concat (chunks CHUNK_SIZE bytes) = bytes"
    by (rule concat_chunks) (simp add: CHUNK_SIZE_def)
  with assms show ?thesis
    by (cases algorithm)
      (simp_all add: calculate_cooperatively_def calculate_def Let_def foldl_update_crc32
        foldl_update_crc64 crc32_def crc32c_def crc64_nvme_def update_crc32_def digest_documented_def)
qed

text \<open>A stand-in for the crates: the digest state is the text so far.\<close>

definition text_ext :: "string checksum_ext" where
  "text_ext = \<lparr>ce_base64 = id, ce_sha256 = rev, ce_digest_new = [],
     ce_digest_update = (\<lambda>d s. d @ s), ce_digest_finalize = rev\<rparr>"

lemma text_ext_documented: "digest_documented text_ext"
proof -
  have "foldl (@) d ps = d @ concat ps" for d :: string and ps
    by (induction ps arbitrary: d) simp_all
  then show ?thesis by (simp add: digest_documented_def text_ext_def)
qed

lemma calculate_cooperatively_eq_witness:
  "digest_documented text_ext \<and>
   calculate_cooperatively text_ext Sha256 ''abc'' = calculate text_ext Sha256 ''abc''"
  using text_ext_documented calculate_cooperatively_eq[OF text_ext_documented] by blast

section \<open>Error detection\<close>

text \<open>A polynomial with its top bit set makes one step, and so the whole update, injective.\<close>

lemma crc_bit_inj:
  fixes p :: "'l::len word"
  assumes "bit p (LENGTH('l) - 1)"
  shows "inj (crc_bit p)"
proof (rule injI)
  fix v w assume e: "crc_bit p v = crc_bit p w"
  have z: "\<not> bit (drop_bit 1 x) (LENGTH('l) - 1)" for x :: "'l word"
    using bit_imp_le_length[of x "LENGTH('l)"] by (auto simp: bit_drop_bit_eq)
  have "bit (crc_bit p v) (LENGTH('l) - 1) = bit (crc_bit p w) (LENGTH('l) - 1)" by (simp only: e)
  then have b: "bit v 0 = bit w 0"
    using assms z[of v] z[of w] by (simp add: crc_bit_alt bit_xor_iff split: if_splits)
  have "drop_bit 1 v = drop_bit 1 w"
  proof (rule bit_word_eqI)
    fix n
    have "bit (crc_bit p v) n = bit (crc_bit p w) n" by (simp only: e)
    then show "bit (drop_bit 1 v) n = bit (drop_bit 1 w) n"
      using b by (auto simp: crc_bit_alt bit_xor_iff split: if_splits)
  qed
  then have "bit v (Suc n) = bit w (Suc n)" for n
    by (metis bit_drop_bit_eq plus_1_eq_Suc comp_apply)
  with b show "v = w" by (intro bit_word_eqI) (metis not0_implies_Suc)
qed

lemma crc_byte_inj:
  fixes p :: "'l::len word"
  assumes "bit p (LENGTH('l) - 1)"
  shows "inj (\<lambda>v. crc_byte p v c)"
proof -
  have "inj (crc_bit p ^^ 8)" using crc_bit_inj[OF assms] by (rule inj_fn)
  then show ?thesis
    unfolding crc_byte_def by (intro injI) (metis injD xor_right_cancel)
qed

lemma foldl_crc_byte_inj:
  fixes p :: "'l::len word"
  assumes "bit p (LENGTH('l) - 1)"
  shows "foldl (crc_byte p) v s = foldl (crc_byte p) w s \<Longrightarrow> v = w"
  by (induction s arbitrary: v w) (auto dest: injD[OF crc_byte_inj[OF assms]])

lemma byte_inj: "byte c = byte d \<Longrightarrow> c = d"
proof -
  assume "byte c = byte d"
  moreover have "unat (byte x) = of_char x" for x
  proof -
    have "unat (of_nat (of_char x) :: u8) = of_char x" by (simp add: unat_of_nat)
    then show ?thesis by (simp only: of_nat_of_char)
  qed
  ultimately have "(of_char c :: nat) = of_char d" by metis
  then show "c = d" by simp
qed

lemma ucast_byte_inj:
  fixes b b' :: u8
  assumes "8 \<le> LENGTH('l::len)" and "(ucast b :: 'l word) = ucast b'"
  shows "b = b'"
proof (rule bit_word_eqI)
  fix n assume n: "n < LENGTH(8)"
  have "bit (ucast b :: 'l word) n = bit (ucast b' :: 'l word) n" by (simp only: assms(2))
  with n assms(1) show "bit b n = bit b' n" by (simp only: bit_ucast_iff) simp
qed

lemma crc_detects_byte:
  fixes p :: "'l::len word"
  assumes "bit p (LENGTH('l) - 1)" and "8 \<le> LENGTH('l)" and "c \<noteq> d"
  shows "crc_reference p (xs @ c # ys) \<noteq> crc_reference p (xs @ d # ys)"
proof
  assume "crc_reference p (xs @ c # ys) = crc_reference p (xs @ d # ys)"
  then have "crc_byte p (foldl (crc_byte p) (- 1) xs) c = crc_byte p (foldl (crc_byte p) (- 1) xs) d"
    by (auto simp: crc_reference_def dest: foldl_crc_byte_inj[OF assms(1)])
  moreover have "inj (crc_bit p ^^ 8)" using crc_bit_inj[OF assms(1)] by (rule inj_fn)
  ultimately have "foldl (crc_byte p) (- 1) xs XOR ucast (byte c) = foldl (crc_byte p) (- 1) xs XOR ucast (byte d)"
    by (auto simp: crc_byte_def dest: injD)
  then have "(ucast (byte c) :: 'l word) = ucast (byte d)" by (simp only: xor.commute[of "foldl _ _ _"] xor_right_cancel)
  then have "byte c = byte d" by (rule ucast_byte_inj[OF assms(2)])
  with assms(3) byte_inj show False by blast
qed

text \<open>
  A changed byte changes the checksum: for each of the three CRCs two buffers of the
  same length that differ in exactly one byte have different checksums.
\<close>

lemma crc_detects_changed_byte:
  assumes "c \<noteq> d"
  shows "crc32 (xs @ c # ys) \<noteq> crc32 (xs @ d # ys) \<and> crc32c (xs @ c # ys) \<noteq> crc32c (xs @ d # ys) \<and>
    crc64_nvme (xs @ c # ys) \<noteq> crc64_nvme (xs @ d # ys)"
  unfolding table_crc_reference by (intro conjI crc_detects_byte assms) simp_all

lemma crc_detects_changed_byte_witness:
  "crc32 ''s3-wire'' \<noteq> crc32 ''s3-wise''"
  using crc_detects_changed_byte[of "CHR ''r''" "CHR ''s''" "''s3-wi''" "''e''"] by simp

end
