(* ===== verification/Stream_Core.thy ===== *)
theory Stream_Core
  imports Checksums
begin

text \<open>
  What the upload body and the download stream share: a poll either is pending or yields an item,
  an error or the end. A stream given by the outside is the list of the events its polls produce,
  one per poll; polling past the list is the end of the stream. The locale \<open>stream_machine\<close> is
  the contract of a component that is driven by polls: a step under an input keeps an invariant of
  the state, the bytes delivered so far and whether an error was delivered; its lemma carries the
  invariant over every sequence of polls. The upload body and the download stream interpret it.
\<close>

datatype poll_event = PollChunk string | PollError s3_error | PollPending

datatype frame_poll = FramePending | FrameEnd | FrameError s3_error | FrameData string

fun bytes_of :: "frame_poll \<Rightarrow> string" where
  "bytes_of (FrameData b) = b"
| "bytes_of _ = []"

fun is_error :: "frame_poll \<Rightarrow> bool" where
  "is_error (FrameError _) \<longleftrightarrow> True"
| "is_error _ \<longleftrightarrow> False"

text \<open>Polling once per input of a list.\<close>

fun polls :: "('i \<Rightarrow> 's \<Rightarrow> frame_poll \<times> 's) \<Rightarrow> 'i list \<Rightarrow> 's \<Rightarrow> frame_poll list \<times> 's" where
  "polls step [] s = ([], s)"
| "polls step (i # inputs) s =
     (let (out, s1) = step i s; (outs, s2) = polls step inputs s1 in (out # outs, s2))"

definition delivered :: "frame_poll list \<Rightarrow> string" where
  "delivered outs = concat (map bytes_of outs)"

lemma delivered_simps [simp]:
  "delivered [] = []" "delivered (out # outs) = bytes_of out @ delivered outs"
  by (simp_all add: delivered_def)

text \<open>The pieces a stream carries and whether it reports an error.\<close>

fun piece_of :: "poll_event \<Rightarrow> string list" where
  "piece_of (PollChunk c) = (if c = [] then [] else [c])"
| "piece_of _ = []"

definition pieces :: "poll_event list \<Rightarrow> string list" where
  "pieces events = concat (map piece_of events)"

definition content :: "poll_event list \<Rightarrow> string" where
  "content events = concat (pieces events)"

fun faulty :: "poll_event \<Rightarrow> bool" where
  "faulty (PollError _) \<longleftrightarrow> True"
| "faulty _ \<longleftrightarrow> False"

lemma pieces_simps [simp]:
  "pieces [] = []" "pieces (e # es) = piece_of e @ pieces es" "pieces (es @ fs) = pieces es @ pieces fs"
  by (simp_all add: pieces_def)

lemma content_simps [simp]:
  "content [] = []" "content (e # es) = concat (piece_of e) @ content es"
  "content (es @ fs) = content es @ content fs"
  by (simp_all add: content_def)

text \<open>The digest state after a sequence of updates, and what it finalises to.\<close>

definition hashed :: "'d checksum_ext \<Rightarrow> string list \<Rightarrow> 'd" where
  "hashed X ps = foldl (ce_digest_update X) (ce_digest_new X) ps"

lemma hashed_simps [simp]:
  "hashed X [] = ce_digest_new X" "hashed X (ps @ [p]) = ce_digest_update X (hashed X ps) p"
  by (simp_all add: hashed_def)

lemma finalize_hashed: "digest_documented X \<Longrightarrow> ce_digest_finalize X (hashed X ps) = ce_sha256 X (concat ps)"
  by (simp add: digest_documented_def hashed_def)

locale stream_machine =
  fixes step :: "'i \<Rightarrow> 's \<Rightarrow> frame_poll \<times> 's"
    and inv :: "'s \<Rightarrow> string \<Rightarrow> bool \<Rightarrow> bool"
  assumes step_inv: "inv s del err \<Longrightarrow> step i s = (out, s') \<Longrightarrow> inv s' (del @ bytes_of out) (err \<or> is_error out)"
begin

lemma polls_inv:
  "inv s del err \<Longrightarrow> polls step inputs s = (outs, s') \<Longrightarrow>
     inv s' (del @ delivered outs) (err \<or> list_ex is_error outs)"
proof (induction inputs arbitrary: s s' del err outs)
  case (Cons i inputs)
  obtain out s1 where 1: "step i s = (out, s1)" by fastforce
  obtain outs' s2 where 2: "polls step inputs s1 = (outs', s2)" by fastforce
  from Cons.prems(2) 1 2 have o: "outs = out # outs'" "s' = s2" by simp_all
  have "inv s1 (del @ bytes_of out) (err \<or> is_error out)"
    using step_inv Cons.prems(1) 1 by blast
  from Cons.IH[OF this 2] o show ?case by simp
qed simp

lemma reachable_inv: "inv s [] False \<Longrightarrow> polls step inputs s = (outs, s') \<Longrightarrow> inv s' (delivered outs) (list_ex is_error outs)"
  using polls_inv[of s "[]" False] by simp

end

end
