(* ===== verification/Upload_Stream.thy ===== *)
theory Upload_Stream
  imports Stream_Core
begin

text \<open>
  Upload bodies, \<open>src/stream/upload.rs\<close>: the caller's \<open>ByteStream\<close>, its preparation into a body of
  known length and digest, and \<open>TransportBody\<close>, the HTTP body handed to the transport, whose
  \<open>poll_frame\<close> withholds the last chunk until the stream has ended and its digest matches. Files
  are read through a private snapshot (\<open>src/stream/snapshot.rs\<close>); opening and reading files are
  parameters of the model.
\<close>

section \<open>The transport body\<close>

record 'd transport_body =
  tb_stream :: "poll_event list"
  tb_remaining :: nat
  tb_expected_sha256 :: string
  tb_hasher :: 'd
  tb_final_chunk :: "string option"
  tb_finished :: bool

definition transport_body_new :: "'d checksum_ext \<Rightarrow> poll_event list \<Rightarrow> nat \<Rightarrow> string \<Rightarrow> 'd transport_body" where
  "transport_body_new X stream len sha = \<lparr>tb_stream = stream, tb_remaining = len,
     tb_expected_sha256 = sha, tb_hasher = ce_digest_new X, tb_final_chunk = None, tb_finished = False\<rparr>"

definition transport_body_empty :: "'d checksum_ext \<Rightarrow> 'd transport_body" where
  "transport_body_empty X = transport_body_new X [] 0 (ce_sha256 X [])"

text \<open>
  The loop of \<open>poll_frame\<close>, over the events still to come. A chunk's length always fits in \<open>u64\<close> on
  supported targets, so that conversion has no branch.
\<close>

definition fail_body :: "poll_event list \<Rightarrow> 'd transport_body \<Rightarrow> 'd transport_body" where
  "fail_body rest b = b\<lparr>tb_stream := rest, tb_finished := True, tb_remaining := 0, tb_final_chunk := None\<rparr>"

fun poll_frame_loop :: "'d checksum_ext \<Rightarrow> poll_event list \<Rightarrow> 'd transport_body \<Rightarrow> frame_poll \<times> 'd transport_body" where
  "poll_frame_loop X [] b =
     (case tb_final_chunk b of
        Some chunk \<Rightarrow>
          if ce_digest_finalize X (tb_hasher b) \<noteq> tb_expected_sha256 b
          then (FrameError (integrity ''upload bytes did not match the signed payload digest''), fail_body [] b)
          else (FrameData chunk, b\<lparr>tb_stream := [], tb_finished := True, tb_remaining := 0, tb_final_chunk := None\<rparr>)
      | None \<Rightarrow>
          if tb_remaining b \<noteq> 0
          then (FrameError (integrity ''upload ended before its declared content length''),
                b\<lparr>tb_stream := [], tb_finished := True, tb_remaining := 0\<rparr>)
          else if ce_digest_finalize X (tb_hasher b) = tb_expected_sha256 b
          then (FrameEnd, b\<lparr>tb_stream := [], tb_finished := True\<rparr>)
          else (FrameError (integrity ''upload bytes did not match the signed payload digest''),
                b\<lparr>tb_stream := [], tb_finished := True\<rparr>))"
| "poll_frame_loop X (PollPending # es) b = (FramePending, b\<lparr>tb_stream := es\<rparr>)"
| "poll_frame_loop X (PollError e # es) b = (FrameError (transport ''std::io::error::Error''), fail_body es b)"
| "poll_frame_loop X (PollChunk chunk # es) b =
     (if chunk = [] then poll_frame_loop X es b
      else case tb_final_chunk b of
        Some _ \<Rightarrow> (FrameError (integrity ''upload exceeded its declared content length''), fail_body es b)
      | None \<Rightarrow>
          if length chunk > tb_remaining b
          then (FrameError (integrity ''upload exceeded its declared content length''),
                b\<lparr>tb_stream := es, tb_finished := True, tb_remaining := 0\<rparr>)
          else let h = ce_digest_update X (tb_hasher b) chunk in
            if length chunk = tb_remaining b
            then poll_frame_loop X es (b\<lparr>tb_hasher := h, tb_final_chunk := Some chunk\<rparr>)
            else (FrameData chunk,
                  b\<lparr>tb_stream := es, tb_hasher := h, tb_remaining := tb_remaining b - length chunk\<rparr>))"

text \<open>The input of a poll is the task context, which does not influence the result.\<close>

definition poll_frame :: "'d checksum_ext \<Rightarrow> unit \<Rightarrow> 'd transport_body \<Rightarrow> frame_poll \<times> 'd transport_body" where
  "poll_frame X ctx b = (if tb_finished b then (FrameEnd, b) else poll_frame_loop X (tb_stream b) b)"

definition is_end_stream :: "'d transport_body \<Rightarrow> bool" where "is_end_stream b = tb_finished b"

definition size_hint :: "'d transport_body \<Rightarrow> nat" where "size_hint b = tb_remaining b"

section \<open>What is delivered\<close>

text \<open>
  The invariant of a body made for a stream \<open>all\<close> with declared length \<open>len\<close> and digest \<open>sha\<close>, after
  \<open>del\<close> was delivered. While it runs, the events consumed so far are accounted for by the delivered
  bytes and the withheld chunk. Once finished without an error everything was delivered and verified;
  once finished with an error the delivered bytes fall short of the declared length, and the stream
  does not carry what was declared.
\<close>

definition body_verified :: "'d checksum_ext \<Rightarrow> nat \<Rightarrow> string \<Rightarrow> poll_event list \<Rightarrow> string \<Rightarrow> bool" where
  "body_verified X len sha all del \<longleftrightarrow>
     del = content all \<and> length del = len \<and> ce_digest_finalize X (hashed X (pieces all)) = sha \<and>
     \<not> list_ex faulty all"

definition body_inv ::
  "'d checksum_ext \<Rightarrow> nat \<Rightarrow> string \<Rightarrow> poll_event list \<Rightarrow> 'd transport_body \<Rightarrow> string \<Rightarrow> bool \<Rightarrow> bool" where
  "body_inv X len sha all b del err \<longleftrightarrow>
     tb_expected_sha256 b = sha \<and>
     (if tb_finished b
      then tb_remaining b = 0 \<and> tb_final_chunk b = None \<and>
        (if err then (length del < len \<or> len = 0 \<and> del = []) \<and> \<not> body_verified X len sha all (content all)
         else body_verified X len sha all del)
      else \<not> err \<and> (\<exists>pre. all = pre @ tb_stream b \<and> \<not> list_ex faulty pre \<and>
        tb_hasher b = hashed X (pieces pre) \<and> length del + tb_remaining b = len \<and>
        (case tb_final_chunk b of
           None \<Rightarrow> del = content pre \<and> (tb_remaining b = 0 \<longrightarrow> len = 0)
         | Some c \<Rightarrow> del @ c = content pre \<and> length c = tb_remaining b \<and> c \<noteq> [])))"

lemma body_inv_new: "body_inv X len sha all (transport_body_new X all len sha) [] False"
  by (auto simp: body_inv_def transport_body_new_def intro: exI[of _ "[]"])

text \<open>A non-empty chunk: too much, exactly the rest, or less than the rest.\<close>

lemma poll_chunk_inv:
  assumes pre: "all = pre @ PollChunk chunk # es" "\<not> list_ex faulty pre"
      "tb_hasher b = hashed X (pieces pre)" "length del + tb_remaining b = len" "tb_expected_sha256 b = sha"
    and fc: "case tb_final_chunk b of
           None \<Rightarrow> del = content pre \<and> (tb_remaining b = 0 \<longrightarrow> len = 0)
         | Some c \<Rightarrow> del @ c = content pre \<and> length c = tb_remaining b \<and> c \<noteq> []"
    and chunk: "chunk \<noteq> []" and open_: "\<not> tb_finished b" and poll: "poll_frame_loop X (PollChunk chunk # es) b = (out, b')"
    and IH: "\<And>b. body_inv X len sha all (b\<lparr>tb_stream := es\<rparr>) del False \<Longrightarrow> \<not> tb_finished b \<Longrightarrow>
      poll_frame_loop X es b = (out, b') \<Longrightarrow> body_inv X len sha all b' (del @ bytes_of out) (is_error out)"
  shows "body_inv X len sha all b' (del @ bytes_of out) (is_error out)"
proof (cases "tb_final_chunk b")
  case (Some c)
  with fc have "content pre = del @ c" by simp
  then have "length (content pre) = length del + length c" by simp
  with Some have "length (content all) > len" using pre(1,4) fc chunk by simp
  with Some open_ poll pre fc chunk show ?thesis by (auto simp: body_inv_def body_verified_def fail_body_def)
next
  case None
  let ?b = "b\<lparr>tb_hasher := ce_digest_update X (tb_hasher b) chunk, tb_final_chunk := Some chunk\<rparr>"
  consider "length chunk > tb_remaining b" | "length chunk = tb_remaining b" | "length chunk < tb_remaining b" by linarith
  then show ?thesis
  proof cases
    case 1
    with open_ poll pre fc chunk None show ?thesis by (auto simp: body_inv_def body_verified_def)
  next
    case 2
    have "body_inv X len sha all (?b\<lparr>tb_stream := es\<rparr>) del False"
      using open_ pre fc chunk None 2 by (auto simp: body_inv_def intro!: exI[of _ "pre @ [PollChunk chunk]"])
    with IH[of ?b] open_ poll chunk None 2 show ?thesis by (simp add: Let_def)
  next
    case 3
    with open_ poll pre fc chunk None show ?thesis
      by (auto simp: body_inv_def Let_def intro!: exI[of _ "pre @ [PollChunk chunk]"])
  qed
qed

lemma poll_frame_loop_inv:
  assumes "body_inv X len sha all (b\<lparr>tb_stream := es\<rparr>) del False" and "\<not> tb_finished b"
    and "poll_frame_loop X es b = (out, b')"
  shows "body_inv X len sha all b' (del @ bytes_of out) (is_error out)"
  using assms
proof (induction es arbitrary: b)
  case Nil
  then show ?case
    by (cases "tb_final_chunk b") (auto simp: body_inv_def body_verified_def fail_body_def split: if_splits)
next
  case (Cons e es)
  from Cons.prems(1,2) obtain pre where pre: "all = pre @ e # es" "\<not> list_ex faulty pre"
    "tb_hasher b = hashed X (pieces pre)" "length del + tb_remaining b = len" "tb_expected_sha256 b = sha"
    and fc: "case tb_final_chunk b of
           None \<Rightarrow> del = content pre \<and> (tb_remaining b = 0 \<longrightarrow> len = 0)
         | Some c \<Rightarrow> del @ c = content pre \<and> length c = tb_remaining b \<and> c \<noteq> []"
    by (auto simp: body_inv_def split: option.splits)
  show ?case
  proof (cases e)
    case (PollError s)
    with Cons.prems(2,3) pre fc show ?thesis
      by (auto simp: body_inv_def body_verified_def fail_body_def split: option.splits)
  next
    case PollPending
    with Cons.prems(2,3) pre fc show ?thesis
      by (auto simp: body_inv_def intro!: exI[of _ "pre @ [PollPending]"] split: option.splits)
  next
    case (PollChunk chunk)
    show ?thesis
    proof (cases "chunk = []")
      case True
      have "body_inv X len sha all (b\<lparr>tb_stream := es\<rparr>) del False"
        using Cons.prems(2) pre fc PollChunk True
        by (auto simp: body_inv_def intro!: exI[of _ "pre @ [PollChunk []]"] split: option.splits)
      with Cons.IH Cons.prems(2,3) PollChunk True show ?thesis by simp
    next
      case False
      show ?thesis
        by (rule poll_chunk_inv[OF pre[unfolded PollChunk] fc False Cons.prems(2) Cons.prems(3)[unfolded PollChunk]]) (rule Cons.IH)
    qed
  qed
qed

interpretation upload: stream_machine "poll_frame X" "body_inv X len sha all"
  for X len sha all
proof
  fix s del err i out s'
  assume inv: "body_inv X len sha all s del err" and step: "poll_frame X i s = (out, s')"
  show "body_inv X len sha all s' (del @ bytes_of out) (err \<or> is_error out)"
  proof (cases "tb_finished s")
    case True
    with inv step show ?thesis by (auto simp: poll_frame_def)
  next
    case False
    with inv have "\<not> err" by (simp add: body_inv_def)
    moreover have "body_inv X len sha all (s\<lparr>tb_stream := tb_stream s\<rparr>) del False"
      using inv \<open>\<not> err\<close> by simp
    ultimately show ?thesis
      using False step poll_frame_loop_inv by (fastforce simp: poll_frame_def)
  qed
qed


text \<open>Every poll of a running body finishes it or consumes an event.\<close>

lemma poll_frame_loop_progress:
  "poll_frame_loop X es b = (out, b') \<Longrightarrow> tb_finished b' \<or> length (tb_stream b') < length es"
proof (induction X es b rule: poll_frame_loop.induct)
  case (4 X chunk es b)
  then show ?case by (auto simp: Let_def fail_body_def split: if_splits option.splits)
qed (auto simp: fail_body_def split: if_splits option.splits)

lemma polls_finish:
  "polls (poll_frame X) inputs b = (outs, b') \<Longrightarrow> length (tb_stream b) < length inputs \<or> tb_finished b \<Longrightarrow>
     tb_finished b'"
proof (induction inputs arbitrary: b b' outs)
  case (Cons i inputs)
  obtain out b1 where 1: "poll_frame X i b = (out, b1)" by fastforce
  obtain outs' b2 where 2: "polls (poll_frame X) inputs b1 = (outs', b2)" by fastforce
  have "length (tb_stream b1) < length inputs \<or> tb_finished b1"
    using Cons.prems(2) 1 poll_frame_loop_progress[of X "tb_stream b" b out b1]
    by (auto simp: poll_frame_def split: if_splits)
  with Cons.IH[OF 2] Cons.prems(1) 1 2 show ?case by simp
qed simp

text \<open>
  Property C5. Bytes that were not signed are never sent in full: however the transport polls the
  body of a non-empty upload, if it has received as many bytes as declared, or the body has finished
  without reporting an error, then it received exactly the stream's content, that content has the
  declared length, its SHA-256 is the signed one and the stream reported no error.
\<close>

theorem upload_sends_only_signed_bytes:
  assumes "digest_documented X" and "polls (poll_frame X) inputs (transport_body_new X all len sha) = (outs, b)"
    and "0 < len \<and> len \<le> length (delivered outs) \<or> is_end_stream b \<and> \<not> list_ex is_error outs"
  shows "delivered outs = content all \<and> length (delivered outs) = len \<and>
    ce_sha256 X (delivered outs) = sha \<and> \<not> list_ex faulty all"
proof -
  have inv: "body_inv X len sha all b (delivered outs) (list_ex is_error outs)"
    by (rule upload.reachable_inv[OF body_inv_new assms(2)])
  then have "body_verified X len sha all (delivered outs)"
    using assms(3) by (auto simp: body_inv_def is_end_stream_def split: if_splits option.splits)
  then show ?thesis
    by (auto simp: body_verified_def finalize_hashed[OF assms(1)] content_def)
qed

theorem upload_sends_only_signed_bytes_witness:
  "\<exists>outs b. polls (poll_frame text_ext) [(), (), ()]
      (transport_body_new text_ext [PollChunk ''ab'', PollPending, PollChunk ''c''] 3 ''cba'') = (outs, b) \<and>
    delivered outs = ''abc''"
proof -
  let ?p = "polls (poll_frame text_ext) [(), (), ()]
      (transport_body_new text_ext [PollChunk ''ab'', PollPending, PollChunk ''c''] 3 ''cba'')"
  have "length (delivered (fst ?p)) = 3"
    by (simp add: poll_frame_def transport_body_new_def text_ext_def Let_def)
  with upload_sends_only_signed_bytes[OF text_ext_documented, of "[(), (), ()]"
      "[PollChunk ''ab'', PollPending, PollChunk ''c'']" 3 "''cba''" "fst ?p" "snd ?p"]
  have "delivered (fst ?p) = content [PollChunk ''ab'', PollPending, PollChunk ''c'']" by simp
  then show ?thesis by (intro exI[of _ "fst ?p"] exI[of _ "snd ?p"]) simp
qed

text \<open>
  Property C32. A correct upload goes through: when the stream reports no error and carries bytes of
  the declared length and digest, then polling once more than the stream has events finishes the body
  with no error and every byte delivered.
\<close>

theorem upload_completes:
  assumes "digest_documented X" and "\<not> list_ex faulty all" and "length inputs > length all"
    and "polls (poll_frame X) inputs (transport_body_new X all (length (content all)) (ce_sha256 X (content all))) = (outs, b)"
  shows "is_end_stream b \<and> delivered outs = content all \<and> \<not> list_ex is_error outs"
proof -
  let ?len = "length (content all)" and ?sha = "ce_sha256 X (content all)"
  have v: "body_verified X ?len ?sha all (content all)"
    using assms(2) by (simp add: body_verified_def finalize_hashed[OF assms(1)] content_def)
  have f: "tb_finished b"
    using polls_finish[OF assms(4)] assms(3) by (simp add: transport_body_new_def)
  have "body_inv X ?len ?sha all b (delivered outs) (list_ex is_error outs)"
    by (rule upload.reachable_inv[OF body_inv_new assms(4)])
  with f v show ?thesis
    by (auto simp: body_inv_def is_end_stream_def body_verified_def split: if_splits)
qed

theorem upload_completes_witness:
  "is_end_stream (snd (polls (poll_frame text_ext) [(), (), ()] (transport_body_new text_ext
     [PollChunk ''ab'', PollChunk ''c''] (length (content [PollChunk ''ab'', PollChunk ''c'']))
     (ce_sha256 text_ext (content [PollChunk ''ab'', PollChunk ''c''])))))"
  by (rule upload_completes[OF text_ext_documented, of "[PollChunk ''ab'', PollChunk ''c'']" "[(), (), ()]",
        OF _ _ surjective_pairing, THEN conjunct1]) simp_all

section \<open>Preparation\<close>

text \<open>
  The three sources of a \<open>ByteStream\<close>, their preparation and the body of each attempt. A file
  snapshot is its bytes with the length and the digest computed while copying; the operating
  system's answers (opening and reading the caller's file) are the parameter \<open>read_file\<close>, which gives
  the error type name of a failure, or the kind of file and the chunks that its reads return.
\<close>

datatype upload_source = UploadBytes string | UploadFile string | UploadStream "poll_event list" nat string

definition byte_stream_from_bytes :: "string \<Rightarrow> upload_source" where
  "byte_stream_from_bytes bytes = UploadBytes bytes"

definition byte_stream_from_path :: "string \<Rightarrow> upload_source" where
  "byte_stream_from_path path = UploadFile path"

definition byte_stream_from_stream :: "poll_event list \<Rightarrow> nat \<Rightarrow> string \<Rightarrow> upload_source" where
  "byte_stream_from_stream stream len sha = UploadStream stream len sha"

record file_snapshot =
  fs_bytes :: string
  fs_length :: nat
  fs_sha256 :: "string option"

type_synonym file_reader = "string \<Rightarrow> string + (bool \<times> string list)"

text \<open>The copying loop of \<open>FileSnapshot::create\<close>: length, digest state and written bytes so far.\<close>

fun snapshot_loop ::
  "'d checksum_ext \<Rightarrow> string list \<Rightarrow> nat \<Rightarrow> 'd option \<Rightarrow> string \<Rightarrow> s3_error + (nat \<times> 'd option \<times> string)" where
  "snapshot_loop X [] len hasher out = Inr (len, hasher, out)"
| "snapshot_loop X (buffer # reads) len hasher out =
     (if buffer = [] then Inr (len, hasher, out)
      else and_then (ok_or (integrity ''upload file length overflow'') (checked_add_u64 len (length buffer))) (\<lambda>len'.
        snapshot_loop X reads len' (map_option (\<lambda>h. ce_digest_update X h buffer) hasher) (out @ buffer)))"

text \<open>
  \<open>FileSnapshot::create\<close>. The reads of the source file are a parameter; every input or output error on the source or on the temporary copy
  is reported as the transport error that \<open>read_file\<close> gives. The copy holds what was written to it, so the comparison of its
  length with the bytes read, kept as in the code, always succeeds.
\<close>

definition snapshot_create :: "'d checksum_ext \<Rightarrow> file_reader \<Rightarrow> string \<Rightarrow> bool \<Rightarrow> s3_error + file_snapshot" where
  "snapshot_create X read_file path hash =
     (case read_file path of
        Inl e \<Rightarrow> Inl (transport e)
      | Inr (regular, reads) \<Rightarrow>
          reject_if (\<not> regular) (configuration ''upload path must identify a regular file'')
          (and_then (snapshot_loop X reads 0 (if hash then Some (ce_digest_new X) else None) [])
            (\<lambda>(len, hasher, out).
              reject_if (length out \<noteq> len) (integrity ''upload snapshot length changed while preparing'')
              (Inr \<lparr>fs_bytes = out, fs_length = len, fs_sha256 = map_option (ce_digest_finalize X) hasher\<rparr>))))"

datatype prepared_source = PreparedBytes string | PreparedSnapshot file_snapshot | PreparedOneShot "poll_event list option"

record prepared_body =
  pb_source :: prepared_source
  pb_length :: nat
  pb_sha256 :: string

definition cooperative_sha256 :: "'d checksum_ext \<Rightarrow> string \<Rightarrow> string" where
  "cooperative_sha256 X bytes =
     ce_digest_finalize X (foldl (ce_digest_update X) (ce_digest_new X) (chunks (1024 * 1024) bytes))"

definition prepare_file :: "'d checksum_ext \<Rightarrow> file_reader \<Rightarrow> string \<Rightarrow> s3_error + prepared_body" where
  "prepare_file X read_file path =
     and_then (snapshot_create X read_file path True) (\<lambda>snap.
     and_then (ok_or (integrity ''upload snapshot digest was not calculated'') (fs_sha256 snap)) (\<lambda>sha.
     Inr \<lparr>pb_source = PreparedSnapshot snap, pb_length = fs_length snap, pb_sha256 = sha\<rparr>))"

definition prepare :: "'d checksum_ext \<Rightarrow> file_reader \<Rightarrow> upload_source \<Rightarrow> s3_error + prepared_body" where
  "prepare X read_file src = (case src of
     UploadBytes bytes \<Rightarrow> Inr \<lparr>pb_source = PreparedBytes bytes, pb_length = length bytes,
       pb_sha256 = cooperative_sha256 X bytes\<rparr>
   | UploadFile path \<Rightarrow> prepare_file X read_file path
   | UploadStream stream len sha \<Rightarrow> Inr \<lparr>pb_source = PreparedOneShot (Some stream), pb_length = len,
       pb_sha256 = sha\<rparr>)"

definition is_replayable :: "prepared_body \<Rightarrow> bool" where
  "is_replayable p = (case pb_source p of PreparedOneShot _ \<Rightarrow> False | _ \<Rightarrow> True)"

text \<open>
  The body of one attempt. A snapshot is opened and read in buffers of at most 64 KiB; the parameter
  \<open>open_file\<close> gives the error type name of a failed open, or how the bytes arrive.
\<close>

definition request_body ::
  "'d checksum_ext \<Rightarrow> (string \<Rightarrow> string + poll_event list) \<Rightarrow> prepared_body
     \<Rightarrow> (s3_error + 'd transport_body) \<times> prepared_body" where
  "request_body X open_file p = (case pb_source p of
     PreparedBytes bytes \<Rightarrow> (Inr (transport_body_new X [PollChunk bytes] (pb_length p) (pb_sha256 p)), p)
   | PreparedSnapshot snap \<Rightarrow>
       (case open_file (take (pb_length p) (fs_bytes snap)) of
          Inl e \<Rightarrow> (Inl (transport e), p)
        | Inr stream \<Rightarrow> (Inr (transport_body_new X stream (pb_length p) (pb_sha256 p)), p))
   | PreparedOneShot (Some stream) \<Rightarrow>
       (Inr (transport_body_new X stream (pb_length p) (pb_sha256 p)), p\<lparr>pb_source := PreparedOneShot None\<rparr>)
   | PreparedOneShot None \<Rightarrow>
       (Inl (unsupported ''a non-replayable upload body cannot be sent twice''), p))"

definition read_range :: "(string \<Rightarrow> nat \<Rightarrow> nat \<Rightarrow> string + string) \<Rightarrow> file_snapshot \<Rightarrow> nat \<Rightarrow> nat \<Rightarrow> s3_error + string" where
  "read_range read_exact snap offset len = map_err transport (read_exact (fs_bytes snap) offset len)"

lemma snapshot_loop_Inr:
  "snapshot_loop X reads len (map_option (hashed X) hs) out = Inr (len', hasher, out') \<Longrightarrow>
     len = length out \<Longrightarrow>
     \<exists>ps. len' = length out' \<and> out' = out @ concat ps \<and> hasher = map_option (\<lambda>qs. hashed X (qs @ ps)) hs"
proof (induction reads arbitrary: len hs out)
  case (Cons buffer reads)
  show ?case
  proof (cases "buffer = []")
    case True
    with Cons.prems show ?thesis by (auto intro!: exI[of _ "[]"] simp: option.map_ident_strong)
  next
    case False
    with Cons.prems have "snapshot_loop X reads (len + length buffer)
        (map_option (hashed X) (map_option (\<lambda>qs. qs @ [buffer]) hs)) (out @ buffer) = Inr (len', hasher, out')"
      by (auto simp: checked_add_u64_def option.map_comp o_def split: if_splits)
    from Cons.IH[OF this] Cons.prems(2) obtain ps where
      "len' = length out'" "out' = (out @ buffer) @ concat ps"
      "hasher = map_option (\<lambda>qs. hashed X (qs @ ps)) (map_option (\<lambda>qs. qs @ [buffer]) hs)" by auto
    then show ?thesis by (intro exI[of _ "buffer # ps"]) (simp add: option.map_comp o_def)
  qed
qed (auto intro!: exI[of _ "[]"] simp: option.map_ident_strong)

lemma prepare_file_verified:
  assumes "digest_documented X" and "prepare_file X read_file path = Inr p"
  obtains snap where "pb_source p = PreparedSnapshot snap" and "pb_length p = length (fs_bytes snap)"
    and "pb_sha256 p = ce_sha256 X (fs_bytes snap)"
proof -
  from assms(2) obtain snap sha where s: "snapshot_create X read_file path True = Inr snap"
    "fs_sha256 snap = Some sha" "p = \<lparr>pb_source = PreparedSnapshot snap, pb_length = fs_length snap, pb_sha256 = sha\<rparr>"
    by (auto simp: prepare_file_def)
  from s(1) obtain reads len hasher out where
    l: "snapshot_loop X reads 0 (map_option (hashed X) (Some [])) [] = Inr (len, hasher, out)"
    "snap = \<lparr>fs_bytes = out, fs_length = len, fs_sha256 = map_option (ce_digest_finalize X) hasher\<rparr>"
    by (auto simp: snapshot_create_def split: sum.splits prod.splits if_splits)
  from snapshot_loop_Inr[OF l(1)] obtain ps where
    "len = length out" "out = concat ps" "hasher = Some (hashed X ps)" by auto
  with l(2) s(2,3) show ?thesis
    by (intro that[of snap]) (simp_all add: finalize_hashed[OF assms(1)])
qed

lemma prepare_bytes_sha: "digest_documented X \<Longrightarrow> cooperative_sha256 X bytes = ce_sha256 X bytes"
  by (simp add: cooperative_sha256_def digest_documented_def concat_chunks)

text \<open>
  Every attempt signs and sends the same bytes: for a body in memory or in a file the
  declared length and digest are those of the snapshot taken at preparation, asking for the body of an
  attempt leaves the prepared body as it was, so each retry is given the same one, and a one-shot
  stream is given out once.
\<close>

lemma prepared_body_is_replayable:
  assumes "digest_documented X" and "prepare X read_file src = Inr p"
  shows "if is_replayable p
    then (\<exists>bytes. pb_length p = length bytes \<and> pb_sha256 p = ce_sha256 X bytes \<and>
            pb_source p \<in> {PreparedBytes bytes} \<union> {PreparedSnapshot snap | snap. fs_bytes snap = bytes}) \<and>
         (\<forall>open_file. snd (request_body X open_file p) = p)
    else (\<forall>open_file. \<not> isl (fst (request_body X open_file p)) \<and>
            fst (request_body X open_file (snd (request_body X open_file p))) =
              Inl (unsupported ''a non-replayable upload body cannot be sent twice''))"
proof (cases src)
  case (UploadBytes bytes)
  with assms show ?thesis
    by (auto simp: prepare_def is_replayable_def request_body_def prepare_bytes_sha)
next
  case (UploadFile path)
  with assms(2) have "prepare_file X read_file path = Inr p" by (simp add: prepare_def)
  from prepare_file_verified[OF assms(1) this] obtain snap where
    "pb_source p = PreparedSnapshot snap" "pb_length p = length (fs_bytes snap)"
    "pb_sha256 p = ce_sha256 X (fs_bytes snap)" .
  then show ?thesis
    by (auto simp: is_replayable_def request_body_def split: sum.splits)
next
  case (UploadStream stream len sha)
  with assms(2) show ?thesis
    by (auto simp: prepare_def is_replayable_def request_body_def)
qed

lemma prepared_body_is_replayable_witness:
  "\<exists>p. prepare text_ext (\<lambda>_. Inr (True, [''ab'', ''c''])) (UploadFile ''/f'') = Inr p \<and>
     pb_length p = 3 \<and> snd (request_body text_ext (\<lambda>b. Inr [PollChunk b]) p) = p"
proof -
  let ?p = "\<lparr>pb_source = PreparedSnapshot \<lparr>fs_bytes = ''abc'', fs_length = 3, fs_sha256 = Some ''cba''\<rparr>,
     pb_length = 3, pb_sha256 = ''cba''\<rparr>"
  have p: "prepare text_ext (\<lambda>_. Inr (True, [''ab'', ''c''])) (UploadFile ''/f'') = Inr ?p"
    by (simp add: prepare_def prepare_file_def snapshot_create_def text_ext_def checked_add_u64_def)
  from prepared_body_is_replayable[OF text_ext_documented p]
  have "(is_replayable ?p \<longrightarrow> (\<forall>open_file. snd (request_body text_ext open_file ?p) = ?p))"
    unfolding if_bool_eq_conj by blast
  moreover have "is_replayable ?p" by (simp add: is_replayable_def)
  ultimately have "snd (request_body text_ext (\<lambda>b. Inr [PollChunk b]) ?p) = ?p" by blast
  with p show ?thesis by (intro exI[of _ ?p]) simp
qed

end
