(* ===== verification/Multipart_Types.thy ===== *)
theory Multipart_Types
  imports Operation_Types
begin

text \<open>
  The multipart types of \<open>src/operation/multipart/\<close>: upload identifiers, part numbers, completed
  parts and their validation before completion, listing pages, the resource bounds of a managed
  upload, and the recorded state of an upload (\<open>MultipartUpload\<close>), whose completed parts stay in
  ascending order because every part is inserted at the point a binary search finds.
\<close>

section \<open>Upload identifiers\<close>

datatype upload_id = UploadId (upload_id_str: string)

definition UPLOAD_ID_MAX_LENGTH :: nat where "UPLOAD_ID_MAX_LENGTH = 2048"

datatype upload_id_error =
    IdEmpty | IdTooLong (id_length: nat) (id_maximum: nat) | IdAsciiControl (id_index: nat)

text \<open>\<open>Iterator::position\<close>: the index of the first element that satisfies the predicate.\<close>

fun position :: "('a \<Rightarrow> bool) \<Rightarrow> 'a list \<Rightarrow> nat option" where
  "position P [] = None"
| "position P (x # xs) = (if P x then Some 0 else map_option Suc (position P xs))"

definition upload_id_new :: "string \<Rightarrow> upload_id_error + upload_id" where
  "upload_id_new v =
     reject_if (v = []) IdEmpty
     (reject_if (UPLOAD_ID_MAX_LENGTH < length v) (IdTooLong (length v) UPLOAD_ID_MAX_LENGTH)
     (case position is_ascii_control v of Some i \<Rightarrow> Inl (IdAsciiControl i)
      | None \<Rightarrow> Inr (UploadId v)))"

definition upload_id_display :: "upload_id \<Rightarrow> string" where
  "upload_id_display u = ''[REDACTED]''"

definition upload_id_debug :: "upload_id \<Rightarrow> string" where
  "upload_id_debug u = ''UploadId([REDACTED])''"

section \<open>Part numbers and completed parts\<close>

datatype part_number = PartNumber (part_get: u16)

instantiation part_number :: linorder
begin

definition less_eq_part_number :: "part_number \<Rightarrow> part_number \<Rightarrow> bool" where
  "p \<le> q \<longleftrightarrow> part_get p \<le> part_get q"

definition less_part_number :: "part_number \<Rightarrow> part_number \<Rightarrow> bool" where
  "p < q \<longleftrightarrow> part_get p < part_get q"

instance
  by standard
    (auto simp: less_eq_part_number_def less_part_number_def part_number.expand intro: part_number.expand)

end

definition PART_MAX :: u16 where "PART_MAX = 10000"

definition part_number_new :: "u16 \<Rightarrow> part_number option" where
  "part_number_new n = (if n \<noteq> 0 \<and> n \<le> PART_MAX then Some (PartNumber n) else None)"

definition part_number_debug :: "part_number \<Rightarrow> string" where
  "part_number_debug p = ''PartNumber('' @ to_string (unat (part_get p)) @ '')''"

record 'b upload_part_request =
  up_key :: object_key
  up_upload_id :: upload_id
  up_part_number :: part_number
  up_body :: 'b
  up_checksum :: checksum
  up_headers :: header_map

definition upload_part_request_new ::
  "object_key \<Rightarrow> upload_id \<Rightarrow> part_number \<Rightarrow> 'b \<Rightarrow> 'b upload_part_request" where
  "upload_part_request_new k u n b = \<lparr>up_key = k, up_upload_id = u, up_part_number = n,
     up_body = b, up_checksum = no_checksum, up_headers = []\<rparr>"

definition up_with_checksum :: "checksum \<Rightarrow> 'b upload_part_request \<Rightarrow> 'b upload_part_request" where
  "up_with_checksum c r = r\<lparr>up_checksum := c\<rparr>"

definition up_with_headers :: "header_map \<Rightarrow> 'b upload_part_request \<Rightarrow> 'b upload_part_request" where
  "up_with_headers headers rq = rq\<lparr>up_headers := headers\<rparr>"

record upload_part_output =
  upo_part_number :: part_number
  upo_e_tag :: string
  upo_checksum :: checksum
  upo_request_ids :: request_ids

record copy_part_range =
  cpr_start :: u64
  cpr_end :: u64

definition copy_part_range_new :: "u64 \<Rightarrow> u64 \<Rightarrow> range_error + copy_part_range" where
  "copy_part_range_new a b = reject_if (b < a) (RangeError a b) (Inr \<lparr>cpr_start = a, cpr_end = b\<rparr>)"

definition copy_range_header_value :: "copy_part_range \<Rightarrow> string" where
  "copy_range_header_value r =
     ''bytes='' @ to_string (unat (cpr_start r)) @ ''-'' @ to_string (unat (cpr_end r))"

record upload_part_copy_request =
  upc_destination :: object_key
  upc_upload_id :: upload_id
  upc_part_number :: part_number
  upc_source :: copy_source
  upc_source_range :: "copy_part_range option"
  upc_source_conditions :: conditions
  upc_headers :: header_map

definition upload_part_copy_request_new ::
  "object_key \<Rightarrow> upload_id \<Rightarrow> part_number \<Rightarrow> copy_source \<Rightarrow> upload_part_copy_request" where
  "upload_part_copy_request_new k u n src = \<lparr>upc_destination = k, upc_upload_id = u,
     upc_part_number = n, upc_source = src, upc_source_range = None,
     upc_source_conditions = no_conditions, upc_headers = []\<rparr>"

definition upc_with_headers :: "header_map \<Rightarrow> upload_part_copy_request \<Rightarrow> upload_part_copy_request" where
  "upc_with_headers headers rq = rq\<lparr>upc_headers := headers\<rparr>"

record completed_part =
  cp_part_number :: part_number
  cp_e_tag :: string
  cp_checksum :: checksum

datatype multipart_error =
    InvalidPartNumber u16
  | EmptyETag u16
  | DuplicatePart part_number
  | NoCompletedParts
  | OutOfOrder (previous: part_number) (next_part_number: part_number)

definition multipart_error_display :: "multipart_error \<Rightarrow> string" where
  "multipart_error_display e = (case e of
     InvalidPartNumber n \<Rightarrow> ''multipart part number '' @ to_string (unat n) @ '' is outside 1..=10000''
   | EmptyETag n \<Rightarrow> ''multipart part '' @ to_string (unat n) @ '' has an empty ETag''
   | DuplicatePart p \<Rightarrow> ''multipart part '' @ part_number_debug p @ '' was recorded more than once''
   | NoCompletedParts \<Rightarrow> ''a multipart upload cannot be completed without parts''
   | OutOfOrder p q \<Rightarrow> ''multipart part '' @ part_number_debug q @ '' does not follow '' @
       part_number_debug p @ '' in ascending order'')"

definition completed_part_new :: "u16 \<Rightarrow> string \<Rightarrow> multipart_error + completed_part" where
  "completed_part_new n tag =
     and_then (ok_or (InvalidPartNumber n) (part_number_new n)) (\<lambda>p.
     reject_if (blank_str tag) (EmptyETag (part_get p))
     (Inr \<lparr>cp_part_number = p, cp_e_tag = tag, cp_checksum = no_checksum\<rparr>))"

definition cp_with_checksum :: "checksum \<Rightarrow> completed_part \<Rightarrow> completed_part" where
  "cp_with_checksum c p = p\<lparr>cp_checksum := c\<rparr>"

record upload_part_copy_output =
  upco_part_number :: part_number
  upco_e_tag :: string
  upco_last_modified :: "offset_date_time option"
  upco_checksum :: checksum
  upco_request_ids :: request_ids

definition copy_output_completed_part :: "upload_part_copy_output \<Rightarrow> multipart_error + completed_part" where
  "copy_output_completed_part r =
     and_then (completed_part_new (part_get (upco_part_number r)) (upco_e_tag r)) (\<lambda>p.
     Inr (cp_with_checksum (upco_checksum r) p))"

section \<open>Completion\<close>

fun check_windows :: "completed_part list \<Rightarrow> multipart_error + unit" where
  "check_windows (p # q # ps) =
     reject_if (cp_part_number q \<le> cp_part_number p) (OutOfOrder (cp_part_number p) (cp_part_number q))
     (check_windows (q # ps))"
| "check_windows _ = Inr ()"

definition validate_completed_parts :: "completed_part list \<Rightarrow> multipart_error + unit" where
  "validate_completed_parts ps = reject_if (ps = []) NoCompletedParts (check_windows ps)"

record complete_request =
  cmp_key :: object_key
  cmp_upload_id :: upload_id
  cmp_completed_parts :: "completed_part list"
  cmp_headers :: header_map

definition complete_request_new ::
  "object_key \<Rightarrow> upload_id \<Rightarrow> completed_part list \<Rightarrow> multipart_error + complete_request" where
  "complete_request_new k u ps =
     and_then (validate_completed_parts ps) (\<lambda>_.
     Inr \<lparr>cmp_key = k, cmp_upload_id = u, cmp_completed_parts = ps, cmp_headers = []\<rparr>)"

definition cmp_with_headers :: "header_map \<Rightarrow> complete_request \<Rightarrow> complete_request" where
  "cmp_with_headers headers rq = rq\<lparr>cmp_headers := headers\<rparr>"

record complete_output =
  cmo_location :: "string option"
  cmo_bucket :: "string option"
  cmo_key :: "object_key option"
  cmo_e_tag :: "string option"
  cmo_version_id :: "string option"
  cmo_checksum :: checksum
  cmo_request_ids :: request_ids

record abort_request =
  ab_key :: object_key
  ab_upload_id :: upload_id
  ab_headers :: header_map

definition abort_request_new :: "object_key \<Rightarrow> upload_id \<Rightarrow> abort_request" where
  "abort_request_new k u = \<lparr>ab_key = k, ab_upload_id = u, ab_headers = []\<rparr>"

definition ab_with_headers :: "header_map \<Rightarrow> abort_request \<Rightarrow> abort_request" where
  "ab_with_headers headers rq = rq\<lparr>ab_headers := headers\<rparr>"

section \<open>Listing pages\<close>

record list_uploads_request =
  lu_prefix :: "string option"
  lu_delimiter :: "string option"
  lu_key_marker :: "string option"
  lu_upload_id_marker :: "upload_id option"
  lu_max_uploads :: page_size
  lu_headers :: header_map

definition lu_with_headers :: "header_map \<Rightarrow> list_uploads_request \<Rightarrow> list_uploads_request" where
  "lu_with_headers headers rq = rq\<lparr>lu_headers := headers\<rparr>"

record upload_entry =
  ue_key :: object_key
  ue_upload_id :: upload_id
  ue_initiated :: "offset_date_time option"
  ue_storage_class :: "string option"

record list_uploads_output =
  luo_uploads :: "upload_entry list"
  luo_common_prefixes :: "string list"
  luo_is_truncated :: bool
  luo_next_key_marker :: "string option"
  luo_next_upload_id_marker :: "upload_id option"
  luo_request_ids :: request_ids

record list_parts_request =
  lp_key :: object_key
  lp_upload_id :: upload_id
  lp_part_number_marker :: "part_number option"
  lp_max_parts :: page_size
  lp_headers :: header_map

definition list_parts_request_new :: "object_key \<Rightarrow> upload_id \<Rightarrow> list_parts_request" where
  "list_parts_request_new k u = \<lparr>lp_key = k, lp_upload_id = u, lp_part_number_marker = None,
     lp_max_parts = default_page_size, lp_headers = []\<rparr>"

definition lp_with_headers :: "header_map \<Rightarrow> list_parts_request \<Rightarrow> list_parts_request" where
  "lp_with_headers headers rq = rq\<lparr>lp_headers := headers\<rparr>"

record listed_part =
  lpt_part_number :: part_number
  lpt_e_tag :: string
  lpt_last_modified :: "offset_date_time option"
  lpt_size :: nat
  lpt_checksum :: checksum

definition listed_part_completed :: "listed_part \<Rightarrow> multipart_error + completed_part" where
  "listed_part_completed r =
     and_then (completed_part_new (part_get (lpt_part_number r)) (lpt_e_tag r)) (\<lambda>p.
     Inr (cp_with_checksum (lpt_checksum r) p))"

record list_parts_output =
  lpo_parts :: "listed_part list"
  lpo_is_truncated :: bool
  lpo_next_part_number_marker :: "part_number option"
  lpo_checksum_algorithm :: "string option"
  lpo_checksum_type :: "checksum_type option"
  lpo_request_ids :: request_ids

section \<open>Managed uploads\<close>

definition MIN_PART_SIZE :: nat where "MIN_PART_SIZE = 5 * 1024 * 1024"
definition MAX_PART_SIZE :: nat where "MAX_PART_SIZE = 5 * 1024 * 1024 * 1024"
definition MAX_CONCURRENCY :: nat where "MAX_CONCURRENCY = 64"

record multipart_options =
  mo_part_size :: nat
  mo_concurrency :: nat
  mo_transfer_timeout :: duration
  mo_cleanup_timeout :: duration

text \<open>
  \<open>usize\<close> has at most 64 bits on every supported target, so the conversion of the concurrency to
  \<open>u64\<close> cannot fail and has no branch here.
\<close>

definition multipart_options_new :: "nat \<Rightarrow> nat \<Rightarrow> s3_error + multipart_options" where
  "multipart_options_new psize c =
     reject_if (\<not> (MIN_PART_SIZE \<le> psize \<and> psize \<le> MAX_PART_SIZE))
       (configuration ''multipart part size must be between 5 MiB and 5 GiB'')
     (reject_if (\<not> (1 \<le> c \<and> c \<le> MAX_CONCURRENCY))
       (configuration ''multipart concurrency must be between 1 and 64'')
     (and_then (ok_or (configuration ''multipart buffered byte bound overflow'') (checked_mul_u64 psize c)) (\<lambda>_.
     Inr \<lparr>mo_part_size = psize, mo_concurrency = c, mo_transfer_timeout = from_secs 300,
          mo_cleanup_timeout = from_secs 30\<rparr>)))"

text \<open>
  \<open>Instant::now().checked_add(timeout)\<close>: whether the platform clock can represent the deadline is
  a parameter of the model.
\<close>

definition validate_deadline :: "(duration \<Rightarrow> bool) \<Rightarrow> duration \<Rightarrow> string \<Rightarrow> s3_error + unit" where
  "validate_deadline representable t name =
     (if representable t then Inr ()
      else Inl (configuration (name @ '' is too large to represent as a deadline'')))"

definition with_transfer_timeout ::
  "(duration \<Rightarrow> bool) \<Rightarrow> duration \<Rightarrow> multipart_options \<Rightarrow> s3_error + multipart_options" where
  "with_transfer_timeout representable t opts =
     reject_if (t = 0) (configuration ''multipart transfer timeout must be greater than zero'')
     (and_then (validate_deadline representable t ''multipart transfer timeout'') (\<lambda>_.
     Inr (opts\<lparr>mo_transfer_timeout := t\<rparr>)))"

definition with_cleanup_timeout ::
  "(duration \<Rightarrow> bool) \<Rightarrow> duration \<Rightarrow> multipart_options \<Rightarrow> s3_error + multipart_options" where
  "with_cleanup_timeout representable t opts =
     reject_if (t = 0) (configuration ''multipart cleanup timeout must be greater than zero'')
     (and_then (validate_deadline representable t ''multipart cleanup timeout'') (\<lambda>_.
     Inr (opts\<lparr>mo_cleanup_timeout := t\<rparr>)))"

text \<open>The product is computed with wrap-around, as \<open>u64\<close> multiplication does in a release build.\<close>

definition maximum_buffered_bytes :: "multipart_options \<Rightarrow> u64" where
  "maximum_buffered_bytes opts = of_nat (mo_part_size opts) * of_nat (mo_concurrency opts)"

text \<open>The default calls \<open>expect\<close> on the validated constructor; that it cannot panic is proved below.\<close>

definition default_multipart_options :: multipart_options where
  "default_multipart_options =
     projr (multipart_options_new (8 * 1024 * 1024) 4)"

record create_request =
  cr_key :: object_key
  cr_content_type :: "string option"
  cr_user_metadata :: metadata_map
  cr_checksum_algorithm :: "checksum_algorithm option"
  cr_checksum_type :: "checksum_type option"
  cr_headers :: header_map

definition create_request_new :: "object_key \<Rightarrow> create_request" where
  "create_request_new k = \<lparr>cr_key = k, cr_content_type = None, cr_user_metadata = [],
     cr_checksum_algorithm = None, cr_checksum_type = None, cr_headers = []\<rparr>"

definition cr_with_headers :: "header_map \<Rightarrow> create_request \<Rightarrow> create_request" where
  "cr_with_headers headers rq = rq\<lparr>cr_headers := headers\<rparr>"

record create_output =
  cro_bucket :: "string option"
  cro_key :: object_key
  cro_upload_id :: upload_id
  cro_checksum_algorithm :: "string option"
  cro_checksum_type :: "checksum_type option"
  cro_request_ids :: request_ids

definition create_output_new ::
  "string option \<Rightarrow> object_key \<Rightarrow> upload_id \<Rightarrow> string option \<Rightarrow> checksum_type option \<Rightarrow> create_output" where
  "create_output_new b k u a t = \<lparr>cro_bucket = b, cro_key = k, cro_upload_id = u,
     cro_checksum_algorithm = a, cro_checksum_type = t, cro_request_ids = no_request_ids\<rparr>"

record managed_headers =
  mh_create :: header_map
  mh_upload_part :: header_map
  mh_complete :: header_map
  mh_abort :: header_map

definition no_managed_headers :: managed_headers where
  "no_managed_headers = \<lparr>mh_create = [], mh_upload_part = [], mh_complete = [], mh_abort = []\<rparr>"

text \<open>The source is the caller's byte buffer or the path of a file.\<close>

datatype multipart_source = SourceBytes string | SourceFile string

record managed_request =
  mr_key :: object_key
  mr_source :: multipart_source
  mr_content_type :: "string option"
  mr_user_metadata :: metadata_map
  mr_options :: multipart_options
  mr_checksum_algorithm :: "checksum_algorithm option"
  mr_headers :: managed_headers

definition managed_from_bytes :: "object_key \<Rightarrow> string \<Rightarrow> managed_request" where
  "managed_from_bytes k b = \<lparr>mr_key = k, mr_source = SourceBytes b, mr_content_type = None,
     mr_user_metadata = [], mr_options = default_multipart_options, mr_checksum_algorithm = None,
     mr_headers = no_managed_headers\<rparr>"

definition managed_from_path :: "object_key \<Rightarrow> string \<Rightarrow> managed_request" where
  "managed_from_path k p = \<lparr>mr_key = k, mr_source = SourceFile p, mr_content_type = None,
     mr_user_metadata = [], mr_options = default_multipart_options, mr_checksum_algorithm = None,
     mr_headers = no_managed_headers\<rparr>"

definition managed_with_metadata :: "string \<Rightarrow> string \<Rightarrow> managed_request \<Rightarrow> managed_request" where
  "managed_with_metadata name v r = r\<lparr>mr_user_metadata := btree_insert name v (mr_user_metadata r)\<rparr>"

definition managed_with_headers :: "managed_headers \<Rightarrow> managed_request \<Rightarrow> managed_request" where
  "managed_with_headers headers rq = rq\<lparr>mr_headers := headers\<rparr>"

definition managed_with_content_type :: "string \<Rightarrow> managed_request \<Rightarrow> managed_request" where
  "managed_with_content_type content_type rq = rq\<lparr>mr_content_type := Some content_type\<rparr>"

definition managed_with_options :: "multipart_options \<Rightarrow> managed_request \<Rightarrow> managed_request" where
  "managed_with_options options rq = rq\<lparr>mr_options := options\<rparr>"

definition managed_with_checksum_algorithm ::
  "checksum_algorithm \<Rightarrow> managed_request \<Rightarrow> checksum_algorithm + managed_request" where
  "managed_with_checksum_algorithm a r =
     reject_if (a = Sha1) a (Inr (r\<lparr>mr_checksum_algorithm := Some a\<rparr>))"

record multipart_upload =
  mu_key :: object_key
  mu_upload_id :: upload_id
  mu_completed_parts :: "completed_part list"

definition multipart_upload_new :: "object_key \<Rightarrow> upload_id \<Rightarrow> multipart_upload" where
  "multipart_upload_new k u = \<lparr>mu_key = k, mu_upload_id = u, mu_completed_parts = []\<rparr>"

definition record_part :: "completed_part \<Rightarrow> multipart_upload \<Rightarrow> multipart_error + multipart_upload" where
  "record_part p up =
     (case binary_search (map cp_part_number (mu_completed_parts up)) (cp_part_number p) of
        Inr _ \<Rightarrow> Inl (DuplicatePart (cp_part_number p))
      | Inl i \<Rightarrow> Inr (up\<lparr>mu_completed_parts :=
          take i (mu_completed_parts up) @ p # drop i (mu_completed_parts up)\<rparr>))"


section \<open>Validation\<close>

lemma position_None_iff: "position P xs = None \<longleftrightarrow> (\<forall>x \<in> set xs. \<not> P x)"
  by (induction xs) auto

lemma position_SomeD: "position P xs = Some i \<Longrightarrow> i < length xs \<and> P (xs ! i) \<and> (\<forall>j < i. \<not> P (xs ! j))"
  by (induction xs arbitrary: i) (auto simp: nth_Cons split: if_splits nat.splits)

lemma upload_id_new_Inr_iff:
  "upload_id_new v = Inr u \<longleftrightarrow>
     u = UploadId v \<and> v \<noteq> [] \<and> length v \<le> UPLOAD_ID_MAX_LENGTH \<and> list_all (\<lambda>c. \<not> is_ascii_control c) v"
proof (cases "position is_ascii_control v")
  case None
  then have "list_all (\<lambda>c. \<not> is_ascii_control c) v" by (simp add: position_None_iff list_all_iff)
  with None show ?thesis by (auto simp: upload_id_new_def)
next
  case (Some i)
  then have "\<not> list_all (\<lambda>c. \<not> is_ascii_control c) v"
    using position_None_iff[of is_ascii_control v] by (simp add: list_all_iff)
  with Some show ?thesis by (simp add: upload_id_new_def)
qed

lemma part_number_new_Some_iff:
  "part_number_new n = Some p \<longleftrightarrow> p = PartNumber n \<and> n \<noteq> 0 \<and> n \<le> PART_MAX"
  by (auto simp: part_number_new_def)

definition valid_part :: "completed_part \<Rightarrow> bool" where
  "valid_part p \<longleftrightarrow> part_get (cp_part_number p) \<noteq> 0 \<and> part_get (cp_part_number p) \<le> PART_MAX \<and>
     \<not> blank_str (cp_e_tag p)"

lemma completed_part_new_Inr_iff:
  "completed_part_new n tag = Inr p \<longleftrightarrow>
     n \<noteq> 0 \<and> n \<le> PART_MAX \<and> \<not> blank_str tag \<and>
     p = \<lparr>cp_part_number = PartNumber n, cp_e_tag = tag, cp_checksum = no_checksum\<rparr>"
  by (auto simp: completed_part_new_def part_number_new_Some_iff)

lemma completed_part_new_valid: "completed_part_new n tag = Inr p \<Longrightarrow> valid_part p"
  by (simp add: completed_part_new_Inr_iff valid_part_def)

lemma check_windows_Inr_iff: "check_windows ps = Inr () \<longleftrightarrow> ascending (map cp_part_number ps)"
proof (induction ps rule: check_windows.induct)
  case (1 p q ps)
  show ?case
  proof (cases "cp_part_number p < cp_part_number q")
    case True
    then have "ascending (map cp_part_number (p # q # ps)) \<longleftrightarrow> ascending (map cp_part_number (q # ps))"
      by auto
    with 1 True show ?thesis by (auto simp: not_le)
  qed (auto simp: not_less)
qed simp_all

lemma validate_completed_parts_Inr_iff:
  "validate_completed_parts ps = Inr () \<longleftrightarrow> ps \<noteq> [] \<and> ascending (map cp_part_number ps)"
  by (simp add: validate_completed_parts_def check_windows_Inr_iff)

lemma default_multipart_options_eq:
  "multipart_options_new (8 * 1024 * 1024) 4 = Inr default_multipart_options"
  by (simp add: default_multipart_options_def multipart_options_new_def MIN_PART_SIZE_def
      MAX_PART_SIZE_def MAX_CONCURRENCY_def checked_mul_u64_def)

section \<open>The recorded upload\<close>

text \<open>The invariant of an upload: the recorded part numbers ascend strictly.\<close>

definition upload_ok :: "multipart_upload \<Rightarrow> bool" where
  "upload_ok up \<longleftrightarrow> ascending (map cp_part_number (mu_completed_parts up))"

abbreviation recorded_numbers :: "multipart_upload \<Rightarrow> part_number set" where
  "recorded_numbers up \<equiv> cp_part_number ` set (mu_completed_parts up)"

lemma upload_ok_new [simp]: "upload_ok (multipart_upload_new k u)"
  by (simp add: upload_ok_def multipart_upload_new_def)

lemma record_part_duplicate:
  "upload_ok up \<Longrightarrow> cp_part_number p \<in> recorded_numbers up \<Longrightarrow>
     record_part p up = Inl (DuplicatePart (cp_part_number p))"
  using binary_search_found[of "map cp_part_number (mu_completed_parts up)" "cp_part_number p"]
  by (auto simp: upload_ok_def record_part_def split: sum.splits)

lemma ascending_append_iff:
  "ascending (xs @ ys) \<longleftrightarrow> ascending xs \<and> ascending ys \<and> (\<forall>x \<in> set xs. \<forall>y \<in> set ys. x < y)"
  by (simp add: sorted_wrt_append)

lemma record_part_fresh:
  assumes "upload_ok up" and "cp_part_number p \<notin> recorded_numbers up"
  shows "\<exists>up'. record_part p up = Inr up' \<and> upload_ok up' \<and>
    mset (mu_completed_parts up') = add_mset p (mset (mu_completed_parts up)) \<and>
    mu_key up' = mu_key up \<and> mu_upload_id up' = mu_upload_id up"
proof -
  let ?ps = "mu_completed_parts up" and ?n = "cp_part_number p"
  have "isl (binary_search (map cp_part_number ?ps) ?n)"
    using assms binary_search_found[of "map cp_part_number ?ps" ?n] by (simp add: upload_ok_def)
  then obtain i where i: "binary_search (map cp_part_number ?ps) ?n = Inl i" by (auto simp: isl_def)
  let ?up = "up\<lparr>mu_completed_parts := take i ?ps @ p # drop i ?ps\<rparr>"
  have b: "\<forall>x \<in> set (take i (map cp_part_number ?ps)). x < ?n"
    "\<forall>x \<in> set (drop i (map cp_part_number ?ps)). ?n < x"
    using binary_search_Inl[OF i] assms(1) by (auto simp: upload_ok_def)
  have "ascending (take i (map cp_part_number ?ps) @ drop i (map cp_part_number ?ps))"
    using assms(1) by (simp add: upload_ok_def)
  with b have "ascending (take i (map cp_part_number ?ps) @ ?n # drop i (map cp_part_number ?ps))"
    unfolding ascending_append_iff by auto
  then have "upload_ok ?up" by (simp add: upload_ok_def take_map drop_map)
  moreover have "mset (take i ?ps @ p # drop i ?ps) = add_mset p (mset ?ps)"
    by (metis append_take_drop_id mset.simps(2) mset_append union_mset_add_mset_right)
  ultimately show ?thesis by (simp add: record_part_def i)
qed

lemma record_part_Inr_iff: "upload_ok up \<Longrightarrow>
    (\<exists>up'. record_part p up = Inr up') \<longleftrightarrow> cp_part_number p \<notin> recorded_numbers up"
  using record_part_fresh[of up p] record_part_duplicate[of up p] by fastforce

lemma record_part_keeps:
  assumes "upload_ok up" and "record_part p up = Inr up'"
  shows "upload_ok up'" and "recorded_numbers up' = insert (cp_part_number p) (recorded_numbers up)"
    and "set (mu_completed_parts up') = insert p (set (mu_completed_parts up))"
    and "mu_key up' = mu_key up" and "mu_upload_id up' = mu_upload_id up"
proof -
  have "cp_part_number p \<notin> recorded_numbers up" using record_part_Inr_iff assms by blast
  from record_part_fresh[OF assms(1) this] assms(2)
  have *: "upload_ok up'" "mset (mu_completed_parts up') = add_mset p (mset (mu_completed_parts up))"
    "mu_key up' = mu_key up" "mu_upload_id up' = mu_upload_id up" by auto
  then show "upload_ok up'" "mu_key up' = mu_key up" "mu_upload_id up' = mu_upload_id up" by simp_all
  show s: "set (mu_completed_parts up') = insert p (set (mu_completed_parts up))"
    using arg_cong[OF *(2), of set_mset] by simp
  show "recorded_numbers up' = insert (cp_part_number p) (recorded_numbers up)" by (simp add: s)
qed

text \<open>Recording a sequence of parts, stopping at the first error.\<close>

fun record_parts :: "completed_part list \<Rightarrow> multipart_upload \<Rightarrow> multipart_error + multipart_upload" where
  "record_parts [] up = Inr up"
| "record_parts (p # ps) up = and_then (record_part p up) (record_parts ps)"

lemma record_parts_distinct:
  assumes "upload_ok up" and "distinct (map cp_part_number ps)"
    and "set (map cp_part_number ps) \<inter> recorded_numbers up = {}"
  shows "\<exists>up'. record_parts ps up = Inr up' \<and> upload_ok up' \<and>
    mset (mu_completed_parts up') = mset ps + mset (mu_completed_parts up)"
  using assms
proof (induction ps arbitrary: up)
  case (Cons p ps)
  then have "cp_part_number p \<notin> recorded_numbers up" by auto
  from record_part_fresh[OF Cons.prems(1) this] obtain up1 where
    1: "record_part p up = Inr up1" "upload_ok up1"
      "mset (mu_completed_parts up1) = add_mset p (mset (mu_completed_parts up))" by blast
  have "recorded_numbers up1 = insert (cp_part_number p) (recorded_numbers up)"
    by (rule record_part_keeps(2)[OF Cons.prems(1) 1(1)])
  with Cons.prems(2,3) have "set (map cp_part_number ps) \<inter> recorded_numbers up1 = {}" by auto
  with Cons.IH[OF 1(2)] Cons.prems(2) obtain up' where
    "record_parts ps up1 = Inr up'" "upload_ok up'"
    "mset (mu_completed_parts up') = mset ps + mset (mu_completed_parts up1)" by auto
  with 1 show ?case by simp
qed simp

text \<open>
  Property C13. Parts may finish in any order: recording completed parts with distinct numbers into
  a new upload never fails, the recorded list is the given parts in ascending order of their
  number, and with at least one part the completion request built from it passes validation.
\<close>

theorem record_parts_complete:
  assumes "distinct (map cp_part_number ps)"
  shows "\<exists>up. record_parts ps (multipart_upload_new k u) = Inr up \<and>
    mu_completed_parts up = sort_key cp_part_number ps \<and>
    (ps \<noteq> [] \<longrightarrow> complete_request_new k u (mu_completed_parts up) =
       Inr \<lparr>cmp_key = k, cmp_upload_id = u, cmp_completed_parts = mu_completed_parts up, cmp_headers = []\<rparr>)"
proof -
  from record_parts_distinct[OF upload_ok_new assms, of k u] obtain up where
    up: "record_parts ps (multipart_upload_new k u) = Inr up" "upload_ok up"
      "mset (mu_completed_parts up) = mset ps" by (auto simp: multipart_upload_new_def)
  have d: "distinct (map cp_part_number (mu_completed_parts up))" "sorted (map cp_part_number (mu_completed_parts up))"
    using up(2) by (simp_all add: upload_ok_def strict_sorted_iff)
  have e: "set (sort_key cp_part_number ps) = set (mu_completed_parts up)"
    using up(3) by (metis set_mset_mset set_sort)
  have "distinct (map cp_part_number (sort_key cp_part_number ps))"
    using assms by (simp add: distinct_map)
  then have "mu_completed_parts up = sort_key cp_part_number ps"
    using d e by (intro map_sorted_distinct_set_unique[of cp_part_number]) (simp_all add: distinct_map)
  moreover have "ps \<noteq> [] \<Longrightarrow> mu_completed_parts up \<noteq> []" using up(3) by auto
  ultimately show ?thesis
    using up by (auto simp: complete_request_new_def validate_completed_parts_Inr_iff upload_ok_def)
qed

theorem record_parts_complete_witness:
  "\<exists>up. record_parts
     [\<lparr>cp_part_number = PartNumber 2, cp_e_tag = ''b'', cp_checksum = no_checksum\<rparr>,
      \<lparr>cp_part_number = PartNumber 1, cp_e_tag = ''a'', cp_checksum = no_checksum\<rparr>]
     (multipart_upload_new (ObjectKey ''k'') (UploadId ''u'')) = Inr up \<and>
   map (part_get o cp_part_number) (mu_completed_parts up) = [1, 2]"
proof -
  let ?ps = "[\<lparr>cp_part_number = PartNumber 2, cp_e_tag = ''b'', cp_checksum = no_checksum\<rparr>,
      \<lparr>cp_part_number = PartNumber 1, cp_e_tag = ''a'', cp_checksum = no_checksum\<rparr>]"
  have "distinct (map cp_part_number ?ps)" by simp
  moreover have "map (part_get o cp_part_number) (sort_key cp_part_number ?ps) = [1, 2]"
    by (simp add: less_eq_part_number_def word_le_nat_alt)
  ultimately show ?thesis using record_parts_complete[of ?ps] by metis
qed

text \<open>
  Recording a part twice is refused and leaves the rest alone: in a well-formed upload
  a part is refused exactly when its number is already recorded, and an accepted part keeps the
  upload well-formed, adds exactly that part and changes neither the key nor the upload identifier.
\<close>

lemma record_part_spec:
  assumes "upload_ok up"
  shows "case record_part p up of
      Inl e \<Rightarrow> e = DuplicatePart (cp_part_number p) \<and> cp_part_number p \<in> recorded_numbers up
    | Inr up' \<Rightarrow> cp_part_number p \<notin> recorded_numbers up \<and> upload_ok up' \<and>
        mset (mu_completed_parts up') = add_mset p (mset (mu_completed_parts up)) \<and>
        mu_key up' = mu_key up \<and> mu_upload_id up' = mu_upload_id up"
proof (cases "cp_part_number p \<in> recorded_numbers up")
  case True
  with record_part_duplicate[OF assms True] show ?thesis by simp
next
  case False
  with record_part_fresh[OF assms False] show ?thesis by auto
qed

lemma record_part_spec_witness:
  "upload_ok (multipart_upload_new (ObjectKey ''k'') (UploadId ''u'')) \<and>
   \<not> isl (record_part \<lparr>cp_part_number = PartNumber 7, cp_e_tag = ''t'', cp_checksum = no_checksum\<rparr>
     (multipart_upload_new (ObjectKey ''k'') (UploadId ''u'')))"
  using record_part_spec[of "multipart_upload_new (ObjectKey ''k'') (UploadId ''u'')"
      "\<lparr>cp_part_number = PartNumber 7, cp_e_tag = ''t'', cp_checksum = no_checksum\<rparr>"]
  by (auto simp: multipart_upload_new_def upload_ok_def split: sum.splits)

text \<open>
  Options that pass validation bound the memory of an upload: the buffered bytes are
  part size times concurrency without wrap-around, at most 320 GiB.
\<close>

lemma buffered_bytes_bound:
  assumes "multipart_options_new psize c = Inr opts"
  shows "unat (maximum_buffered_bytes opts) = mo_part_size opts * mo_concurrency opts \<and>
    mo_part_size opts * mo_concurrency opts \<le> 320 * 1024 ^ 3 \<and>
    MIN_PART_SIZE \<le> mo_part_size opts \<and> 1 \<le> mo_concurrency opts"
proof -
  have o: "mo_part_size opts = psize" "mo_concurrency opts = c"
    and b: "MIN_PART_SIZE \<le> psize" "psize \<le> MAX_PART_SIZE" "1 \<le> c" "c \<le> MAX_CONCURRENCY"
    using assms by (auto simp: multipart_options_new_def split: if_splits)
  have m: "psize * c \<le> 5368709120 * 64"
    using b by (intro mult_le_mono) (simp_all add: MAX_PART_SIZE_def MAX_CONCURRENCY_def)
  then have "unat (of_nat (psize * c) :: u64) = psize * c"
    by (simp del: of_nat_mult add: unat_of_nat)
  then have "unat (maximum_buffered_bytes opts) = psize * c"
    by (simp add: maximum_buffered_bytes_def o)
  with m b o show ?thesis by simp
qed

lemma buffered_bytes_bound_witness:
  "multipart_options_new (8 * 1024 * 1024) 4 = Inr default_multipart_options \<and>
   MIN_PART_SIZE \<le> mo_part_size default_multipart_options"
  using buffered_bytes_bound[OF default_multipart_options_eq] default_multipart_options_eq by blast

end
