(* ===== verification/Request_Signing.thy ===== *)
theory Request_Signing
  imports Signing Client_Config Credential_Providers Upload_Stream Multipart_Types
begin

text \<open>
  Building signed requests: the caller's additional headers (\<open>src/client/request/headers.rs\<close>), the signed HTTP
  request of one attempt (\<open>src/client/request/signing.rs\<close>) and presigned URLs (\<open>src/client/presign.rs\<close>). A header
  map is the list of its entries; its names are lowercase, inserting replaces every value of a name. Which texts
  are header values, how a value is read back as text and whether the request builder accepts a method and a URI
  are parameters (the \<open>http\<close> crate).
\<close>

section \<open>Header maps\<close>

definition hm_contains :: "header_map \<Rightarrow> string \<Rightarrow> bool" where
  "hm_contains m name \<longleftrightarrow> name \<in> set (map fst m)"

definition hm_insert :: "string \<Rightarrow> string \<Rightarrow> header_map \<Rightarrow> header_map" where
  "hm_insert name v m = filter (\<lambda>e. fst e \<noteq> name) m @ [(name, v)]"

definition PROTECTED_HEADERS :: "string list" where
  "PROTECTED_HEADERS = [''host'', ''authorization'', ''x-amz-date'', ''x-amz-security-token'',
     ''x-amz-content-sha256'', ''content-length'', ''transfer-encoding'']"

definition header_collision :: "string \<Rightarrow> s3_error" where
  "header_collision name = configuration (''request header `'' @ name @
     ''` conflicts with a generated, signing-owned, or transport-owned header'')"

fun reject_protected :: "string list \<Rightarrow> header_map \<Rightarrow> s3_error + header_map" where
  "reject_protected [] m = Inr m"
| "reject_protected (name # names) m = reject_if (hm_contains m name) (header_collision name) (reject_protected names m)"

definition request_headers :: "header_map \<Rightarrow> s3_error + header_map" where
  "request_headers m = reject_protected PROTECTED_HEADERS m"

record 'd request_ext =
  rx_signing :: signing_ext
  rx_checksum :: "'d checksum_ext"
  rx_header_value :: "string \<Rightarrow> bool"
  rx_header_name :: "string \<Rightarrow> string option"
  rx_to_str :: "string \<Rightarrow> string option"
  rx_request_ok :: "string \<Rightarrow> string \<Rightarrow> bool"
  rx_open_file :: "string \<Rightarrow> string + poll_event list"

definition insert_header :: "'d request_ext \<Rightarrow> string \<Rightarrow> string \<Rightarrow> header_map \<Rightarrow> s3_error + header_map" where
  "insert_header R name v m =
     reject_if (hm_contains m name) (header_collision name)
     (reject_if (\<not> rx_header_value R v) (configuration ''request contains an invalid header value'')
     (Inr (hm_insert name v m)))"

definition insert_optional_header :: "'d request_ext \<Rightarrow> string \<Rightarrow> string option \<Rightarrow> header_map \<Rightarrow> s3_error + header_map" where
  "insert_optional_header R name v m = (case v of None \<Rightarrow> Inr m | Some x \<Rightarrow> insert_header R name x m)"

text \<open>\<open>HeaderName::from_bytes\<close> gives the lowercase name of a valid token.\<close>

definition insert_named_header :: "'d request_ext \<Rightarrow> string \<Rightarrow> string \<Rightarrow> header_map \<Rightarrow> s3_error + header_map" where
  "insert_named_header R name v m =
     and_then (ok_or (configuration ''request contains an invalid header name'') (rx_header_name R name)) (\<lambda>n.
     insert_header R n v m)"

definition insert_optional_named_header ::
  "'d request_ext \<Rightarrow> string \<Rightarrow> string option \<Rightarrow> header_map \<Rightarrow> s3_error + header_map" where
  "insert_optional_named_header R name v m = (case v of None \<Rightarrow> Inr m | Some x \<Rightarrow> insert_named_header R name x m)"

lemma hm_insert_names: "set (map fst (hm_insert n v m)) = insert n (set (map fst m))"
  by (auto simp: hm_insert_def)

lemma hm_insert_lookup: "map_of (hm_insert n v m) k = (if k = n then Some v else map_of m k)"
proof -
  have "map_of (filter (\<lambda>e. fst e \<noteq> n) m) k = (if k = n then None else map_of m k)"
    by (induction m) auto
  then show ?thesis by (simp add: hm_insert_def map_add_def split: option.splits)
qed

lemma reject_protected_Inr_iff: "reject_protected names m = Inr m' \<longleftrightarrow> m' = m \<and> (\<forall>n \<in> set names. n \<notin> set (map fst m))"
  by (induction names) (auto simp: hm_contains_def)

section \<open>The signed request\<close>

record request_input =
  ri_method :: string
  ri_target :: endpoint_url
  ri_query :: "query_param list"
  ri_headers :: header_map
  ri_payload_hash :: string
  ri_signing_region :: string

record 'd signed_http_request =
  sr_method :: string
  sr_uri :: string
  sr_headers :: header_map
  sr_body :: "'d transport_body"

definition transport_headers :: "'d request_ext \<Rightarrow> request_input \<Rightarrow> prepared_body option \<Rightarrow> s3_error + header_map" where
  "transport_headers R inp body =
     reject_if (\<not> rx_header_value R (eu_authority (ri_target inp))) (configuration ''endpoint authority is not a valid header'')
     (reject_if (\<not> rx_header_value R (ri_payload_hash inp)) (configuration ''payload digest is not a valid header'')
     (let m = hm_insert ''x-amz-content-sha256'' (ri_payload_hash inp)
                (hm_insert ''host'' (eu_authority (ri_target inp)) (ri_headers inp)) in
      Inr (case body of None \<Rightarrow> m | Some b \<Rightarrow> hm_insert ''content-length'' (to_string (pb_length b)) m)))"

definition owned_headers :: "'d request_ext \<Rightarrow> header_map \<Rightarrow> s3_error + header list" where
  "owned_headers R m =
     collect_results (\<lambda>(name, v). and_then
         (ok_or (configuration ''a signed header contains non-ASCII bytes'') (rx_to_str R v))
         (\<lambda>text. Inr \<lparr>h_name = name, h_value = text\<rparr>)) m"

definition signing_credentials_of :: "credentials \<Rightarrow> signing_credentials" where
  "signing_credentials_of c = \<lparr>sc_access_key_id = access_key_id c, sc_secret_access_key = secret_access_key c,
     sc_session_token = session_token c\<rparr>"

definition signed_headers_part ::
  "'d request_ext \<Rightarrow> request_input \<Rightarrow> credentials \<Rightarrow> int \<Rightarrow> header_map \<Rightarrow> s3_error + header_map" where
  "signed_headers_part R inp creds now m =
     and_then (owned_headers R m) (\<lambda>signing_headers.
     and_then (map_err (\<lambda>e. with_source ''s3_wire::signing::request::types::SigningError''
            (new_error Authentication ''request signing failed'' Never))
         (sign_headers (rx_signing R) (signing_credentials_of creds)
            \<lparr>scope_region = ri_signing_region inp, scope_service = ''s3''\<rparr>
            \<lparr>hs_method = ri_method inp, hs_uri_path = Encoded (before_query (eu_path_and_query (ri_target inp))),
             hs_query = ri_query inp, hs_headers = signing_headers, hs_payload_hash = ri_payload_hash inp\<rparr> now))
       (\<lambda>out.
     reject_if (\<not> rx_header_value R (hs_authorization out)) (configuration ''generated authorization header is invalid'')
     (reject_if (\<not> rx_header_value R (hs_amz_date out)) (configuration ''generated signing date is invalid'')
     (let m' = hm_insert ''x-amz-date'' (hs_amz_date out) (hm_insert ''authorization'' (hs_authorization out) m) in
      case hs_security_token out of
        None \<Rightarrow> Inr m'
      | Some token \<Rightarrow>
          reject_if (\<not> rx_header_value R token) (configuration ''generated session token header is invalid'')
          (Inr (hm_insert ''x-amz-security-token'' token m'))))))"

text \<open>
  The whole function. \<open>provided\<close> is what the credential provider answers, \<open>now1\<close> and \<open>now2\<close> the clock at
  the expiry check and at signing. Taking the body of a one-shot stream changes the prepared body.
\<close>

definition signed_request ::
  "'d request_ext \<Rightarrow> request_input \<Rightarrow> s3_error + credentials \<Rightarrow> int \<Rightarrow> int \<Rightarrow> prepared_body option
     \<Rightarrow> (s3_error + 'd signed_http_request) \<times> prepared_body option" where
  "signed_request R inp provided now1 now2 body =
     (case and_then (transport_headers R inp body) (\<lambda>m.
           and_then provided (\<lambda>creds.
           reject_if (expires_by creds now1)
             (new_error Authentication ''credential provider returned expired credentials'' Never)
           (signed_headers_part R inp creds now2 m))) of
        Inl e \<Rightarrow> (Inl e, body)
      | Inr m \<Rightarrow>
          (let (taken_body, body') =
              (case body of
                 None \<Rightarrow> (Inr (transport_body_empty (rx_checksum R)), None)
               | Some b \<Rightarrow> (let (tb, b') = request_body (rx_checksum R) (rx_open_file R) b in (tb, Some b'))) in
           (and_then taken_body (\<lambda>tb.
              reject_if (\<not> rx_request_ok R (ri_method inp) (eu_serialized (ri_target inp)))
                (with_source ''http::error::Error'' (configuration ''signed request could not be constructed''))
              (Inr \<lparr>sr_method = ri_method inp, sr_uri = eu_serialized (ri_target inp), sr_headers = m, sr_body = tb\<rparr>)),
            body')))"

section \<open>Presigned URLs\<close>

text \<open>\<open>checked_add\<close> is the parameter \<open>add_time\<close>: the instant a duration later, if it can be represented.\<close>

definition presign ::
  "'d request_ext \<Rightarrow> uri_ext \<Rightarrow> (int \<Rightarrow> duration \<Rightarrow> int option) \<Rightarrow> ('p, 'o) client \<Rightarrow> string \<Rightarrow> object_key
     \<Rightarrow> (string \<times> string) list \<Rightarrow> duration \<Rightarrow> s3_error + credentials \<Rightarrow> int \<Rightarrow> s3_error + presigned_url" where
  "presign R U add_time cl mth key query expires provided now =
     and_then (operation_target U cl (Some (key_str key))) (\<lambda>target.
     and_then provided (\<lambda>creds.
     reject_if (expires_by creds now)
       (new_error Authentication ''credential provider returned expired credentials'' Never)
     (let url_expiry = add_time now expires in
      reject_if (case expires_at creds of None \<Rightarrow> False
                 | Some credential_expiry \<Rightarrow> (case url_expiry of None \<Rightarrow> True | Some x \<Rightarrow> credential_expiry \<le> x))
        (new_error Authentication ''presigned URL lifetime must end before the credentials expire'' Never)
      (and_then (map_err (\<lambda>e. with_source ''s3_wire::signing::request::types::SigningError''
             (new_error Authentication ''presigned URL generation failed'' Never))
          (sign_presigned (rx_signing R) (signing_credentials_of creds)
             \<lparr>scope_region = cfg_region (cl_config cl), scope_service = ''s3''\<rparr>
             \<lparr>ps_method = mth, ps_uri_path = Encoded (eu_path_and_query target),
              ps_query = map (\<lambda>(n, v). \<lparr>qp_name = n, qp_value = v\<rparr>) query,
              ps_headers = [\<lparr>h_name = ''host'', h_value = eu_authority target\<rparr>],
              ps_expires = expires, ps_payload_hash = None\<rparr> now))
       (\<lambda>q. Inr (PresignedUrl (eu_serialized target @ ''?'' @ q)))))))"

definition presigned_get where
  "presigned_get R U add_time cl key expires provided now = presign R U add_time cl ''GET'' key [] expires provided now"

definition presigned_put where
  "presigned_put R U add_time cl key expires provided now = presign R U add_time cl ''PUT'' key [] expires provided now"

definition presigned_head where
  "presigned_head R U add_time cl key expires provided now = presign R U add_time cl ''HEAD'' key [] expires provided now"

definition presigned_delete where
  "presigned_delete R U add_time cl key expires provided now = presign R U add_time cl ''DELETE'' key [] expires provided now"

definition presigned_create_multipart_upload where
  "presigned_create_multipart_upload R U add_time cl key expires provided now =
     presign R U add_time cl ''POST'' key [(''uploads'', [])] expires provided now"

definition presigned_upload_part where
  "presigned_upload_part R U add_time cl key upload_id n expires provided now =
     presign R U add_time cl ''PUT'' key
       [(''partNumber'', to_string (unat (part_get n))), (''uploadId'', upload_id_str upload_id)] expires provided now"

definition presigned_abort_multipart_upload where
  "presigned_abort_multipart_upload R U add_time cl key upload_id expires provided now =
     presign R U add_time cl ''DELETE'' key [(''uploadId'', upload_id_str upload_id)] expires provided now"


section \<open>What a signed request carries\<close>

lemma owned_headers_names: "owned_headers R m = Inr hs \<Longrightarrow> map h_name hs = map fst m"
  by (induction m arbitrary: hs) (auto simp: owned_headers_def)

lemma lower_fixed [simp]:
  "str_to_ascii_lowercase ''host'' = ''host''"
  "str_to_ascii_lowercase ''x-amz-content-sha256'' = ''x-amz-content-sha256''"
  "str_to_ascii_lowercase ''content-length'' = ''content-length''"
  by code_simp+

lemma transport_headers_facts:
  assumes "transport_headers R inp body = Inr m"
  shows "map_of m ''host'' = Some (eu_authority (ri_target inp))"
    and "map_of m ''x-amz-content-sha256'' = Some (ri_payload_hash inp)"
    and "\<forall>b. body = Some b \<longrightarrow> map_of m ''content-length'' = Some (to_string (pb_length b))"
    and "set (map fst m) \<subseteq> set (map fst (ri_headers inp)) \<union> {''host'', ''x-amz-content-sha256'', ''content-length''}"
    and "k \<notin> {''host'', ''x-amz-content-sha256'', ''content-length''} \<Longrightarrow> map_of m k = map_of (ri_headers inp) k"
proof -
  let ?m = "hm_insert ''x-amz-content-sha256'' (ri_payload_hash inp)
      (hm_insert ''host'' (eu_authority (ri_target inp)) (ri_headers inp))"
  have m: "m = (case body of None \<Rightarrow> ?m | Some b \<Rightarrow> hm_insert ''content-length'' (to_string (pb_length b)) ?m)"
    using assms by (auto simp: transport_headers_def Let_def split: if_split_asm)
  show "map_of m ''host'' = Some (eu_authority (ri_target inp))"
    "map_of m ''x-amz-content-sha256'' = Some (ri_payload_hash inp)"
    "\<forall>b. body = Some b \<longrightarrow> map_of m ''content-length'' = Some (to_string (pb_length b))"
    unfolding m by (auto simp: hm_insert_lookup split: option.splits)
  show "k \<notin> {''host'', ''x-amz-content-sha256'', ''content-length''} \<Longrightarrow> map_of m k = map_of (ri_headers inp) k"
    unfolding m by (auto simp: hm_insert_lookup split: option.splits)
  show "set (map fst m) \<subseteq> set (map fst (ri_headers inp)) \<union> {''host'', ''x-amz-content-sha256'', ''content-length''}"
    unfolding m by (cases body) (auto simp: hm_insert_names simp del: set_map)
qed

lemma owned_lower_names:
  assumes "owned_headers R m = Inr hs" and "\<forall>n \<in> set (map fst m). str_to_ascii_lowercase n = n"
  shows "map lower_name hs = map fst m"
proof -
  have "map lower_name hs = map str_to_ascii_lowercase (map fst m)"
    using owned_headers_names[OF assms(1)] by (metis (no_types) lower_name_def list.map_comp map_cong comp_apply)
  also have "\<dots> = map fst m" using assms(2) by (simp add: map_idI)
  finally show ?thesis .
qed

definition with_signature :: "header_signing_output \<Rightarrow> header_map \<Rightarrow> header_map" where
  "with_signature out m = (let m' = hm_insert ''x-amz-date'' (hs_amz_date out) (hm_insert ''authorization'' (hs_authorization out) m) in
     case hs_security_token out of None \<Rightarrow> m' | Some token \<Rightarrow> hm_insert ''x-amz-security-token'' token m')"

lemma with_signature_facts:
  "map_of (with_signature out m) ''authorization'' = Some (hs_authorization out)"
  "k \<notin> {''authorization'', ''x-amz-date'', ''x-amz-security-token''} \<Longrightarrow> map_of (with_signature out m) k = map_of m k"
  "set (map fst (with_signature out m)) = insert ''authorization'' (insert ''x-amz-date'' (set (map fst m)) \<union>
     (case hs_security_token out of None \<Rightarrow> {} | Some _ \<Rightarrow> {''x-amz-security-token''}))"
  by (auto simp: with_signature_def hm_insert_lookup hm_insert_names Let_def simp del: set_map split: option.splits)

text \<open>
  The headers a signature must cover, read off the request that is sent: every header but the authorization, with the text of its value. The
  signer's own two values are inserted as the very text that was signed; of any other value the text is what \<open>to_str\<close> reads.
\<close>

definition signed_text :: "'d request_ext \<Rightarrow> string \<times> string \<Rightarrow> string" where
  "signed_text R e = (if fst e \<in> {''x-amz-date'', ''x-amz-security-token''} then snd e else the (rx_to_str R (snd e)))"

definition covered_headers :: "'d request_ext \<Rightarrow> header_map \<Rightarrow> header list" where
  "covered_headers R m = map (\<lambda>e. \<lparr>h_name = fst e, h_value = signed_text R e\<rparr>) (filter (\<lambda>e. fst e \<noteq> ''authorization'') m)"

lemma owned_headers_text: "owned_headers R m = Inr hs \<Longrightarrow> hs = map (\<lambda>e. \<lparr>h_name = fst e, h_value = the (rx_to_str R (snd e))\<rparr>) m"
  by (induction m arbitrary: hs) (auto simp: owned_headers_def ok_or_def and_then_def split: option.splits sum.splits)

lemma hm_insert_fresh: "n \<notin> fst ` set m \<Longrightarrow> hm_insert n v m = m @ [(n, v)]"
  by (auto simp: hm_insert_def filter_id_conv)

lemma covered_all_signed:
  assumes "owned_headers R m = Inr hs" and "\<And>n. n \<in> {''authorization'', ''x-amz-date'', ''x-amz-security-token''} \<Longrightarrow> n \<notin> fst ` set m"
    and "hs_security_token out = sc_session_token cr" and "hs_headers req = hs"
  shows "covered_headers R (with_signature out m) = all_signed_headers cr req (hs_amz_date out)"
proof -
  have f: "''authorization'' \<notin> fst ` set m" "''x-amz-date'' \<notin> fst ` set m" "''x-amz-security-token'' \<notin> fst ` set m"
    by (rule assms(2); simp)+
  have "with_signature out m = m @ [(''authorization'', hs_authorization out), (''x-amz-date'', hs_amz_date out)] @
      (case sc_session_token cr of None \<Rightarrow> [] | Some t \<Rightarrow> [(''x-amz-security-token'', t)])"
    using f by (auto simp: with_signature_def hm_insert_fresh assms(3) Let_def image_iff split: option.split)
  moreover have "filter (\<lambda>e. fst e \<noteq> ''authorization'') m = m" using f(1) by (force simp: filter_id_conv)
  moreover have "fst e \<notin> {''x-amz-date'', ''x-amz-security-token''}" if "e \<in> set m" for e using f(2,3) that by force
  then have "map (\<lambda>e. \<lparr>h_name = fst e, h_value = signed_text R e\<rparr>) m = hs"
    unfolding owned_headers_text[OF assms(1)] by (simp add: signed_text_def)
  ultimately show ?thesis
    by (simp add: covered_headers_def all_signed_headers_def assms(4) token_header_def signed_text_def split: option.split)
qed

lemma sigv4_names_covered:
  assumes "\<forall>n \<in> fst ` set m. str_to_ascii_lowercase n = n"
  shows "sigv4_names (covered_headers R m) = join '';'' (sorted_list_of_set (set (map fst m) - {''authorization''}))"
proof -
  have "set (map lower_name (covered_headers R m)) = set (map fst m) - {''authorization''}"
    using assms by (force simp: covered_headers_def lower_name_def image_iff)
  then show ?thesis by (simp add: sigv4_names_def)
qed

lemma signed_headers_part_facts:
  assumes "crypto_documented (rx_signing R)" and "signed_headers_part R inp creds now m = Inr m'"
    and "\<forall>n \<in> fst ` set m. str_to_ascii_lowercase n = n"
  shows "\<exists>date amz uri sig. ext_date (rx_signing R) now = Some date \<and> ext_amz_date (rx_signing R) now = Some amz \<and>
      map_of m' ''x-amz-date'' = Some amz \<and> canonical_uri_from_encoded (before_query (eu_path_and_query (ri_target inp))) = Inr uri \<and>
      sig = sigv4_signature (rx_signing R) (secret_access_key creds) date amz (ri_signing_region inp) ''s3'' (ri_method inp) uri
        (ri_query inp) (covered_headers R m') (ri_payload_hash inp) \<and> is_hex_signature sig \<and>
      map_of m' ''authorization'' = Some (ALGORITHM @ '' Credential='' @ access_key_id creds @ ''/'' @
        credential_scope date \<lparr>scope_region = ri_signing_region inp, scope_service = ''s3''\<rparr> @ '', SignedHeaders='' @
        join '';'' (sorted_list_of_set (set (map fst m') - {''authorization''})) @ '', Signature='' @ sig)"
    and "k \<notin> {''authorization'', ''x-amz-date'', ''x-amz-security-token''} \<Longrightarrow> map_of m' k = map_of m k"
proof -
  let ?sc = "\<lparr>scope_region = ri_signing_region inp, scope_service = ''s3''\<rparr>" and ?cr = "signing_credentials_of creds"
  define mk where "mk = (\<lambda>hs. \<lparr>hs_method = ri_method inp, hs_uri_path = Encoded (before_query (eu_path_and_query (ri_target inp))),
     hs_query = ri_query inp, hs_headers = hs, hs_payload_hash = ri_payload_hash inp\<rparr>)"
  from assms(2) obtain hs out where hs: "owned_headers R m = Inr hs"
    and out: "sign_headers (rx_signing R) ?cr ?sc (mk hs) now = Inr out" and m': "m' = with_signature out m"
    unfolding signed_headers_part_def mk_def[symmetric] with_signature_def
    by (auto simp: Let_def mk_def split: if_split_asm option.splits; force)
  have req: "hs_headers (mk hs) = hs" "hs_method (mk hs) = ri_method inp" "hs_query (mk hs) = ri_query inp"
    "hs_payload_hash (mk hs) = ri_payload_hash inp" "hs_uri_path (mk hs) = Encoded (before_query (eu_path_and_query (ri_target inp)))"
    by (simp_all add: mk_def)
  from sign_headers_shape[OF assms(1) out, unfolded req path_canonical_def signing_path.case] obtain date uri sig where
    d: "ext_date (rx_signing R) now = Some date" "ext_amz_date (rx_signing R) now = Some (hs_amz_date out)"
      "canonical_uri_from_encoded (before_query (eu_path_and_query (ri_target inp))) = Inr uri"
      "sig = sigv4_signature (rx_signing R) (sc_secret_access_key ?cr) date (hs_amz_date out) (scope_region ?sc) (scope_service ?sc) (ri_method inp) uri
        (ri_query inp) (all_signed_headers ?cr (mk hs) (hs_amz_date out)) (ri_payload_hash inp)"
      "hs_authorization out = ALGORITHM @ '' Credential='' @ sc_access_key_id ?cr @ ''/'' @ credential_scope date ?sc @ '', SignedHeaders='' @
         sigv4_names (all_signed_headers ?cr (mk hs) (hs_amz_date out)) @ '', Signature='' @ sig" "is_hex_signature sig"
      "hs_security_token out = sc_session_token ?cr"
    and free: "\<forall>h \<in> set hs. lower_name h \<notin> {''authorization'', ''x-amz-date'', ''x-amz-security-token''}" by blast
  have "n \<notin> fst ` set m" if "n \<in> {''authorization'', ''x-amz-date'', ''x-amz-security-token''}" for n
  proof
    assume "n \<in> fst ` set m"
    then have "n \<in> lower_name ` set hs" using owned_lower_names[OF hs] assms(3) by (metis list.set_map)
    with free that show False by auto
  qed
  then have c: "covered_headers R m' = all_signed_headers ?cr (mk hs) (hs_amz_date out)"
    unfolding m' by (rule covered_all_signed[OF hs _ d(7) req(1)])
  have "\<forall>n \<in> fst ` set m'. str_to_ascii_lowercase n = n"
    using assms(3) lower_reserved unfolding m' set_map[symmetric] with_signature_facts(3) by (auto split: option.splits)
  note names = sigv4_names_covered[OF this, of R]
  have cr: "sc_secret_access_key ?cr = secret_access_key creds" "sc_access_key_id ?cr = access_key_id creds"
    "scope_region ?sc = ri_signing_region inp" "scope_service ?sc = ''s3''" by (simp_all add: signing_credentials_of_def)
  have a: "map_of m' ''authorization'' = Some (hs_authorization out)" "map_of m' ''x-amz-date'' = Some (hs_amz_date out)"
    unfolding m' by (auto simp: with_signature_facts with_signature_def hm_insert_lookup Let_def split: option.split)
  show "\<exists>date amz uri sig. ext_date (rx_signing R) now = Some date \<and> ext_amz_date (rx_signing R) now = Some amz \<and>
      map_of m' ''x-amz-date'' = Some amz \<and> canonical_uri_from_encoded (before_query (eu_path_and_query (ri_target inp))) = Inr uri \<and>
      sig = sigv4_signature (rx_signing R) (secret_access_key creds) date amz (ri_signing_region inp) ''s3'' (ri_method inp) uri
        (ri_query inp) (covered_headers R m') (ri_payload_hash inp) \<and> is_hex_signature sig \<and>
      map_of m' ''authorization'' = Some (ALGORITHM @ '' Credential='' @ access_key_id creds @ ''/'' @
        credential_scope date ?sc @ '', SignedHeaders='' @
        join '';'' (sorted_list_of_set (set (map fst m') - {''authorization''})) @ '', Signature='' @ sig)"
    using d(1-3,6) a d(4,5)[folded c, unfolded names cr] by (metis (no_types))
  show "k \<notin> {''authorization'', ''x-amz-date'', ''x-amz-security-token''} \<Longrightarrow> map_of m' k = map_of m k"
    unfolding m' by (rule with_signature_facts)
qed

lemma signed_request_Inr:
  assumes "signed_request R inp provided now1 now2 body = (Inr rq, body')"
  obtains creds m where "provided = Inr creds" and "\<not> expires_by creds now1"
    and "transport_headers R inp body = Inr m" and "signed_headers_part R inp creds now2 m = Inr (sr_headers rq)"
    and "sr_method rq = ri_method inp" and "sr_uri rq = eu_serialized (ri_target inp)"
  using assms unfolding signed_request_def
  by (auto simp: Let_def split: sum.splits prod.splits option.splits if_split_asm)

text \<open>
  Property C21. Every header that goes out is covered by the signature: a signed request is sent to the given
  target with the given method, under credentials that have not expired; its \<open>host\<close> is the target's authority, its
  payload hash and content length are those of the body, and the caller's other headers are unchanged. The
  authorization names every header of the request except itself, and its signature is the one Signature Version 4 prescribes over the method, the
  canonical path of the target, the query parameters, the payload hash and the values of exactly the headers that are sent.
\<close>

theorem signed_request_covers_headers:
  assumes "crypto_documented (rx_signing R)" and "signed_request R inp provided now1 now2 body = (Inr rq, body')"
    and "\<forall>n \<in> fst ` set (ri_headers inp). str_to_ascii_lowercase n = n"
  shows "sr_method rq = ri_method inp \<and> sr_uri rq = eu_serialized (ri_target inp) \<and>
    map_of (sr_headers rq) ''host'' = Some (eu_authority (ri_target inp)) \<and>
    map_of (sr_headers rq) ''x-amz-content-sha256'' = Some (ri_payload_hash inp) \<and>
    (\<forall>b. body = Some b \<longrightarrow> map_of (sr_headers rq) ''content-length'' = Some (to_string (pb_length b))) \<and>
    (\<forall>k. k \<notin> {''host'', ''x-amz-content-sha256'', ''content-length'', ''authorization'', ''x-amz-date'', ''x-amz-security-token''} \<longrightarrow>
       map_of (sr_headers rq) k = map_of (ri_headers inp) k) \<and>
    (\<exists>creds date amz uri. provided = Inr creds \<and> \<not> expires_by creds now1 \<and>
      ext_date (rx_signing R) now2 = Some date \<and> ext_amz_date (rx_signing R) now2 = Some amz \<and>
      map_of (sr_headers rq) ''x-amz-date'' = Some amz \<and>
      canonical_uri_from_encoded (before_query (eu_path_and_query (ri_target inp))) = Inr uri \<and>
      map_of (sr_headers rq) ''authorization'' = Some (''AWS4-HMAC-SHA256 Credential='' @ access_key_id creds @ ''/'' @
        date @ ''/'' @ ri_signing_region inp @ ''/s3/aws4_request, SignedHeaders='' @
        join '';'' (sorted_list_of_set (set (map fst (sr_headers rq)) - {''authorization''})) @ '', Signature='' @
        sigv4_signature (rx_signing R) (secret_access_key creds) date amz (ri_signing_region inp) ''s3'' (sr_method rq) uri
          (ri_query inp) (covered_headers R (sr_headers rq)) (ri_payload_hash inp)))"
proof -
  from signed_request_Inr[OF assms(2)] obtain creds m where
    c: "provided = Inr creds" "\<not> expires_by creds now1" and m: "transport_headers R inp body = Inr m"
    and part: "signed_headers_part R inp creds now2 m = Inr (sr_headers rq)"
    and rq: "sr_method rq = ri_method inp" "sr_uri rq = eu_serialized (ri_target inp)" .
  note t = transport_headers_facts[OF m]
  have low: "\<forall>n \<in> fst ` set m. str_to_ascii_lowercase n = n"
  proof
    fix n assume "n \<in> fst ` set m"
    with t(4) have "n \<in> fst ` set (ri_headers inp) \<or> n \<in> {''host'', ''x-amz-content-sha256'', ''content-length''}" by auto
    with assms(3) show "str_to_ascii_lowercase n = n" by auto
  qed
  note s = signed_headers_part_facts[OF assms(1) part low]
  have "map_of (sr_headers rq) ''host'' = map_of m ''host''"
    "map_of (sr_headers rq) ''x-amz-content-sha256'' = map_of m ''x-amz-content-sha256''"
    "map_of (sr_headers rq) ''content-length'' = map_of m ''content-length''"
    by (rule s(2); simp)+
  moreover have "map_of (sr_headers rq) k = map_of (ri_headers inp) k"
    if "k \<notin> {''host'', ''x-amz-content-sha256'', ''content-length'', ''authorization'', ''x-amz-date'', ''x-amz-security-token''}" for k
    using s(2)[of k] t(5)[of k] that by simp
  moreover from s(1) obtain date amz uri where "ext_date (rx_signing R) now2 = Some date" "ext_amz_date (rx_signing R) now2 = Some amz"
    "map_of (sr_headers rq) ''x-amz-date'' = Some amz" "canonical_uri_from_encoded (before_query (eu_path_and_query (ri_target inp))) = Inr uri"
    "map_of (sr_headers rq) ''authorization'' = Some (''AWS4-HMAC-SHA256 Credential='' @ access_key_id creds @ ''/'' @
        date @ ''/'' @ ri_signing_region inp @ ''/s3/aws4_request, SignedHeaders='' @
        join '';'' (sorted_list_of_set (set (map fst (sr_headers rq)) - {''authorization''})) @ '', Signature='' @
        sigv4_signature (rx_signing R) (secret_access_key creds) date amz (ri_signing_region inp) ''s3'' (ri_method inp) uri
          (ri_query inp) (covered_headers R (sr_headers rq)) (ri_payload_hash inp))"
    by (auto simp: credential_scope_def)
  ultimately show ?thesis using t(1-3) rq c by metis
qed

definition example_request_ext :: "string request_ext" where
  "example_request_ext = \<lparr>rx_signing = constant_ext, rx_checksum = text_ext, rx_header_value = (\<lambda>_. True),
     rx_header_name = Some, rx_to_str = Some, rx_request_ok = (\<lambda>_ _. True), rx_open_file = (\<lambda>b. Inr [PollChunk b])\<rparr>"

definition example_input :: request_input where
  "example_input = \<lparr>ri_method = ''GET'', ri_target = example_target, ri_query = [], ri_headers = [],
     ri_payload_hash = UNSIGNED_PAYLOAD, ri_signing_region = ''us-east-1''\<rparr>"

definition example_creds :: credentials where
  "example_creds = \<lparr>access_key_id = ''AKID'', secret_access_key = ''secret'', session_token = None, expires_at = None\<rparr>"

lemma example_signed_request: "\<not> isl (fst (signed_request example_request_ext example_input (Inr example_creds) 0 0 None))"
  by code_simp

theorem signed_request_covers_headers_witness:
  "\<exists>rq body'. signed_request example_request_ext example_input (Inr example_creds) 0 0 None = (Inr rq, body') \<and>
     map_of (sr_headers rq) ''host'' = Some ''s3.test''"
proof -
  obtain rq body' where r: "signed_request example_request_ext example_input (Inr example_creds) 0 0 None = (Inr rq, body')"
    using not_isl_Inr[OF example_signed_request] by (metis prod.collapse)
  have x: "crypto_documented (rx_signing example_request_ext)"
    using constant_ext_documented by (simp add: example_request_ext_def)
  from signed_request_covers_headers[OF x r] have "map_of (sr_headers rq) ''host'' = Some (eu_authority (ri_target example_input))"
    by (simp add: example_input_def)
  with r show ?thesis by (auto simp: example_input_def example_target_def)
qed

text \<open>The parameters that presigning adds to the caller's query, with \<open>host\<close> as the one signed header.\<close>

definition presign_params :: "credentials \<Rightarrow> string \<Rightarrow> string \<Rightarrow> string \<Rightarrow> nat \<Rightarrow> query_param list" where
  "presign_params creds region date amz n =
     [\<lparr>qp_name = ''X-Amz-Algorithm'', qp_value = ''AWS4-HMAC-SHA256''\<rparr>,
      \<lparr>qp_name = ''X-Amz-Credential'', qp_value = access_key_id creds @ ''/'' @ date @ ''/'' @ region @ ''/s3/aws4_request''\<rparr>,
      \<lparr>qp_name = ''X-Amz-Date'', qp_value = amz\<rparr>,
      \<lparr>qp_name = ''X-Amz-Expires'', qp_value = to_string n\<rparr>,
      \<lparr>qp_name = ''X-Amz-SignedHeaders'', qp_value = ''host''\<rparr>] @
     (case session_token creds of None \<Rightarrow> [] | Some t \<Rightarrow> [\<lparr>qp_name = ''X-Amz-Security-Token'', qp_value = t\<rparr>])"

lemma host_block: "canonical_headers [\<lparr>h_name = ''host'', h_value = v\<rparr>] = Inr block \<Longrightarrow> signed block = ''host''"
  by (simp add: canonical_headers_iff render_headers_def grouped_headers_def lower_name_def comp_def)

text \<open>
  Property C36. A presigned URL is the object's own target with the signed query, and it never outlives the
  credentials. The query holds the caller's parameters and the signer's (the algorithm, the credential's scope, the date, the lifetime, the
  signed header and the session token), followed by the signature that Signature Version 4 prescribes over the method, the target's path and host and
  those parameters. Presigning succeeds only with unexpired credentials whose expiry, if any, lies after the URL's, and
  the lifetime is a whole number of seconds between one second and seven days.
\<close>

theorem presign_within_credentials:
  assumes "crypto_documented (rx_signing R)" and "presign R U add_time cl mth key query expires provided now = Inr url"
  shows "\<exists>target creds date amz uri n params. operation_target U cl (Some (key_str key)) = Inr target \<and> provided = Inr creds \<and>
    ext_date (rx_signing R) now = Some date \<and> ext_amz_date (rx_signing R) now = Some amz \<and>
    canonical_uri_from_encoded (eu_path_and_query target) = Inr uri \<and>
    params = map (\<lambda>(name, v). \<lparr>qp_name = name, qp_value = v\<rparr>) query @ presign_params creds (cfg_region (cl_config cl)) date amz n \<and>
    expose url = eu_serialized target @ ''?'' @ canonical_query params @ ''&X-Amz-Signature='' @
      sigv4_signature (rx_signing R) (secret_access_key creds) date amz (cfg_region (cl_config cl)) ''s3'' mth uri params
        [\<lparr>h_name = ''host'', h_value = eu_authority target\<rparr>] ''UNSIGNED-PAYLOAD'' \<and>
    \<not> expires_by creds now \<and> 1 \<le> n \<and> n \<le> 604800 \<and> expires = from_secs n \<and>
    (\<forall>x. expires_at creds = Some x \<longrightarrow> (\<exists>y. add_time now expires = Some y \<and> y < x))"
proof -
  let ?req = "\<lambda>target. \<lparr>ps_method = mth, ps_uri_path = Encoded (eu_path_and_query target),
      ps_query = map (\<lambda>(n, v). \<lparr>qp_name = n, qp_value = v\<rparr>) query,
      ps_headers = [\<lparr>h_name = ''host'', h_value = eu_authority target\<rparr>], ps_expires = expires, ps_payload_hash = None\<rparr>"
  let ?sc = "\<lparr>scope_region = cfg_region (cl_config cl), scope_service = ''s3''\<rparr>"
  from assms(2) obtain target creds q where t: "operation_target U cl (Some (key_str key)) = Inr target" "provided = Inr creds"
    "\<not> expires_by creds now" "url = PresignedUrl (eu_serialized target @ ''?'' @ q)"
    and e: "\<not> (case expires_at creds of None \<Rightarrow> False
       | Some credential_expiry \<Rightarrow> (case add_time now expires of None \<Rightarrow> True | Some x \<Rightarrow> credential_expiry \<le> x))"
    and q: "sign_presigned (rx_signing R) (signing_credentials_of creds) ?sc (?req target) now = Inr q"
    unfolding presign_def by (auto simp: Let_def split: if_split_asm)
  from sign_presigned_shape[OF assms(1) q] obtain n date amz block uri where
    n: "1 \<le> n" "n \<le> 604800" "expires = from_secs n" and d: "ext_date (rx_signing R) now = Some date" "ext_amz_date (rx_signing R) now = Some amz"
    and u: "canonical_uri_from_encoded (eu_path_and_query target) = Inr uri"
    and b: "canonical_headers [\<lparr>h_name = ''host'', h_value = eu_authority target\<rparr>] = Inr block"
    and s: "q = canonical_query (map (\<lambda>(n, v). \<lparr>qp_name = n, qp_value = v\<rparr>) query @
        signing_params (signing_credentials_of creds) (credential_scope date ?sc) amz n block) @ ''&X-Amz-Signature='' @
        sigv4_signature (rx_signing R) (secret_access_key creds) date amz (cfg_region (cl_config cl)) ''s3'' mth uri
          (map (\<lambda>(n, v). \<lparr>qp_name = n, qp_value = v\<rparr>) query @
            signing_params (signing_credentials_of creds) (credential_scope date ?sc) amz n block)
          [\<lparr>h_name = ''host'', h_value = eu_authority target\<rparr>] UNSIGNED_PAYLOAD"
    by (auto simp: path_canonical_def signing_credentials_of_def)
  have "signing_params (signing_credentials_of creds) (credential_scope date ?sc) amz n block =
      presign_params creds (cfg_region (cl_config cl)) date amz n"
    by (simp add: signing_params_def presign_params_def signing_credentials_of_def credential_scope_def host_block[OF b])
  note s = s[unfolded this]
  have "\<forall>x. expires_at creds = Some x \<longrightarrow> (\<exists>y. add_time now expires = Some y \<and> y < x)"
    using e by (auto split: option.splits)
  with t n d u show ?thesis unfolding s by auto
qed

definition example_client :: "(unit, unit) client" where
  "example_client = \<lparr>cl_config = \<lparr>cfg_endpoint = example_endpoint, cfg_region = ''us-east-1'', cfg_bucket = ''b'',
     cfg_addressing_style = Path, cfg_connect_timeout = 1, cfg_attempt_timeout = 1, cfg_operation_timeout = 1,
     cfg_idle_body_timeout = 1, cfg_max_xml_response_size = 1, cfg_max_error_response_size = 1,
     cfg_retry_policy = standard_policy, cfg_user_agent = ''a'', cfg_credentials_provider = (), cfg_observer = Some ()\<rparr>,
     cl_transport = \<lparr>tr_client = https_connector False False (http_connector 1), tr_user_agent = ''a'', tr_allow_http = False\<rparr>,
     cl_quota = 0\<rparr>"

lemma example_target_op: "operation_target example_uri_ext example_client (Some ''a b'') = Inr example_target"
  by (simp add: operation_target_def example_client_def example_object_url)

theorem presign_within_credentials_witness:
  "\<exists>url. presigned_get example_request_ext example_uri_ext (\<lambda>t d. Some (t + int d)) example_client (ObjectKey ''a b'')
      (from_secs 60) (Inr example_creds) 0 = Inr url \<and>
    (\<exists>sig. expose url = ''https://s3.test/b/a%20b?X-Amz-Algorithm=AWS4-HMAC-SHA256&X-Amz-Credential=AKID%2F20130524%2Fus-east-1%2Fs3%2Faws4_request&X-Amz-Date=20130524T000000Z&X-Amz-Expires=60&X-Amz-SignedHeaders=host&X-Amz-Signature='' @ sig)"
proof -
  let ?p = "presign example_request_ext example_uri_ext (\<lambda>t d. Some (t + int d)) example_client ''GET'' (ObjectKey ''a b'')
      [] (from_secs 60) (Inr example_creds) 0"
  let ?req = "\<lparr>ps_method = ''GET'', ps_uri_path = Encoded (eu_path_and_query example_target), ps_query = [],
      ps_headers = [\<lparr>h_name = ''host'', h_value = eu_authority example_target\<rparr>], ps_expires = from_secs 60, ps_payload_hash = None\<rparr>"
  let ?sc = "\<lparr>scope_region = ''us-east-1'', scope_service = ''s3''\<rparr>"
  have "\<not> isl (canonical_headers [\<lparr>h_name = ''host'', h_value = eu_authority example_target\<rparr>])" by code_simp
  then obtain block where h: "canonical_headers (ps_headers ?req) = Inr block" using not_isl_Inr by auto
  have "\<not> isl (path_canonical (Encoded (eu_path_and_query example_target)))" by code_simp
  then obtain uri where u: "path_canonical (ps_uri_path ?req) = Inr uri" using not_isl_Inr by auto
  have c: "validate_common (signing_credentials_of example_creds) ?sc ''GET'' = Inr ()" by code_simp
  have "\<exists>q. sign_presigned constant_ext (signing_credentials_of example_creds) ?sc ?req 0 = Inr q"
  proof (rule sign_presigned_succeeds[OF constant_ext_documented _ _ _ _ _ h _ u])
    show "format_timestamp constant_ext 0 = Inr (''20130524T000000Z'', ''20130524'')"
      by (simp add: format_timestamp_def constant_ext_def)
  qed (simp_all add: c reject_reserved_query_def as_secs_def subsec_nanos_def from_secs_def MAX_PRESIGN_EXPIRY_def)
  then obtain q where q: "sign_presigned constant_ext (signing_credentials_of example_creds) ?sc ?req 0 = Inr q" by blast
  have p: "?p = Inr (PresignedUrl (eu_serialized example_target @ ''?'' @ q))"
  proof -
    have "cfg_region (cl_config example_client) = ''us-east-1''" "rx_signing example_request_ext = constant_ext"
      "expires_at example_creds = None" "\<not> expires_by example_creds 0"
      by (simp_all add: example_client_def example_request_ext_def example_creds_def expires_by_def)
    with q show ?thesis by (simp add: presign_def example_target_op Let_def)
  qed
  have x: "crypto_documented (rx_signing example_request_ext)"
    using constant_ext_documented by (simp add: example_request_ext_def)
  from presign_within_credentials[OF x p] obtain target creds date amz uri n params where
    w: "operation_target example_uri_ext example_client (Some (key_str (ObjectKey ''a b''))) = Inr target" "Inr example_creds = Inr creds"
      "ext_date (rx_signing example_request_ext) 0 = Some date" "ext_amz_date (rx_signing example_request_ext) 0 = Some amz"
      "params = map (\<lambda>(name, v). \<lparr>qp_name = name, qp_value = v\<rparr>) [] @ presign_params creds (cfg_region (cl_config example_client)) date amz n"
      "from_secs 60 = from_secs n"
    and u: "expose (PresignedUrl (eu_serialized example_target @ ''?'' @ q)) = eu_serialized target @ ''?'' @ canonical_query params @
      ''&X-Amz-Signature='' @ sigv4_signature (rx_signing example_request_ext) (secret_access_key creds) date amz
        (cfg_region (cl_config example_client)) ''s3'' ''GET'' uri params [\<lparr>h_name = ''host'', h_value = eu_authority target\<rparr>] ''UNSIGNED-PAYLOAD''"
    by blast
  have eqs: "target = example_target" "creds = example_creds" "params = presign_params example_creds ''us-east-1'' date amz n"
    using w(1,2,5) by (simp_all add: example_target_op) (simp add: example_client_def)
  have d: "ext_date constant_ext 0 = Some date" "ext_amz_date constant_ext 0 = Some amz" "from_secs 60 = from_secs n"
    using w by (simp_all add: example_request_ext_def)
  have dates: "date = ''20130524''" "amz = ''20130524T000000Z''" "n = 60" using d by (simp_all add: constant_ext_def from_secs_def)
  have "canonical_query (presign_params example_creds ''us-east-1'' ''20130524'' ''20130524T000000Z'' 60) =
    ''X-Amz-Algorithm=AWS4-HMAC-SHA256&X-Amz-Credential=AKID%2F20130524%2Fus-east-1%2Fs3%2Faws4_request&X-Amz-Date=20130524T000000Z&X-Amz-Expires=60&X-Amz-SignedHeaders=host''"
    by code_simp
  with u[unfolded eqs dates] p show ?thesis by (auto simp: presigned_get_def example_target_def)
qed

end
