(* ===== verification/Response.thy ===== *)
theory Response
  imports Client_Config Operation_Types
begin

text \<open>
  Response handling, \<open>src/client/request/response.rs\<close> and \<open>src/client/request/retry.rs\<close>: bounded collection
  of a response body, classification of service errors, the filter on service messages, \<open>Retry-After\<close>, and
  the controlled region redirect. Response headers are the function that gives a header's first value; the
  \<open>http\<close> and \<open>httpdate\<close> crates (text of a header value, status text, HTTP dates) are parameters.
\<close>

type_synonym response_headers = "string \<Rightarrow> string option"

record http_ext =
  hx_to_str :: "string \<Rightarrow> string option"
  hx_parse_http_date :: "string \<Rightarrow> int option"
  hx_status_display :: "nat \<Rightarrow> string"

definition header_str :: "http_ext \<Rightarrow> response_headers \<Rightarrow> string \<Rightarrow> string option" where
  "header_str H headers name = Option.bind (headers name) (hx_to_str H)"

section \<open>Region redirects and Retry-After\<close>

definition is_regional_name :: "string \<Rightarrow> string \<Rightarrow> bool" where
  "is_regional_name name pre =
     (case Option.bind (strip_prefix name pre) (\<lambda>rest. strip_prefix rest ''.'') of
        None \<Rightarrow> False
      | Some region \<Rightarrow> region \<noteq> [] \<and> length region \<le> 64 \<and> list_all region_char region)"

definition redirected_aws_authority :: "endpoint_url \<Rightarrow> string \<Rightarrow> string option" where
  "redirected_aws_authority endpoint region =
     (if eu_scheme endpoint \<noteq> ''https'' then None
      else
        let authority = eu_authority endpoint;
            host = (case split_once CHR '':'' authority of None \<Rightarrow> authority | Some (host, _) \<Rightarrow> host) in
        case (case strip_suffix host ''.amazonaws.com.cn'' of
                Some name \<Rightarrow> Some (name, ''amazonaws.com.cn'')
              | None \<Rightarrow> map_option (\<lambda>name. (name, ''amazonaws.com'')) (strip_suffix host ''.amazonaws.com'')) of
          None \<Rightarrow> None
        | Some (name, dns) \<Rightarrow>
            let pre = (if name = ''s3'' \<or> is_regional_name name ''s3'' then Some ''s3''
              else if is_regional_name name ''s3.dualstack'' then Some ''s3.dualstack''
              else if is_regional_name name ''s3-fips'' then Some ''s3-fips''
              else if is_regional_name name ''s3-fips.dualstack'' then Some ''s3-fips.dualstack'' else None) in
            map_option (\<lambda>p. p @ ''.'' @ region @ ''.'' @ dns) pre)"

definition valid_redirect_region :: "string \<Rightarrow> bool" where
  "valid_redirect_region region \<longleftrightarrow> region \<noteq> [] \<and> length region \<le> 64 \<and> list_all region_char region"

definition controlled_region_redirect :: "http_ext \<Rightarrow> nat \<Rightarrow> response_headers \<Rightarrow> string option" where
  "controlled_region_redirect H st headers =
     (if st \<notin> {301, 307, 308, 400} then None
      else case header_str H headers ''x-amz-bucket-region'' of
        None \<Rightarrow> None
      | Some region \<Rightarrow> if valid_redirect_region region then Some region else None)"

text \<open>The clock reading \<open>now\<close> and HTTP dates are nanoseconds of the Unix epoch.\<close>

definition parse_retry_after_value :: "http_ext \<Rightarrow> int \<Rightarrow> string \<Rightarrow> duration option" where
  "parse_retry_after_value H now raw =
     Option.bind (hx_to_str H raw) (\<lambda>v.
       case parse_u64 v of
         Some seconds \<Rightarrow> Some (from_secs seconds)
       | None \<Rightarrow> map_option (\<lambda>retry_at. if now \<le> retry_at then nat (retry_at - now) else 0) (hx_parse_http_date H v))"

definition parse_retry_after :: "http_ext \<Rightarrow> int \<Rightarrow> response_headers \<Rightarrow> duration option" where
  "parse_retry_after H now headers =
     (case Option.bind (headers ''retry-after'') (parse_retry_after_value H now) of
        Some d \<Rightarrow> Some d
      | None \<Rightarrow> Option.bind (headers ''x-amz-retry-after'') (parse_retry_after_value H now))"

section \<open>Collecting a body\<close>

definition operation_timeout :: s3_error where
  "operation_timeout = timeout PhaseOperation ''S3 operation exceeded its overall deadline''"

definition body_idle_timeout :: s3_error where
  "body_idle_timeout = timeout PhaseResponseBody ''response body was idle past its configured timeout''"

definition oversized_response :: "nat \<Rightarrow> s3_error" where
  "oversized_response maximum =
     new_error OversizedResponse (''response exceeded the configured '' @ to_string maximum @ ''-byte limit'') Never"

text \<open>One turn of the loop: the clock readings before, what waiting for a frame gave, and the reading after.\<close>

datatype frame_outcome = WaitTimedOut | BodyEnd | BodyError string | TrailersFrame | DataFrame string

record frame_turn =
  ft_now1 :: nat
  ft_now2 :: nat
  ft_outcome :: frame_outcome
  ft_after :: nat

text \<open>\<open>None\<close> while frames are still awaited.\<close>

fun collect_loop :: "nat \<Rightarrow> duration \<Rightarrow> nat \<Rightarrow> frame_turn list \<Rightarrow> nat \<Rightarrow> string \<Rightarrow> (s3_error + string) option" where
  "collect_loop maximum idle_timeout deadline [] idle_deadline output = None"
| "collect_loop maximum idle_timeout deadline (t # ts) idle_deadline output =
     (if deadline \<le> ft_now1 t then Some (Inl operation_timeout)
      else if idle_deadline \<le> ft_now2 t then Some (Inl body_idle_timeout)
      else case ft_outcome t of
        WaitTimedOut \<Rightarrow> Some (Inl (if deadline \<le> idle_deadline then operation_timeout else body_idle_timeout))
      | BodyEnd \<Rightarrow> Some (Inr output)
      | BodyError e \<Rightarrow> Some (Inl (transport e))
      | TrailersFrame \<Rightarrow> collect_loop maximum idle_timeout deadline ts idle_deadline output
      | DataFrame data \<Rightarrow>
          (if data = [] then collect_loop maximum idle_timeout deadline ts idle_deadline output
           else if U64_MAX < length output + length data \<or> maximum < length output + length data
           then Some (Inl (oversized_response maximum))
           else collect_loop maximum idle_timeout deadline ts (ft_after t + idle_timeout) (output @ data)))"

definition collect_incoming :: "nat \<Rightarrow> duration \<Rightarrow> nat \<Rightarrow> nat \<Rightarrow> frame_turn list \<Rightarrow> (s3_error + string) option" where
  "collect_incoming maximum idle_timeout deadline now turns =
     collect_loop maximum idle_timeout deadline turns (now + idle_timeout) []"

text \<open>
  A response: status, header entries in the order of the map's iterator, the body's declared upper size and the body. The
  code consumes a body in one of two ways: collecting it, where \<open>resp_turns\<close> says what each wait for a frame gives, or as a
  stream handed to the caller, where \<open>resp_stream\<close> says what each poll gives (a failure by its error's type name). Looking a
  header up gives its first value.
\<close>

datatype body_event = BodyChunk string | BodyFailed string | BodyNotReady

record http_response =
  resp_status :: nat
  resp_entries :: header_map
  resp_size_upper :: "nat option"
  resp_now :: nat
  resp_turns :: "frame_turn list"
  resp_stream :: "body_event list"

abbreviation resp_headers :: "http_response \<Rightarrow> response_headers" where
  "resp_headers r \<equiv> map_of (resp_entries r)"

definition collect_response :: "('p, 'o) s3_config \<Rightarrow> nat \<Rightarrow> nat \<Rightarrow> http_response \<Rightarrow> (s3_error + string) option" where
  "collect_response cfg maximum deadline r =
     (if (case resp_size_upper r of Some n \<Rightarrow> maximum < n | None \<Rightarrow> False) then Some (Inl (oversized_response maximum))
      else collect_incoming maximum (cfg_idle_body_timeout cfg) deadline (resp_now r) (resp_turns r))"

definition drain_success_response :: "('p, 'o) s3_config \<Rightarrow> nat \<Rightarrow> http_response \<Rightarrow> (s3_error + unit) option" where
  "drain_success_response cfg deadline r =
     map_option (\<lambda>x. and_then x (\<lambda>_. Inr ())) (collect_response cfg (8 * 1024) deadline r)"

definition data_of :: "frame_turn \<Rightarrow> string" where
  "data_of t = (case ft_outcome t of DataFrame d \<Rightarrow> d | _ \<Rightarrow> [])"

section \<open>Service errors\<close>

record parsed_s3_error =
  pe_code :: "string option"
  pe_message :: "string option"
  pe_request_id :: "string option"
  pe_host_id :: "string option"
  pe_resource :: "string option"
  pe_region :: "string option"

definition code_in :: "string option \<Rightarrow> string list \<Rightarrow> bool" where
  "code_in cd names \<longleftrightarrow> (case cd of None \<Rightarrow> False | Some x \<Rightarrow> list_ex ((=) x) names)"

definition authentication_codes :: "string list" where
  "authentication_codes = [''InvalidAccessKeyId'', ''SignatureDoesNotMatch'', ''ExpiredToken'', ''InvalidToken'']"
definition throttling_codes :: "string list" where
  "throttling_codes = [''SlowDown'', ''Throttling'', ''ThrottlingException'', ''RequestLimitExceeded'',
     ''TooManyRequestsException'', ''BandwidthLimitExceeded'']"
definition server_codes :: "string list" where
  "server_codes = [''InternalError'', ''InternalFailure'', ''ServiceUnavailable'', ''ServiceUnavailableException'',
     ''RequestTimeout'', ''RequestTimeoutException'', ''PriorRequestNotComplete'']"
definition conflict_codes :: "string list" where
  "conflict_codes = [''ConditionalRequestConflict'', ''OperationAborted'']"
definition not_found_codes :: "string list" where
  "not_found_codes = [''NoSuchKey'', ''NoSuchBucket'', ''NoSuchUpload'', ''NotFound'']"

definition classify_service_error :: "nat \<Rightarrow> string option \<Rightarrow> error_category" where
  "classify_service_error st cd =
     (if code_in cd authentication_codes then Authentication
      else if code_in cd [''AccessDenied'', ''AllAccessDisabled''] then Authorization
      else if code_in cd not_found_codes then NotFound
      else if code_in cd [''PreconditionFailed''] then Precondition
      else if code_in cd conflict_codes then Conflict
      else if code_in cd throttling_codes then Throttling
      else if code_in cd server_codes then Server
      else if st = 401 then Authentication
      else if st = 403 then Authorization
      else if st = 404 then NotFound
      else if st = 409 then Conflict
      else if st = 412 then Precondition
      else if st = 429 then Throttling
      else if st = 408 then Server
      else if 500 \<le> st \<and> st < 600 then Server
      else InvalidResponse)"

definition classify_retry :: "nat \<Rightarrow> string option \<Rightarrow> error_category \<Rightarrow> retry_classification" where
  "classify_retry st cd cat =
     (if cat = Throttling then Throttled
      else if cat = Server \<or> cat = Transport \<or> cat = Timeout then Retryable
      else if cat = Conflict \<and> code_in cd conflict_codes then Retryable
      else if st = 500 \<or> st = 502 \<or> st = 503 \<or> st = 504 then Retryable
      else Never)"

definition message_char :: "char \<Rightarrow> bool" where
  "message_char c \<longleftrightarrow> is_ascii_alphanumeric c \<or> is_ascii_whitespace c \<or>
     c \<in> {CHR ''.'', CHR '','', CHR '':'', CHR '';'', CHR ''_'', CHR ''-'', CHR 0x27, CHR ''('', CHR '')''}"

text \<open>\<open>split_ascii_whitespace\<close>: the maximal runs without white space.\<close>

fun split_whitespace :: "string \<Rightarrow> string \<Rightarrow> string list" where
  "split_whitespace w [] = (if w = [] then [] else [w])"
| "split_whitespace w (c # cs) =
     (if is_ascii_whitespace c then (if w = [] then [] else [w]) @ split_whitespace [] cs
      else split_whitespace (w @ [c]) cs)"

definition sanitize_service_message :: "string \<Rightarrow> string option" where
  "sanitize_service_message m =
     (if m = [] \<or> 512 < length m \<or> contains_str m ''X-Amz-'' \<or>
         contains_str (str_to_ascii_lowercase m) ''authorization'' \<or>
         contains_str (str_to_ascii_lowercase m) ''token'' \<or> \<not> list_all message_char m
      then None else Some (join '' '' (split_whitespace [] m)))"

definition header_text :: "http_ext \<Rightarrow> response_headers \<Rightarrow> string \<Rightarrow> string option" where
  "header_text H headers name =
     (case header_str H headers name of
        Some v \<Rightarrow> if v \<noteq> [] \<and> length v \<le> 1024 \<and> list_all (\<lambda>c. \<not> is_ascii_control c) v then Some v else None
      | None \<Rightarrow> None)"

definition or_else :: "'a option \<Rightarrow> 'a option \<Rightarrow> 'a option" where
  "or_else x y = (case x of Some a \<Rightarrow> Some a | None \<Rightarrow> y)"

text \<open>\<open>now\<close> is the reading of the local clock.\<close>

definition service_error :: "http_ext \<Rightarrow> int \<Rightarrow> nat \<Rightarrow> response_headers \<Rightarrow> parsed_s3_error option \<Rightarrow> s3_error" where
  "service_error H now st headers parsed =
     (let cd = Option.bind parsed pe_code;
          cat = classify_service_error st cd;
          cls = classify_retry st cd cat;
          msg = (case Option.bind (Option.bind parsed pe_message) sanitize_service_message of
                   Some m \<Rightarrow> m | None \<Rightarrow> ''S3 request failed with HTTP status '' @ hx_status_display H st);
          rid = or_else (header_text H headers ''x-amz-request-id'') (Option.bind parsed pe_request_id);
          hid = or_else (header_text H headers ''x-amz-id-2'') (Option.bind parsed pe_host_id);
          e = with_service_details cd st rid hid (new_error cat msg cls) in
      if code_in cd [''RequestTimeTooSkewed'', ''RequestExpired''] then
        (case Option.bind (header_str H headers ''date'') (hx_parse_http_date H) of
           Some server \<Rightarrow> with_clock_skew server now e | None \<Rightarrow> e)
      else e)"

text \<open>\<open>parse_s3_error\<close> on the collected body is the XML layer: a parameter here.\<close>

definition response_error ::
  "http_ext \<Rightarrow> (string \<Rightarrow> nat \<Rightarrow> parsed_s3_error option) \<Rightarrow> int \<Rightarrow> ('p, 'o) s3_config \<Rightarrow> nat \<Rightarrow> http_response \<Rightarrow> s3_error option" where
  "response_error H parse_s3_error now cfg deadline r =
     (case collect_response cfg (cfg_max_error_response_size cfg) deadline r of
        None \<Rightarrow> None
      | Some (Inl e) \<Rightarrow> Some e
      | Some (Inr body) \<Rightarrow>
          Some (service_error H now (resp_status r) (resp_headers r)
            (parse_s3_error body (cfg_max_error_response_size cfg))))"

datatype protocol_error =
    Oversized (oversized_actual: nat) (oversized_maximum: nat)
  | InvalidXml string
  | InvalidField (invalid_field: string) (invalid_reason: string)

definition protocol_error_s3 :: "protocol_error \<Rightarrow> s3_error" where
  "protocol_error_s3 e = (case e of
     Oversized _ maximum \<Rightarrow> oversized_response maximum
   | _ \<Rightarrow> with_source ''s3_wire::protocol::xml::ProtocolError'' (invalid_response ''S3 returned malformed XML''))"


section \<open>Collection is bounded\<close>

text \<open>
  The waits for frames that make up a whole body: each before the deadline, all of them data or trailers but the last, which is the end.
\<close>

definition whole_body :: "nat \<Rightarrow> frame_turn list \<Rightarrow> frame_turn \<Rightarrow> bool" where
  "whole_body deadline us t \<longleftrightarrow> ft_outcome t = BodyEnd \<and> (\<forall>u \<in> insert t (set us). ft_now1 u < deadline) \<and>
     (\<forall>u \<in> set us. ft_outcome u = TrailersFrame \<or> (\<exists>d. ft_outcome u = DataFrame d))"

lemma whole_body_Cons:
  "whole_body deadline us t \<Longrightarrow> ft_now1 u < deadline \<Longrightarrow> ft_outcome u = TrailersFrame \<or> (\<exists>d. ft_outcome u = DataFrame d) \<Longrightarrow>
     whole_body deadline (u # us) t"
  by (auto simp: whole_body_def)

lemma collect_loop_Inr:
  "collect_loop maximum idle deadline ts idle_deadline acc = Some (Inr body) \<Longrightarrow> length acc \<le> maximum \<Longrightarrow>
     length body \<le> maximum \<and>
     (\<exists>us t rest. ts = us @ t # rest \<and> whole_body deadline us t \<and> body = acc @ concat (map data_of us))"
proof (induction ts arbitrary: idle_deadline acc)
  case (Cons t ts)
  have now: "ft_now1 t < deadline" using Cons.prems(1) by (auto split: if_splits)
  have more: ?case if "collect_loop maximum idle deadline ts dl (acc @ data_of t) = Some (Inr body)" "length (acc @ data_of t) \<le> maximum"
    "ft_outcome t = TrailersFrame \<or> (\<exists>d. ft_outcome t = DataFrame d)" for dl
  proof -
    from Cons.IH[OF that(1,2)] obtain us x rest where "length body \<le> maximum" "ts = us @ x # rest" "whole_body deadline us x"
      "body = (acc @ data_of t) @ concat (map data_of us)" by blast
    with whole_body_Cons[OF _ now that(3)] show ?thesis by (intro conjI exI[of _ "t # us"] exI[of _ x] exI[of _ rest]) auto
  qed
  show ?case
  proof (cases "ft_outcome t")
    case BodyEnd
    with Cons.prems now show ?thesis by (auto simp: whole_body_def split: if_splits intro!: exI[of _ "[]"])
  next
    case TrailersFrame
    with Cons.prems show ?thesis by (intro more[of idle_deadline]) (auto simp: data_of_def split: if_splits)
  next
    case (DataFrame d)
    then have d: "data_of t = d" by (simp add: data_of_def)
    show ?thesis
    proof (cases "d = []")
      case True
      with DataFrame Cons.prems show ?thesis by (intro more[of idle_deadline]) (auto simp: d split: if_splits)
    next
      case False
      with DataFrame Cons.prems show ?thesis by (intro more[of "ft_after t + idle"]) (auto simp: d split: if_splits)
    qed
  qed (use Cons.prems in \<open>auto split: if_splits\<close>)
qed simp

lemma collect_response_bounded:
  "collect_response cfg maximum deadline r = Some (Inr body) \<Longrightarrow> length body \<le> maximum"
  using collect_loop_Inr[of maximum "cfg_idle_body_timeout cfg" deadline "resp_turns r" _ "[]" body]
  by (auto simp: collect_response_def collect_incoming_def split: if_splits)

text \<open>
  Property C39. A collected response is exactly the body that arrived and never more than the limit: success means that the
  end of the body was seen, that everything before it was data or trailers and arrived before the deadline, and that the result is the concatenation
  of all those data frames in order; its length is at most the maximum, and a body whose declared size exceeds the maximum is refused before a byte is read.
\<close>

theorem collect_response_exact:
  assumes "collect_response cfg maximum deadline r = Some (Inr body)"
  shows "length body \<le> maximum \<and> (\<forall>n. resp_size_upper r = Some n \<longrightarrow> n \<le> maximum) \<and>
    (\<exists>us t rest. resp_turns r = us @ t # rest \<and> whole_body deadline us t \<and> body = concat (map data_of us))"
proof -
  from assms have "collect_loop maximum (cfg_idle_body_timeout cfg) deadline (resp_turns r)
      (resp_now r + cfg_idle_body_timeout cfg) [] = Some (Inr body)"
    and "\<forall>n. resp_size_upper r = Some n \<longrightarrow> n \<le> maximum"
    by (auto simp: collect_response_def collect_incoming_def split: if_splits)
  with collect_loop_Inr[of maximum _ deadline "resp_turns r" _ "[]" body] show ?thesis by fastforce
qed

definition example_response :: http_response where
  "example_response = \<lparr>resp_status = 200, resp_entries = [], resp_size_upper = Some 4, resp_now = 0,
     resp_turns = [\<lparr>ft_now1 = 0, ft_now2 = 0, ft_outcome = DataFrame ''ab'', ft_after = 0\<rparr>,
       \<lparr>ft_now1 = 0, ft_now2 = 0, ft_outcome = BodyEnd, ft_after = 0\<rparr>], resp_stream = []\<rparr>"

theorem collect_response_exact_witness:
  "\<exists>cfg. build example_config_ext example_builder = Inr cfg \<and>
     collect_response cfg 4 9 example_response = Some (Inr ''ab'') \<and> length ''ab'' \<le> (4 :: nat)"
proof -
  from example_build obtain cfg where c: "build example_config_ext example_builder = Inr cfg" by blast
  then have "0 < cfg_idle_body_timeout cfg" using build_config_ok(1)[OF c] by (simp add: config_ok_def)
  then have r: "collect_response cfg 4 9 example_response = Some (Inr ''ab'')"
    by (simp add: collect_response_def collect_incoming_def example_response_def)
  from collect_response_exact[OF r] r c show ?thesis by blast
qed

section \<open>Classification\<close>

lemma service_error_details:
  "category (details (service_error H now st headers parsed)) = classify_service_error st (Option.bind parsed pe_code)"
  "retry (details (service_error H now st headers parsed)) =
     classify_retry st (Option.bind parsed pe_code) (classify_service_error st (Option.bind parsed pe_code))"
  "message (details (service_error H now st headers parsed)) =
     (case Option.bind (Option.bind parsed pe_message) sanitize_service_message of
        Some m \<Rightarrow> m | None \<Rightarrow> ''S3 request failed with HTTP status '' @ hx_status_display H st)"
  by (simp_all add: service_error_def Let_def split: option.split)

lemma code_in_iff: "code_in cd names \<longleftrightarrow> (\<exists>x \<in> set names. cd = Some x)"
  by (auto simp: code_in_def list_ex_iff split: option.splits)

text \<open>
  Which service errors are retried: exactly those classified as throttling or server errors, a
  conflict whose code says that another conditional request was in progress, and any error of status 500, 502, 503
  or 504; throttling alone is retried with the throttling cost.
\<close>

lemma service_error_retry_iff:
  "retry_classification_of (service_error H now st headers parsed) =
     (let cat = error_category_of (service_error H now st headers parsed) in
      if cat = Throttling then Throttled
      else if cat = Server \<or> code_in (Option.bind parsed pe_code) conflict_codes \<or> st \<in> {500, 502, 503, 504}
      then Retryable else Never)"
proof -
  let ?cd = "Option.bind parsed pe_code"
  have d: "\<not> (code_in ?cd xs \<and> code_in ?cd conflict_codes)" if "set xs \<inter> set conflict_codes = {}" for xs
  proof
    assume "code_in ?cd xs \<and> code_in ?cd conflict_codes"
    then obtain c where "?cd = Some c" "c \<in> set xs" "c \<in> set conflict_codes"
      by (auto simp: code_in_iff)
    with that show False by blast
  qed
  have "\<not> (code_in ?cd authentication_codes \<and> code_in ?cd conflict_codes)"
    "\<not> (code_in ?cd [''AccessDenied'', ''AllAccessDisabled''] \<and> code_in ?cd conflict_codes)"
    "\<not> (code_in ?cd not_found_codes \<and> code_in ?cd conflict_codes)"
    "\<not> (code_in ?cd [''PreconditionFailed''] \<and> code_in ?cd conflict_codes)"
    by (rule d; simp add: authentication_codes_def conflict_codes_def not_found_codes_def)+
  then have c: "code_in ?cd conflict_codes \<Longrightarrow> classify_service_error st ?cd = Conflict"
    by (simp only: classify_service_error_def if_False if_True simp_thms)
  have "classify_service_error st ?cd \<noteq> Transport" "classify_service_error st ?cd \<noteq> Timeout"
    by (simp_all add: classify_service_error_def)
  with c show ?thesis
    unfolding service_error_details Let_def classify_retry_def by auto
qed

section \<open>Redirects stay inside AWS\<close>

lemma region_char_host: "region_char c \<Longrightarrow> c \<notin> {CHR ''.'', CHR ''/'', CHR ''@'', CHR '':'', CHR ''?'', CHR ''#''}"
  by (auto simp: region_char_def byte_simps)

definition aws_prefixes :: "string list" where
  "aws_prefixes = [''s3'', ''s3.dualstack'', ''s3-fips'', ''s3-fips.dualstack'']"

lemma redirected_aws_authority_SomeD:
  assumes "redirected_aws_authority u region = Some a"
  shows "eu_scheme u = ''https''"
    and "\<exists>p \<in> set aws_prefixes. \<exists>dns \<in> {''amazonaws.com'', ''amazonaws.com.cn''}.
      a = p @ ''.'' @ region @ ''.'' @ dns \<and>
      ends_with (case split_once CHR '':'' (eu_authority u) of None \<Rightarrow> eu_authority u | Some (h, _) \<Rightarrow> h) (''.'' @ dns)"
  using assms
  by (auto simp: redirected_aws_authority_def Let_def aws_prefixes_def strip_suffix_def
      split: if_split_asm option.splits prod.splits)

text \<open>
  A region redirect cannot leave AWS: when the client follows one, the endpoint was an HTTPS endpoint
  under \<open>amazonaws.com\<close> or \<open>amazonaws.com.cn\<close>, and the new authority is an S3 host of the same DNS suffix whose only
  new part is one label of letters, digits and hyphens taken from the response, so that no port, user information or
  path can be smuggled in.
\<close>

lemma region_redirect_stays_in_aws:
  assumes "controlled_region_redirect H st headers = Some region" and "redirected_aws_authority u region = Some a"
  shows "eu_scheme u = ''https'' \<and> list_all region_char region \<and> region \<noteq> [] \<and>
    (\<exists>p \<in> set aws_prefixes. \<exists>dns \<in> {''amazonaws.com'', ''amazonaws.com.cn''}.
      a = p @ ''.'' @ region @ ''.'' @ dns \<and>
      ends_with (case split_once CHR '':'' (eu_authority u) of None \<Rightarrow> eu_authority u | Some (h, _) \<Rightarrow> h) (''.'' @ dns)) \<and>
    list_all (\<lambda>c. region_char c \<or> c = CHR ''.'') a"
proof -
  have r: "list_all region_char region" "region \<noteq> []"
    using assms(1) by (auto simp: controlled_region_redirect_def valid_redirect_region_def split: if_splits option.splits)
  note a = redirected_aws_authority_SomeD[OF assms(2)]
  have fixed: "list_all (\<lambda>c. region_char c \<or> c = CHR ''.'') s"
    if "s \<in> set (aws_prefixes @ [''amazonaws.com'', ''amazonaws.com.cn''])" for s
    using that unfolding aws_prefixes_def
    by (simp only: append.simps list.set insert_iff empty_iff simp_thms)
      (elim disjE; simp add: region_char_def byte_simps)
  from a(2) obtain p dns where p: "p \<in> set aws_prefixes" "dns \<in> {''amazonaws.com'', ''amazonaws.com.cn''}"
    "a = p @ ''.'' @ region @ ''.'' @ dns" by blast
  have "list_all (\<lambda>c. region_char c \<or> c = CHR ''.'') region" using r(1) by (auto simp: list_all_iff)
  moreover have "list_all (\<lambda>c. region_char c \<or> c = CHR ''.'') p" "list_all (\<lambda>c. region_char c \<or> c = CHR ''.'') dns"
    using p fixed[of p] fixed[of dns] by auto
  ultimately have "list_all (\<lambda>c. region_char c \<or> c = CHR ''.'') a" by (simp add: p(3))
  with a r show ?thesis by blast
qed

definition ascii_http_ext :: http_ext where
  "ascii_http_ext = \<lparr>hx_to_str = (\<lambda>s. if list_all (\<lambda>c. 32 \<le> ord c \<and> ord c < 127) s then Some s else None),
     hx_parse_http_date = (\<lambda>_. None), hx_status_display = to_string\<rparr>"

definition example_aws_url :: endpoint_url where
  "example_aws_url = \<lparr>eu_serialized = ''https://s3.us-east-1.amazonaws.com/'', eu_scheme = ''https'',
     eu_authority = ''s3.us-east-1.amazonaws.com'', eu_path_and_query = ''/''\<rparr>"

lemma region_redirect_stays_in_aws_witness:
  "redirected_aws_authority example_aws_url ''eu-west-1'' = Some ''s3.eu-west-1.amazonaws.com'' \<and>
   list_all (\<lambda>c. region_char c \<or> c = CHR ''.'') ''s3.eu-west-1.amazonaws.com''"
proof -
  have c: "controlled_region_redirect ascii_http_ext 301
      (\<lambda>n. if n = ''x-amz-bucket-region'' then Some ''eu-west-1'' else None) = Some ''eu-west-1''" by code_simp
  have r: "redirected_aws_authority example_aws_url ''eu-west-1'' = Some ''s3.eu-west-1.amazonaws.com''" by code_simp
  from region_redirect_stays_in_aws[OF c r] r show ?thesis by blast
qed


section \<open>The message filter\<close>

lemma contains_str_iff: "contains_str s p \<longleftrightarrow> (\<exists>a b. s = a @ p @ b)"
proof (induction s)
  case (Cons c cs)
  have "(\<exists>a b. c # cs = a @ p @ b) \<longleftrightarrow> (\<exists>b. c # cs = p @ b) \<or> (\<exists>a b. cs = a @ p @ b)" (is "?l \<longleftrightarrow> ?r")
  proof
    assume ?l
    then obtain a b where "c # cs = a @ p @ b" by blast
    then show ?r by (cases a) auto
  next
    assume ?r
    then show ?l by (metis append_Cons append_Nil)
  qed
  with Cons show ?case by (simp add: starts_with_iff)
qed simp

lemma contains_split:
  assumes "u @ c # v = a @ p @ b" and "c \<notin> set p"
  shows "contains_str u p \<or> contains_str v p"
proof (cases "length (a @ p) \<le> length u")
  case True
  have "u @ c # v = (a @ p) @ b" using assms(1) by simp
  then obtain w where "u = (a @ p) @ w"
    using True by (metis append_eq_append_conv_if append_take_drop_id)
  then show ?thesis by (auto simp: contains_str_iff)
next
  case False
  have "length u < length a"
  proof (rule ccontr)
    assume "\<not> length u < length a"
    then have "length a \<le> length u" "length u < length a + length p" using False by auto
    then have l: "length u - length a < length p" by linarith
    have "(a @ p @ b) ! length u = p ! (length u - length a)"
      using l \<open>length a \<le> length u\<close> by (simp add: nth_append)
    moreover have "(u @ c # v) ! length u = c" by simp
    ultimately have "c = p ! (length u - length a)" using assms(1) by simp
    moreover note l
    ultimately show False using assms(2) by (metis nth_mem)
  qed
  then have "drop (Suc (length u)) (u @ c # v) = drop (Suc (length u)) a @ p @ b"
    by (simp add: assms(1))
  then have "v = drop (Suc (length u)) a @ p @ b" by simp
  then show ?thesis by (auto simp: contains_str_iff)
qed

lemma contains_join:
  assumes "contains_str (join '' '' ws) p" and "CHR '' '' \<notin> set p" and "p \<noteq> []"
  shows "\<exists>w \<in> set ws. contains_str w p"
  using assms
proof (induction "'' ''" ws rule: join.induct)
  case (3 x y xs)
  from 3(2) obtain a b where "x @ CHR '' '' # join '' '' (y # xs) = a @ p @ b"
    by (auto simp: contains_str_iff)
  from contains_split[OF this 3(3)] 3(1)[OF _ 3(3,4)] show ?case by auto
qed (auto simp: contains_str_iff)

lemma split_whitespace_word:
  "x \<in> set (split_whitespace w s) \<Longrightarrow> list_all (\<lambda>c. \<not> is_ascii_whitespace c) w \<Longrightarrow>
     (\<exists>a b. w @ s = a @ x @ b) \<and> list_all (\<lambda>c. \<not> is_ascii_whitespace c) x"
proof (induction s arbitrary: w)
  case (Cons c cs)
  show ?case
  proof (cases "is_ascii_whitespace c")
    case True
    with Cons.prems consider "x = w" | "x \<in> set (split_whitespace [] cs)" by (auto split: if_splits)
    then show ?thesis
    proof cases
      case 1
      have "w @ c # cs = [] @ w @ c # cs" by simp
      with 1 Cons.prems(2) show ?thesis by blast
    next
      case 2
      from Cons.IH[OF this] obtain a b where "cs = a @ x @ b" "list_all (\<lambda>c. \<not> is_ascii_whitespace c) x" by auto
      then have "w @ c # cs = (w @ c # a) @ x @ b" by simp
      with \<open>list_all (\<lambda>c. \<not> is_ascii_whitespace c) x\<close> show ?thesis by blast
    qed
  next
    case False
    with Cons.IH[of "w @ [c]"] Cons.prems show ?thesis by simp
  qed
qed (auto split: if_splits intro!: exI[of _ "[]"])

lemma length_split_whitespace: "(\<Sum>x \<leftarrow> split_whitespace w s. Suc (length x)) \<le> Suc (length w + length s)"
proof (induction s arbitrary: w)
  case (Cons c cs)
  show ?case using Cons.IH[of "[]"] Cons.IH[of "w @ [c]"] by auto
qed simp

lemma length_join: "ws \<noteq> [] \<Longrightarrow> Suc (length (join '' '' ws)) = (\<Sum>x \<leftarrow> ws. Suc (length x))"
  by (induction "'' ''" ws rule: join.induct) auto

lemma set_join: "c \<in> set (join '' '' ws) \<Longrightarrow> c = CHR '' '' \<or> (\<exists>w \<in> set ws. c \<in> set w)"
  by (induction "'' ''" ws rule: join.induct) auto

lemma lower_join: "str_to_ascii_lowercase (join '' '' ws) = join '' '' (map str_to_ascii_lowercase ws)"
proof (induction "'' ''" ws rule: join.induct)
  case (3 x y xs)
  have "to_ascii_lowercase CHR '' '' = CHR '' ''" by (simp add: to_ascii_lowercase_def byte_simps)
  with 3 show ?case by (simp add: str_to_ascii_lowercase_def)
qed (simp_all add: str_to_ascii_lowercase_def)

lemma word_contains: "x \<in> set (split_whitespace [] m) \<Longrightarrow> contains_str x p \<Longrightarrow> contains_str m p"
  using split_whitespace_word[of x "[]" m] by (auto simp: contains_str_iff) (metis append.assoc)

lemma lower_word_contains:
  assumes "x \<in> set (split_whitespace [] m)" and "contains_str (str_to_ascii_lowercase x) p"
  shows "contains_str (str_to_ascii_lowercase m) p"
proof -
  from split_whitespace_word[of x "[]" m] assms(1) obtain a b where "m = a @ x @ b" by auto
  then have "str_to_ascii_lowercase m = str_to_ascii_lowercase a @ str_to_ascii_lowercase x @ str_to_ascii_lowercase b"
    by (simp add: str_to_ascii_lowercase_def)
  with assms(2) show ?thesis by (auto simp: contains_str_iff) (metis append.assoc)
qed

definition plain_char :: "char \<Rightarrow> bool" where
  "plain_char c \<longleftrightarrow> message_char c \<and> (is_ascii_whitespace c \<longrightarrow> c = CHR '' '')"

text \<open>
  A service message never carries signing material into an error: the message of a service error is
  either the generated text with the status, or a filtered message of at most 512 bytes of letters, digits, plain
  punctuation and single spaces, without line breaks, that contains neither \<open>X-Amz-\<close> nor, in any spelling,
  \<open>authorization\<close> or \<open>token\<close>.
\<close>

lemma service_message_is_sanitized:
  "let m = message (details (service_error H now st headers parsed)) in
   m = ''S3 request failed with HTTP status '' @ hx_status_display H st \<or>
   (length m \<le> 512 \<and> list_all plain_char m \<and>
    \<not> contains_str m ''X-Amz-'' \<and> \<not> contains_str (str_to_ascii_lowercase m) ''authorization'' \<and>
    \<not> contains_str (str_to_ascii_lowercase m) ''token'')"
proof (cases "Option.bind (Option.bind parsed pe_message) sanitize_service_message")
  case None
  then show ?thesis by (simp add: service_error_details)
next
  case (Some m)
  then obtain raw where raw: "sanitize_service_message raw = Some m" by (auto simp: bind_eq_Some_conv)
  let ?ws = "split_whitespace [] raw"
  from raw have m: "m = join '' '' ?ws" and len: "length raw \<le> 512" and chars: "list_all message_char raw"
    and clean: "\<not> contains_str raw ''X-Amz-''" "\<not> contains_str (str_to_ascii_lowercase raw) ''authorization''"
      "\<not> contains_str (str_to_ascii_lowercase raw) ''token''"
    by (auto simp: sanitize_service_message_def split: if_splits)
  have "length m \<le> 512"
  proof (cases "?ws = []")
    case False
    with length_join[OF False] length_split_whitespace[of "[]" raw] len show ?thesis by (simp add: m)
  qed (simp add: m)
  moreover have "list_all plain_char m"
  proof -
    have "message_char c \<and> (is_ascii_whitespace c \<longrightarrow> c = CHR '' '')" if "c \<in> set m" for c
    proof -
      from set_join[of c ?ws] that m consider "c = CHR '' ''" | w where "w \<in> set ?ws" "c \<in> set w" by blast
      then show ?thesis
      proof cases
        case 1
        then show ?thesis by (simp add: message_char_def is_ascii_whitespace_def)
      next
        case 2
        from split_whitespace_word[OF 2(1)] obtain a b where "raw = a @ w @ b"
          "list_all (\<lambda>c. \<not> is_ascii_whitespace c) w" by auto
        with 2(2) chars show ?thesis by (auto simp: list_all_iff)
      qed
    qed
    then show ?thesis by (simp add: list_all_iff plain_char_def)
  qed
  moreover have "\<not> contains_str m ''X-Amz-''"
    using clean(1) contains_join[of ?ws "''X-Amz-''"] word_contains m by auto
  moreover have "\<not> contains_str (str_to_ascii_lowercase m) ''authorization''" "\<not> contains_str (str_to_ascii_lowercase m) ''token''"
    using clean(2,3) contains_join[of "map str_to_ascii_lowercase ?ws" "''authorization''"]
      contains_join[of "map str_to_ascii_lowercase ?ws" "''token''"] lower_word_contains[of _ raw]
    unfolding m lower_join by auto
  ultimately show ?thesis using Some by (simp add: service_error_details)
qed

end
