(* ===== verification/Transport.thy ===== *)
theory Transport
  imports Request_Signing Response
begin

text \<open>
  The HTTP transport, \<open>src/transport/mod.rs\<close>: the scheme guard and user agent of \<open>Transport::send\<close>, the attempt timeout,
  and the classification of what the HTTP client reports. The client itself (hyper, rustls) is a parameter that answers
  one request with a \<open>client_outcome\<close>; the error chain that the three search functions walk is the list of its links.
\<close>

section \<open>Error chains\<close>

datatype error_link = S3Link s3_error | IoLink (io_timed_out: bool) | RustlsLink | OtherLink

text \<open>The first link is the client error itself; \<open>ce_type\<close> is its type name, all that a redacted source keeps.\<close>

record client_error =
  ce_is_connect :: bool
  ce_type :: string
  ce_chain :: "error_link list"

fun error_chain_s3_error :: "error_link list \<Rightarrow> s3_error option" where
  "error_chain_s3_error [] = None"
| "error_chain_s3_error (S3Link e # links) = Some e"
| "error_chain_s3_error (_ # links) = error_chain_s3_error links"

fun error_chain_has_io_timeout :: "error_link list \<Rightarrow> bool" where
  "error_chain_has_io_timeout [] = False"
| "error_chain_has_io_timeout (IoLink timed_out # links) = (timed_out \<or> error_chain_has_io_timeout links)"
| "error_chain_has_io_timeout (_ # links) = error_chain_has_io_timeout links"

fun error_chain_has_tls_error :: "error_link list \<Rightarrow> bool" where
  "error_chain_has_tls_error [] = False"
| "error_chain_has_tls_error (RustlsLink # links) = True"
| "error_chain_has_tls_error (_ # links) = error_chain_has_tls_error links"

definition classify_client_error :: "client_error \<Rightarrow> bool \<Rightarrow> s3_error" where
  "classify_client_error err https =
     (case error_chain_s3_error (ce_chain err) of
        Some body_error \<Rightarrow>
          with_source (ce_type err)
            (case timeout_phase (details body_error) of
               Some phase \<Rightarrow> timeout phase (message (details body_error))
             | None \<Rightarrow> new_error (category (details body_error)) (message (details body_error)) (retry (details body_error)))
      | None \<Rightarrow>
          if ce_is_connect err \<and> error_chain_has_io_timeout (ce_chain err) then
            with_source (ce_type err) (timeout PhaseConnect ''connection establishment exceeded its configured timeout'')
          else if https \<and> ce_is_connect err \<and> error_chain_has_tls_error (ce_chain err) then
            with_source (ce_type err) (new_error Tls ''TLS negotiation or certificate verification failed'' Never)
          else transport (ce_type err))"

definition classify_response_body_error :: "string \<Rightarrow> s3_error" where
  "classify_response_body_error type_name =
     with_source type_name (integrity ''response body could not be verified because the transport interrupted it'')"

section \<open>Sending\<close>

datatype client_outcome = AttemptElapsed | ClientFailed client_error | Answered http_response

definition client_result :: "bool \<Rightarrow> client_outcome \<Rightarrow> s3_error + http_response" where
  "client_result https outcome = (case outcome of
     AttemptElapsed \<Rightarrow> Inl (timeout PhaseRequest ''request attempt exceeded its configured timeout'')
   | ClientFailed e \<Rightarrow> Inl (classify_client_error e https)
   | Answered r \<Rightarrow> Inr r)"

text \<open>The transport refuses a scheme that was not enabled before it looks at the network.\<close>

definition transport_send ::
  "('p, 'o) client \<Rightarrow> endpoint_url \<Rightarrow> ('d signed_http_request \<Rightarrow> duration \<Rightarrow> client_outcome)
     \<Rightarrow> 'd signed_http_request \<Rightarrow> duration \<Rightarrow> s3_error + http_response" where
  "transport_send cl target send rq attempt_timeout =
     (if transport_refuses cl target
      then Inl (configuration ''transport refused a request without an explicitly permitted scheme'')
      else
        (let rq = rq\<lparr>sr_headers := (if hm_contains (sr_headers rq) ''user-agent'' then sr_headers rq
               else hm_insert ''user-agent'' (tr_user_agent (cl_transport cl)) (sr_headers rq))\<rparr> in
         client_result (eu_scheme target = ''https'') (send rq attempt_timeout)))"

section \<open>Properties\<close>

lemma error_chain_has_io_timeout_iff: "error_chain_has_io_timeout links \<longleftrightarrow> IoLink True \<in> set links"
  by (induction links rule: error_chain_has_io_timeout.induct) auto

lemma error_chain_has_tls_error_iff: "error_chain_has_tls_error links \<longleftrightarrow> RustlsLink \<in> set links"
  by (induction links rule: error_chain_has_tls_error.induct) auto

lemma timeout_sel [simp]:
  "retry (details (timeout p m)) = Retryable" "timeout_phase (details (timeout p m)) = Some p"
  "category (details (timeout p m)) = Timeout"
  by (simp_all add: timeout_def map_details_def new_error_def)

text \<open>
  How a failed exchange is classified: an error that the request body itself raised keeps its
  category and is retried exactly if it was a timeout or was retryable there; without one, a timeout while connecting is
  a retryable connect timeout, a TLS failure while connecting over HTTPS is final, and everything else is a retryable
  transport error. In every case the source is redacted to its type name.
\<close>

lemma classify_client_error_spec:
  "let r = details (classify_client_error err https); links = ce_chain err in
   source r = Some (RedactedSource (ce_type err)) \<and> attempts r = 0 \<and> code r = None \<and>
   (case error_chain_s3_error links of
      Some e \<Rightarrow> message r = message (details e) \<and> timeout_phase r = timeout_phase (details e) \<and>
        (timeout_phase r = None \<and> category r = category (details e) \<and> retry r = retry (details e) \<or>
         timeout_phase r \<noteq> None \<and> category r = Timeout \<and> retry r = Retryable)
    | None \<Rightarrow>
        (retry r = Never \<longleftrightarrow> category r = Tls) \<and> retry r \<noteq> Throttled \<and>
        (category r = Tls \<longleftrightarrow> https \<and> ce_is_connect err \<and> RustlsLink \<in> set links \<and> IoLink True \<notin> set links) \<and>
        (timeout_phase r = Some PhaseConnect \<longleftrightarrow> ce_is_connect err \<and> IoLink True \<in> set links))"
proof (cases "error_chain_s3_error (ce_chain err)")
  case (Some e)
  then show ?thesis
    by (cases "timeout_phase (details e)")
      (simp_all add: classify_client_error_def with_source_def map_details_def timeout_def new_error_def Let_def)
next
  case None
  then show ?thesis
    by (simp add: classify_client_error_def error_chain_has_io_timeout_iff error_chain_has_tls_error_iff
        with_source_def map_details_def timeout_def new_error_def transport_def Let_def) blast
qed

lemma map_of_hm_insert: "map_of (hm_insert n v m) name = (if name = n then Some v else map_of m name)"
  by (induction m) (auto simp: hm_insert_def)

lemma transport_send_guard: "transport_send cl target send rq t = Inr r \<Longrightarrow> \<not> transport_refuses cl target"
  by (auto simp: transport_send_def split: if_splits)

text \<open>
  The request that reaches the HTTP client is the signed one: only a missing user agent is added, which
  is not a signed header; the signature's headers, the body and the target are passed on unchanged, and nothing is sent
  over a scheme that was not enabled.
\<close>

lemma transport_sends_signed_request:
  assumes "transport_send cl target send rq t = Inr r"
  shows "\<not> transport_refuses cl target \<and> (\<exists>rq'. send rq' t = Answered r \<and> sr_body rq' = sr_body rq \<and>
    (\<forall>name. name \<noteq> ''user-agent'' \<longrightarrow> map_of (sr_headers rq') name = map_of (sr_headers rq) name) \<and>
    (\<forall>v. map_of (sr_headers rq) ''user-agent'' = Some v \<longrightarrow> map_of (sr_headers rq') ''user-agent'' = Some v) \<and>
    hm_contains (sr_headers rq') ''user-agent'')"
proof -
  let ?rq = "rq\<lparr>sr_headers := (if hm_contains (sr_headers rq) ''user-agent'' then sr_headers rq
      else hm_insert ''user-agent'' (tr_user_agent (cl_transport cl)) (sr_headers rq))\<rparr>"
  have "send ?rq t = Answered r"
    using assms by (auto simp: transport_send_def client_result_def Let_def split: if_splits client_outcome.splits)
  moreover have "\<forall>name. name \<noteq> ''user-agent'' \<longrightarrow> map_of (sr_headers ?rq) name = map_of (sr_headers rq) name"
    by (simp add: map_of_hm_insert)
  moreover have "\<forall>v. map_of (sr_headers rq) ''user-agent'' = Some v \<longrightarrow> map_of (sr_headers ?rq) ''user-agent'' = Some v"
    by (auto simp: hm_contains_def dest: map_of_SomeD) (metis domI dom_map_of_conv_image_fst image_set)
  moreover have "hm_contains (sr_headers ?rq) ''user-agent''" by (auto simp: hm_contains_def hm_insert_def)
  moreover have "sr_body ?rq = sr_body rq" by simp
  ultimately show ?thesis using transport_send_guard[OF assms] by blast
qed

definition example_answer :: http_response where
  "example_answer = \<lparr>resp_status = 200, resp_entries = [], resp_size_upper = Some 0, resp_now = 0,
     resp_turns = [], resp_stream = []\<rparr>"

lemma transport_sends_signed_request_witness:
  "\<exists>rq body'. signed_request example_request_ext example_input (Inr example_creds) 0 0 None = (Inr rq, body') \<and>
     transport_send example_client example_target (\<lambda>_ _. Answered example_answer) rq 1 = Inr example_answer \<and>
     \<not> transport_refuses example_client example_target"
proof -
  obtain rq body' where rq: "signed_request example_request_ext example_input (Inr example_creds) 0 0 None = (Inr rq, body')"
    using not_isl_Inr[OF example_signed_request] by (metis prod.collapse)
  have s: "transport_send example_client example_target (\<lambda>_ _. Answered example_answer) rq 1 = Inr example_answer"
    by (simp add: transport_send_def client_result_def transport_refuses_def example_target_def Let_def)
  from transport_sends_signed_request[OF s] rq s show ?thesis by blast
qed

end
