(* ===== verification/Execute.thy ===== *)
theory Execute
  imports Transport
begin

text \<open>
  The request loop, \<open>src/client/request/execute.rs\<close>: deadlines, signing and sending of each attempt, success in both
  modes, the controlled region redirect, the stop reasons, the retry delay and the retry quota. Everything the outside
  decides about one attempt is an \<open>attempt_env\<close>: the clock readings in the order the code takes them, the credential
  provider's answer, what the transport returns for the request, the jitter, and what other operations did to the shared
  quota meanwhile. One turn of the loop is \<open>attempt_step\<close>; the loop runs over the environments, so that not having
  returned yet is the value \<open>None\<close>.
\<close>

section \<open>Deadlines\<close>

text \<open>
  Instants are nanoseconds without an upper bound. The sum in the code panics for an instant that the platform cannot represent;
  the configuration refuses the timeouts for which that is the case when it is built, the parameter \<open>representable\<close> of the setters.
\<close>

definition deadline_new :: "nat \<Rightarrow> duration \<Rightarrow> nat" where "deadline_new now t = now + t"

definition deadline_remaining :: "nat \<Rightarrow> nat \<Rightarrow> s3_error + duration" where
  "deadline_remaining dl now = (if now < dl then Inr (dl - now) else Inl operation_timeout)"

definition prepare_body ::
  "'d checksum_ext \<Rightarrow> file_reader \<Rightarrow> bool \<Rightarrow> upload_source \<Rightarrow> s3_error + prepared_body" where
  "prepare_body X read_file elapsed src = (if elapsed then Inl operation_timeout else prepare X read_file src)"

section \<open>One attempt\<close>

datatype success_mode =
    Streaming
  | CollectedXml (collected_maximum: nat) (embedded_error: "string \<Rightarrow> nat \<Rightarrow> protocol_error + parsed_s3_error option")

datatype success = StreamingResponse http_response | CollectedResponse response_headers string

record 'd attempt_env =
  ae_others :: "retry_quota \<Rightarrow> retry_quota"
  ae_now_start :: nat
  ae_provided :: "s3_error + credentials"
  ae_wall_check :: int
  ae_wall_sign :: int
  ae_sign_timed_out :: bool
  ae_now_sent :: nat
  ae_send :: "'d signed_http_request \<Rightarrow> duration \<Rightarrow> client_outcome"
  ae_wall_response :: int
  ae_elapsed_redirect :: duration
  ae_elapsed :: duration
  ae_now_retry :: nat
  ae_rng :: "nat \<Rightarrow> nat"

record ('d, 'p, 'o) exec =
  ex_client :: "('p, 'o) client"
  ex_request_ext :: "'d request_ext"
  ex_uri_ext :: uri_ext
  ex_http_ext :: http_ext
  ex_parse_s3_error :: "string \<Rightarrow> nat \<Rightarrow> parsed_s3_error option"
  ex_method :: string
  ex_query :: "query_param list"
  ex_headers :: header_map
  ex_deadline :: nat
  ex_mode :: success_mode
  ex_replayable :: bool
  ex_payload_hash :: string

record loop_state =
  ls_target :: endpoint_url
  ls_signing_region :: string
  ls_region_redirected :: bool
  ls_attempts_completed :: u32
  ls_last_retry_cost :: "u32 option"
  ls_pending_permit :: "retry_permit option"
  ls_quota :: retry_quota
  ls_body :: "prepared_body option"
  ls_trace :: "request_event list"

datatype attempt_result =
    Continue loop_state
  | Return "s3_error + success" loop_state
  | StillWaiting

abbreviation ex_config :: "('d, 'p, 'o) exec \<Rightarrow> ('p, 'o) s3_config" where
  "ex_config E \<equiv> cl_config (ex_client E)"

abbreviation ex_policy :: "('d, 'p, 'o) exec \<Rightarrow> retry_policy" where
  "ex_policy E \<equiv> cfg_retry_policy (cl_config (ex_client E))"

definition emit ::
  "('d, 'p, 'o) exec \<Rightarrow> request_event_kind \<Rightarrow> u32 \<Rightarrow> error_category option \<Rightarrow> retry_classification option
     \<Rightarrow> duration option \<Rightarrow> loop_state \<Rightarrow> loop_state" where
  "emit E kind n cat cls dl st = st\<lparr>ls_trace := observe (ex_client E)
     \<lparr>ev_kind = kind, ev_method = ex_method E, ev_attempt = n, ev_error_category = cat,
      ev_retry_classification = cls, ev_retry_delay = dl\<rparr> (ls_trace st)\<rparr>"

text \<open>Leaving the function drops a permit that was not committed.\<close>

definition drop_pending :: "loop_state \<Rightarrow> loop_state" where
  "drop_pending st = (case ls_pending_permit st of
     None \<Rightarrow> st
   | Some p \<Rightarrow> st\<lparr>ls_pending_permit := None, ls_quota := drop_permit p (ls_quota st)\<rparr>)"

definition commit_pending :: "loop_state \<Rightarrow> loop_state" where
  "commit_pending st = (case ls_pending_permit st of
     None \<Rightarrow> st
   | Some p \<Rightarrow> st\<lparr>ls_pending_permit := None, ls_last_retry_cost := Some (snd (commit p))\<rparr>)"

definition attempt_input :: "('d, 'p, 'o) exec \<Rightarrow> loop_state \<Rightarrow> request_input" where
  "attempt_input E st = \<lparr>ri_method = ex_method E, ri_target = ls_target st, ri_query = ex_query E,
     ri_headers = ex_headers E, ri_payload_hash = ex_payload_hash E, ri_signing_region = ls_signing_region st\<rparr>"

text \<open>From the top of the loop to the transport's answer; an error here leaves the function as it is.\<close>

definition send_attempt ::
  "('d, 'p, 'o) exec \<Rightarrow> 'd attempt_env \<Rightarrow> loop_state \<Rightarrow> (s3_error + (s3_error + http_response)) \<times> loop_state" where
  "send_attempt E a st =
     (case deadline_remaining (ex_deadline E) (ae_now_start a) of
        Inl e \<Rightarrow> (Inl e, st)
      | Inr _ \<Rightarrow>
        if ae_sign_timed_out a then (Inl operation_timeout, st)
        else
          (let (signed, body') = signed_request (ex_request_ext E) (attempt_input E st) (ae_provided a)
                 (ae_wall_check a) (ae_wall_sign a) (ls_body st);
               st = st\<lparr>ls_body := body'\<rparr> in
           case signed of
             Inl e \<Rightarrow> (Inl e, st)
           | Inr rq \<Rightarrow>
             (case deadline_remaining (ex_deadline E) (ae_now_sent a) of
                Inl e \<Rightarrow> (Inl e, st)
              | Inr remaining \<Rightarrow>
                (let st = commit_pending st;
                     n = saturating_add (ls_attempts_completed st) 1;
                     st = emit E AttemptStarted n None None None st;
                     st = st\<lparr>ls_attempts_completed := n\<rparr> in
                 (Inr (transport_send (ex_client E) (ls_target st) (ae_send a) rq
                    (min (cfg_attempt_timeout (ex_config E)) remaining)), st)))))"

text \<open>Reading the answer: success, a region redirect, a failure with the server's hint, or a body not yet complete.\<close>

datatype outcome =
    Succeeded success
  | Redirected string
  | Failed s3_error "duration option"
  | BodyPending

definition failure_outcome :: "('d, 'p, 'o) exec \<Rightarrow> 'd attempt_env \<Rightarrow> http_response \<Rightarrow> outcome" where
  "failure_outcome E a r =
     (case response_error (ex_http_ext E) (ex_parse_s3_error E) (ae_wall_response a) (ex_config E) (ex_deadline E) r of
        None \<Rightarrow> BodyPending
      | Some e \<Rightarrow> Failed e (parse_retry_after (ex_http_ext E) (ae_wall_response a) (resp_headers r)))"

definition is_success :: "nat \<Rightarrow> bool" where "is_success st \<longleftrightarrow> 200 \<le> st \<and> st < 300"

definition success_outcome :: "('d, 'p, 'o) exec \<Rightarrow> 'd attempt_env \<Rightarrow> http_response \<Rightarrow> outcome" where
  "success_outcome E a r =
     (case ex_mode E of
        Streaming \<Rightarrow> Succeeded (StreamingResponse r)
      | CollectedXml maximum embedded \<Rightarrow>
          (let hint = parse_retry_after (ex_http_ext E) (ae_wall_response a) (resp_headers r) in
           case collect_response (ex_config E) maximum (ex_deadline E) r of
             None \<Rightarrow> BodyPending
           | Some (Inl e) \<Rightarrow> Failed e hint
           | Some (Inr body) \<Rightarrow>
               (case embedded body maximum of
                  Inl e \<Rightarrow> Failed (protocol_error_s3 e) hint
                | Inr (Some parsed) \<Rightarrow>
                    Failed (service_error (ex_http_ext E) (ae_wall_response a) 200 (resp_headers r) (Some parsed)) hint
                | Inr None \<Rightarrow> Succeeded (CollectedResponse (resp_headers r) body))))"

definition read_outcome :: "('d, 'p, 'o) exec \<Rightarrow> 'd attempt_env \<Rightarrow> loop_state \<Rightarrow> s3_error + http_response \<Rightarrow> outcome" where
  "read_outcome E a st result =
     (case result of
        Inl e \<Rightarrow> Failed e None
      | Inr r \<Rightarrow>
          if is_success (resp_status r) then success_outcome E a r
          else
            (case (if ls_region_redirected st then None
                   else controlled_region_redirect (ex_http_ext E) (resp_status r) (resp_headers r)) of
               Some region \<Rightarrow>
                 (case redirected_aws_authority (ep_url (cfg_endpoint (ex_config E))) region of
                    Some _ \<Rightarrow>
                      if ex_replayable E \<and> ls_attempts_completed st < max_attempts (ex_policy E) \<and>
                         ae_elapsed_redirect a < max_elapsed (ex_policy E)
                      then Redirected region else failure_outcome E a r
                  | None \<Rightarrow> failure_outcome E a r)
             | None \<Rightarrow> failure_outcome E a r))"

definition follow_redirect :: "('d, 'p, 'o) exec \<Rightarrow> string \<Rightarrow> loop_state \<Rightarrow> attempt_result" where
  "follow_redirect E region st =
     (let service_authority = the (redirected_aws_authority (ep_url (cfg_endpoint (ex_config E))) region);
          authority = (case cfg_addressing_style (ex_config E) of
             Path \<Rightarrow> service_authority
           | VirtualHosted \<Rightarrow> cfg_bucket (ex_config E) @ ''.'' @ service_authority) in
      case with_authority (ex_uri_ext E) authority (ls_target st) of
        Inl e \<Rightarrow> Return (Inl e) st
      | Inr target \<Rightarrow>
          Continue (emit E RegionRedirected (ls_attempts_completed st) None (Some Retryable) (Some 0)
            (st\<lparr>ls_target := target, ls_signing_region := region, ls_region_redirected := True\<rparr>)))"

text \<open>
  The decision after a failure, up to scheduling the retry. \<open>Inl\<close> is the reason to stop, \<open>Inr\<close> the delay with the
  quota and the permit taken from it.
\<close>

definition retry_decision ::
  "('d, 'p, 'o) exec \<Rightarrow> 'd attempt_env \<Rightarrow> loop_state \<Rightarrow> retry_classification \<Rightarrow> duration option
     \<Rightarrow> retry_stop_reason + (duration \<times> retry_quota \<times> retry_permit)" where
  "retry_decision E a st cls hint =
     (let policy = ex_policy E; n = ls_attempts_completed st; elapsed = ae_elapsed a in
      reject_if (\<not> ex_replayable E) NonReplayable
      (reject_if (cls = Never) NonRetryable
      (reject_if (max_attempts policy \<le> n) AttemptsExhausted
      (reject_if (max_elapsed policy \<le> elapsed) ElapsedLimit
      (case delay_for (ae_rng a) policy cls n elapsed hint of
         None \<Rightarrow> Inl ElapsedLimit
       | Some dl \<Rightarrow>
         (case deadline_remaining (ex_deadline E) (ae_now_retry a) of
            Inl _ \<Rightarrow> Inl Deadline
          | Inr remaining \<Rightarrow>
            reject_if (remaining \<le> dl) Deadline
            (case acquire cls (ls_quota st) of
               (_, None) \<Rightarrow> Inl RetryQuotaDepleted
             | (quota, Some permit) \<Rightarrow> Inr (dl, quota, permit))))))))"

definition handle_failure ::
  "('d, 'p, 'o) exec \<Rightarrow> 'd attempt_env \<Rightarrow> s3_error \<Rightarrow> duration option \<Rightarrow> loop_state \<Rightarrow> attempt_result" where
  "handle_failure E a e hint st =
     (let cls = retry_classification_of e; n = ls_attempts_completed st in
      case retry_decision E a st cls hint of
        Inl reason \<Rightarrow>
          Return (Inl (with_retry_context n reason e))
            (emit E AttemptFailed n (Some (error_category_of e)) (Some cls) None st)
      | Inr (dl, quota, permit) \<Rightarrow>
          Continue (emit E RetryScheduled n (Some (error_category_of e)) (Some cls) (Some dl)
            (st\<lparr>ls_quota := quota, ls_pending_permit := Some permit\<rparr>)))"

definition attempt_step :: "('d, 'p, 'o) exec \<Rightarrow> 'd attempt_env \<Rightarrow> loop_state \<Rightarrow> attempt_result" where
  "attempt_step E a st0 =
     (let st0 = st0\<lparr>ls_quota := ae_others a (ls_quota st0)\<rparr> in
      case send_attempt E a st0 of
        (Inl e, st) \<Rightarrow> Return (Inl e) (drop_pending st)
      | (Inr result, st) \<Rightarrow>
          (case read_outcome E a st result of
             Succeeded s \<Rightarrow>
               Return (Inr s) (emit E AttemptSucceeded (ls_attempts_completed st) None None None
                 (st\<lparr>ls_quota := replenish_after_success (ls_last_retry_cost st) (ls_quota st)\<rparr>))
           | Redirected region \<Rightarrow> follow_redirect E region st
           | Failed e hint \<Rightarrow> handle_failure E a e hint st
           | BodyPending \<Rightarrow> StillWaiting))"

section \<open>The loop\<close>

fun send_loop :: "('d, 'p, 'o) exec \<Rightarrow> 'd attempt_env list \<Rightarrow> loop_state \<Rightarrow> ((s3_error + success) \<times> loop_state) option" where
  "send_loop E [] st = None"
| "send_loop E (a # as) st = (case attempt_step E a st of
     Continue st' \<Rightarrow> send_loop E as st'
   | Return r st' \<Rightarrow> Some (r, st')
   | StillWaiting \<Rightarrow> None)"

definition initial_state :: "('d, 'p, 'o) exec \<Rightarrow> endpoint_url \<Rightarrow> prepared_body option \<Rightarrow> retry_quota \<Rightarrow> loop_state" where
  "initial_state E target body quota = \<lparr>ls_target = target, ls_signing_region = cfg_region (ex_config E),
     ls_region_redirected = False, ls_attempts_completed = 0, ls_last_retry_cost = None, ls_pending_permit = None,
     ls_quota = quota, ls_body = body, ls_trace = []\<rparr>"

text \<open>\<open>send_signed_inner\<close>: the query is attached to the target once, then the loop runs.\<close>

definition send_signed_inner ::
  "('p, 'o) client \<Rightarrow> 'd request_ext \<Rightarrow> uri_ext \<Rightarrow> http_ext \<Rightarrow> (string \<Rightarrow> nat \<Rightarrow> parsed_s3_error option)
     \<Rightarrow> string \<Rightarrow> endpoint_url \<Rightarrow> (string \<times> string) list \<Rightarrow> header_map \<Rightarrow> prepared_body option \<Rightarrow> nat \<Rightarrow> success_mode
     \<Rightarrow> retry_quota \<Rightarrow> 'd attempt_env list \<Rightarrow> ((s3_error + success) \<times> retry_quota \<times> request_event list) option" where
  "send_signed_inner cl R U H parse mth target query headers body deadline mode quota envs =
     (let params = map (\<lambda>(n, v). \<lparr>qp_name = n, qp_value = v\<rparr>) query in
      case with_query U (canonical_query params) target of
        Inl e \<Rightarrow> Some (Inl e, quota, [])
      | Inr target \<Rightarrow>
          (let E = \<lparr>ex_client = cl, ex_request_ext = R, ex_uri_ext = U, ex_http_ext = H, ex_parse_s3_error = parse,
                 ex_method = mth, ex_query = params, ex_headers = headers, ex_deadline = deadline, ex_mode = mode,
                 ex_replayable = (case body of None \<Rightarrow> True | Some b \<Rightarrow> is_replayable b),
                 ex_payload_hash = (case body of None \<Rightarrow> payload_sha256_hex (rx_signing R) []
                                    | Some b \<Rightarrow> hex_encode (pb_sha256 b))\<rparr> in
           map_option (\<lambda>(r, st). (r, ls_quota st, ls_trace st)) (send_loop E envs (initial_state E target body quota))))"


section \<open>What one turn does\<close>

lemma emit_sel [simp]:
  "ls_target (emit E k n c cls d st) = ls_target st"
  "ls_signing_region (emit E k n c cls d st) = ls_signing_region st"
  "ls_region_redirected (emit E k n c cls d st) = ls_region_redirected st"
  "ls_attempts_completed (emit E k n c cls d st) = ls_attempts_completed st"
  "ls_last_retry_cost (emit E k n c cls d st) = ls_last_retry_cost st"
  "ls_pending_permit (emit E k n c cls d st) = ls_pending_permit st"
  "ls_quota (emit E k n c cls d st) = ls_quota st"
  "ls_body (emit E k n c cls d st) = ls_body st"
  by (simp_all add: emit_def)

lemma pending_sel [simp]:
  "ls_attempts_completed (drop_pending st) = ls_attempts_completed st"
  "ls_attempts_completed (commit_pending st) = ls_attempts_completed st"
  "ls_region_redirected (drop_pending st) = ls_region_redirected st"
  "ls_region_redirected (commit_pending st) = ls_region_redirected st"
  "ls_trace (drop_pending st) = ls_trace st"
  "ls_trace (commit_pending st) = ls_trace st"
  "ls_quota (commit_pending st) = ls_quota st"
  "ls_pending_permit (commit_pending st) = None"
  "ls_pending_permit (drop_pending st) = None"
  by (simp_all add: drop_pending_def commit_pending_def split: option.splits)

text \<open>The two ways \<open>send_attempt\<close> ends: before anything was sent, or with one more attempt counted.\<close>

lemma send_attempt_cases:
  assumes "send_attempt E a st = (r, st')"
  obtains (early) e body where "r = Inl e" and "st' = st\<lparr>ls_body := body\<rparr>"
    | (sent) result body rq where "r = Inr result"
      and "st' = (emit E AttemptStarted (saturating_add (ls_attempts_completed st) 1) None None None
              (commit_pending (st\<lparr>ls_body := body\<rparr>)))\<lparr>ls_attempts_completed := saturating_add (ls_attempts_completed st) 1\<rparr>"
      and "ae_now_sent a < ex_deadline E"
      and "fst (signed_request (ex_request_ext E) (attempt_input E st) (ae_provided a) (ae_wall_check a) (ae_wall_sign a) (ls_body st)) = Inr rq"
      and "result = transport_send (ex_client E) (ls_target st) (ae_send a) rq
              (min (cfg_attempt_timeout (ex_config E)) (ex_deadline E - ae_now_sent a))"
proof -
  obtain signed body where s: "signed_request (ex_request_ext E) (attempt_input E st) (ae_provided a)
      (ae_wall_check a) (ae_wall_sign a) (ls_body st) = (signed, body)" by fastforce
  have t: "ls_target (commit_pending x) = ls_target x" for x by (simp add: commit_pending_def split: option.splits)
  show ?thesis
  proof (cases "deadline_remaining (ex_deadline E) (ae_now_start a)")
    case (Inl e)
    with assms show ?thesis by (intro early[of e "ls_body st"]) (simp_all add: send_attempt_def)
  next
    case (Inr x)
    show ?thesis
    proof (cases "ae_sign_timed_out a \<or> isl signed \<or> isl (deadline_remaining (ex_deadline E) (ae_now_sent a))")
      case True
      with assms Inr s show ?thesis
        by (cases "ae_sign_timed_out a"; cases signed; cases "deadline_remaining (ex_deadline E) (ae_now_sent a)")
          (auto simp: send_attempt_def intro: early[of _ "ls_body st"] early[of _ body])
    next
      case False
      then obtain rq where rq: "signed = Inr rq" "ae_now_sent a < ex_deadline E"
        by (cases signed) (auto simp: deadline_remaining_def split: if_splits)
      with assms Inr s False show ?thesis
        by (intro sent[of _ body rq]) (simp_all add: send_attempt_def Let_def deadline_remaining_def t)
    qed
  qed
qed

lemma read_outcome_Redirected:
  assumes "read_outcome E a st result = Redirected region"
  shows "\<not> ls_region_redirected st \<and> ex_replayable E \<and> ls_attempts_completed st < max_attempts (ex_policy E) \<and>
    redirected_aws_authority (ep_url (cfg_endpoint (ex_config E))) region \<noteq> None \<and>
    (\<exists>r. result = Inr r \<and> controlled_region_redirect (ex_http_ext E) (resp_status r) (resp_headers r) = Some region)"
  using assms
  by (auto simp: read_outcome_def success_outcome_def failure_outcome_def Let_def
      split: sum.splits if_splits option.splits success_mode.splits)

lemma retry_decision_Inr:
  assumes "retry_decision E a st cls hint = Inr (dl, quota, permit)"
  shows "ex_replayable E \<and> ls_attempts_completed st < max_attempts (ex_policy E) \<and>
    permits_retry (ex_policy E) cls (ls_attempts_completed st) (ae_elapsed a) \<and>
    delay_for (ae_rng a) (ex_policy E) cls (ls_attempts_completed st) (ae_elapsed a) hint = Some dl \<and>
    acquire cls (ls_quota st) = (quota, Some permit) \<and> ae_now_retry a + dl < ex_deadline E"
  using assms
  by (auto simp: retry_decision_def Let_def permits_retry_def deadline_remaining_def not_le
      split: if_splits option.splits sum.splits prod.splits)

text \<open>The state right after the transport was asked.\<close>

definition sent_state :: "('d, 'p, 'o) exec \<Rightarrow> 'd attempt_env \<Rightarrow> loop_state \<Rightarrow> prepared_body option \<Rightarrow> loop_state" where
  "sent_state E a st body =
     (emit E AttemptStarted (saturating_add (ls_attempts_completed st) 1) None None None
        (commit_pending (st\<lparr>ls_quota := ae_others a (ls_quota st), ls_body := body\<rparr>)))
       \<lparr>ls_attempts_completed := saturating_add (ls_attempts_completed st) 1\<rparr>"

lemma sent_state_sel [simp]:
  "ls_attempts_completed (sent_state E a st body) = saturating_add (ls_attempts_completed st) 1"
  "ls_region_redirected (sent_state E a st body) = ls_region_redirected st"
  "ls_quota (sent_state E a st body) = ae_others a (ls_quota st)"
  "ls_pending_permit (sent_state E a st body) = None"
  by (simp_all add: sent_state_def commit_pending_def split: option.splits)

lemma attempt_step_cases:
  obtains (early) e body where "attempt_step E a st = Return (Inl e)
        (drop_pending (st\<lparr>ls_quota := ae_others a (ls_quota st), ls_body := body\<rparr>))"
    | (success) s body where "attempt_step E a st = Return (Inr s) (emit E AttemptSucceeded
        (saturating_add (ls_attempts_completed st) 1) None None None
        ((sent_state E a st body)\<lparr>ls_quota := replenish_after_success (ls_last_retry_cost (sent_state E a st body))
           (ae_others a (ls_quota st))\<rparr>))"
    | (redirect) region body where "attempt_step E a st = follow_redirect E region (sent_state E a st body)"
        and "\<not> ls_region_redirected st" and "ex_replayable E"
        and "saturating_add (ls_attempts_completed st) 1 < max_attempts (ex_policy E)"
        and "\<exists>r :: http_response. controlled_region_redirect (ex_http_ext E) (resp_status r) (resp_headers r) = Some region"
        and "redirected_aws_authority (ep_url (cfg_endpoint (ex_config E))) region \<noteq> None"
    | (failure) e hint body where "attempt_step E a st = handle_failure E a e hint (sent_state E a st body)"
    | (waiting) "attempt_step E a st = StillWaiting"
proof -
  let ?st = "st\<lparr>ls_quota := ae_others a (ls_quota st)\<rparr>"
  obtain r st' where s: "send_attempt E a ?st = (r, st')" by fastforce
  from s show ?thesis
  proof (cases rule: send_attempt_cases)
    case (early e body)
    with s show ?thesis by (intro that(1)[of e body]) (simp add: attempt_step_def)
  next
    case (sent result body rq)
    have st': "st' = sent_state E a st body" using sent(2) by (simp add: sent_state_def)
    show ?thesis
    proof (cases "read_outcome E a st' result")
      case (Succeeded x)
      with s sent(1) st' show ?thesis by (intro that(2)[of x body]) (simp add: attempt_step_def)
    next
      case (Redirected region)
      note f = read_outcome_Redirected[OF Redirected]
      then have "\<exists>r :: http_response. controlled_region_redirect (ex_http_ext E) (resp_status r) (resp_headers r) = Some region" by blast
      with s sent(1) st' f Redirected show ?thesis
        by (intro that(3)[of region body]) (simp_all add: attempt_step_def)
    next
      case (Failed e hint)
      with s sent(1) st' show ?thesis by (intro that(4)[of e hint body]) (simp add: attempt_step_def)
    next
      case BodyPending
      with s sent(1) show ?thesis by (intro that(5)) (simp add: attempt_step_def)
    qed
  qed
qed


section \<open>The loop as a transition system\<close>

inductive exec_step :: "('d, 'p, 'o) exec \<Rightarrow> loop_state \<Rightarrow> loop_state \<Rightarrow> bool" for E where
  turn: "attempt_step E a st = Continue st' \<Longrightarrow> exec_step E st st'"

inductive exec_reach :: "('d, 'p, 'o) exec \<Rightarrow> loop_state \<Rightarrow> loop_state \<Rightarrow> bool" for E st0 where
  start: "exec_reach E st0 st0"
| step: "exec_reach E st0 st \<Longrightarrow> exec_step E st st' \<Longrightarrow> exec_reach E st0 st'"

inductive_cases exec_stepE: "exec_step E st st'"

lemma send_loop_reach:
  "send_loop E as st = Some (r, st') \<Longrightarrow> exec_reach E st0 st \<Longrightarrow>
     \<exists>a \<in> set as. \<exists>st1. exec_reach E st0 st1 \<and> attempt_step E a st1 = Return r st'"
proof (induction as arbitrary: st)
  case (Cons a as)
  show ?case
  proof (cases "attempt_step E a st")
    case (Continue st1)
    then have "exec_reach E st0 st1" using Cons.prems(2) by (blast intro: exec_step.turn exec_reach.step)
    with Cons.IH[of st1] Cons.prems(1) Continue show ?thesis by auto
  next
    case (Return q st1)
    with Cons.prems show ?thesis by auto
  qed (use Cons.prems(1) in simp)
qed simp

text \<open>A turn that goes on has sent an attempt and may send another.\<close>

lemma follow_redirect_cases:
  obtains e where "follow_redirect E region st = Return (Inl e) st"
    | target where "follow_redirect E region st = Continue (emit E RegionRedirected (ls_attempts_completed st) None
         (Some Retryable) (Some 0) (st\<lparr>ls_target := target, ls_signing_region := region, ls_region_redirected := True\<rparr>))"
  by (cases "with_authority (ex_uri_ext E) (case cfg_addressing_style (ex_config E) of
             Path \<Rightarrow> the (redirected_aws_authority (ep_url (cfg_endpoint (ex_config E))) region)
           | VirtualHosted \<Rightarrow> cfg_bucket (ex_config E) @ ''.'' @
               the (redirected_aws_authority (ep_url (cfg_endpoint (ex_config E))) region)) (ls_target st)")
    (auto simp: follow_redirect_def Let_def)

lemma attempt_step_Continue:
  assumes "attempt_step E a st = Continue st'"
  shows "ls_attempts_completed st' = saturating_add (ls_attempts_completed st) 1"
    and "ls_attempts_completed st' < max_attempts (ex_policy E)" and "ex_replayable E"
    and "ls_region_redirected st \<longrightarrow> ls_region_redirected st'"
proof -
  have *: "ls_attempts_completed st' = saturating_add (ls_attempts_completed st) 1 \<and>
    ls_attempts_completed st' < max_attempts (ex_policy E) \<and> ex_replayable E \<and>
    (ls_region_redirected st \<longrightarrow> ls_region_redirected st')"
  proof (cases rule: attempt_step_cases[of E a st])
    case (redirect region body)
    with assms show ?thesis by (cases rule: follow_redirect_cases[of E region "sent_state E a st body"]) auto
  next
    case (failure e hint body)
    then obtain dl quota permit where
      d: "retry_decision E a (sent_state E a st body) (retry_classification_of e) hint = Inr (dl, quota, permit)"
      and st': "st' = emit E RetryScheduled (saturating_add (ls_attempts_completed st) 1) (Some (error_category_of e))
        (Some (retry_classification_of e)) (Some dl)
        ((sent_state E a st body)\<lparr>ls_quota := quota, ls_pending_permit := Some permit\<rparr>)"
      using assms by (auto simp: handle_failure_def Let_def split: sum.splits)
    from retry_decision_Inr[OF d] show ?thesis by (simp add: st')
  qed (use assms in auto)
  from * show "ls_attempts_completed st' = saturating_add (ls_attempts_completed st) 1"
    and "ls_attempts_completed st' < max_attempts (ex_policy E)" and "ex_replayable E"
    and "ls_region_redirected st \<longrightarrow> ls_region_redirected st'" by blast+
qed

lemma less_word_bound: "(n :: u32) < m \<Longrightarrow> unat (saturating_add n 1) = unat n + 1"
proof -
  assume "n < m"
  then have "unat n < unat m" by (simp add: word_less_nat_alt)
  moreover have "unat m < 2 ^ LENGTH(32)" by (rule unsigned_less)
  ultimately show ?thesis by (simp add: unat_saturating_add)
qed

lemma attempt_step_Return_attempts:
  assumes "attempt_step E a st = Return r st'"
  shows "ls_attempts_completed st' = ls_attempts_completed st \<or>
    ls_attempts_completed st' = saturating_add (ls_attempts_completed st) 1"
proof (cases rule: attempt_step_cases[of E a st])
  case (redirect region body)
  with assms show ?thesis by (cases rule: follow_redirect_cases[of E region "sent_state E a st body"]) auto
qed (use assms in \<open>auto simp: handle_failure_def Let_def split: sum.splits prod.splits\<close>)

text \<open>Before every turn fewer attempts were sent than the policy allows.\<close>

lemma exec_reach_attempts:
  "exec_reach E st0 st \<Longrightarrow> ls_attempts_completed st0 < max_attempts (ex_policy E) \<Longrightarrow>
     ls_attempts_completed st < max_attempts (ex_policy E)"
  by (induction rule: exec_reach.induct) (auto elim!: exec_stepE dest: attempt_step_Continue(2))

text \<open>The loop goes on only while the attempt count grows, so enough environments make it return.\<close>

lemma send_loop_returns:
  assumes "\<And>a s. a \<in> set as \<Longrightarrow> attempt_step E a s \<noteq> StillWaiting"
    and "ls_attempts_completed st < max_attempts (ex_policy E)"
    and "unat (max_attempts (ex_policy E)) \<le> unat (ls_attempts_completed st) + length as"
  shows "\<exists>r st'. send_loop E as st = Some (r, st')"
  using assms
proof (induction as arbitrary: st)
  case Nil
  then show ?case by (simp add: word_less_nat_alt)
next
  case (Cons a as)
  show ?case
  proof (cases "attempt_step E a st")
    case (Continue st1)
    note c = attempt_step_Continue[OF Continue]
    have "unat (ls_attempts_completed st1) = unat (ls_attempts_completed st) + 1"
      using c(1) less_word_bound[OF Cons.prems(2)] by simp
    with Cons.IH[of st1] Cons.prems c(2) Continue show ?thesis by simp
  qed (use Cons.prems(1)[of a st] in auto)
qed

end
