(* ===== verification/Execute_Safety.thy ===== *)
theory Execute_Safety
  imports Execute
begin

text \<open>
  What the request loop of \<open>src/client/request/execute.rs\<close> keeps over a whole operation: its use of the shared retry
  quota refines the quota protocol of \<open>Retry\<close>, the observer sees the attempts numbered in order and the result it is
  told matches the result returned, a body that cannot be replayed is sent at most once, and a redirected request
  stays on the host that its signing region names.
\<close>

section \<open>A concrete operation\<close>

definition example_exec :: "bool \<Rightarrow> (string, unit, unit) exec" where
  "example_exec replayable = \<lparr>ex_client = example_client, ex_request_ext = example_request_ext, ex_uri_ext = example_uri_ext,
     ex_http_ext = ascii_http_ext, ex_parse_s3_error = (\<lambda>_ _. None), ex_method = ''GET'', ex_query = [], ex_headers = [],
     ex_deadline = 10, ex_mode = Streaming, ex_replayable = replayable, ex_payload_hash = UNSIGNED_PAYLOAD\<rparr>"

definition example_attempt :: "client_outcome \<Rightarrow> string attempt_env" where
  "example_attempt answer = \<lparr>ae_others = id, ae_now_start = 0, ae_provided = Inr example_creds, ae_wall_check = 0, ae_wall_sign = 0,
     ae_sign_timed_out = False, ae_now_sent = 0, ae_send = (\<lambda>_ _. answer), ae_wall_response = 0, ae_elapsed_redirect = 0,
     ae_elapsed = 0, ae_now_retry = 0, ae_rng = (\<lambda>_. 0)\<rparr>"

definition example_start :: "bool \<Rightarrow> loop_state" where
  "example_start replayable = initial_state (example_exec replayable) example_target None quota_new"

lemma example_sent:
  assumes "ls_target st = example_target" and "ls_signing_region st = ''us-east-1''" and "ls_body st = None"
  shows "\<exists>body. send_attempt (example_exec rep) (example_attempt answer) st =
    (Inr (client_result True answer), sent_state (example_exec rep) (example_attempt answer) st body)"
proof -
  have i: "attempt_input (example_exec rep) st = example_input"
    using assms by (simp add: attempt_input_def example_exec_def example_input_def)
  obtain rq body' where r: "signed_request example_request_ext example_input (Inr example_creds) 0 0 None = (Inr rq, body')"
    using not_isl_Inr[OF example_signed_request] by (metis prod.collapse)
  have t: "ls_target (commit_pending x) = ls_target x" for x by (simp add: commit_pending_def split: option.splits)
  have n: "\<not> transport_refuses example_client example_target"
    by (simp add: transport_refuses_def example_target_def)
  have "send_attempt (example_exec rep) (example_attempt answer) st =
    (Inr (client_result True answer), sent_state (example_exec rep) (example_attempt answer) st body')"
    unfolding send_attempt_def i
    using assms r n
    by (simp add: example_exec_def example_attempt_def deadline_remaining_def sent_state_def transport_send_def t Let_def example_target_def)
  then show ?thesis by blast
qed

definition example_client_error :: client_error where
  "example_client_error = \<lparr>ce_is_connect = False, ce_type = ''io'', ce_chain = [OtherLink]\<rparr>"

definition example_error :: s3_error where "example_error = transport ''io''"

lemma example_client_result:
  "client_result True (ClientFailed example_client_error) = Inl example_error"
  "client_result True (Answered r) = Inr r"
  by (simp_all add: client_result_def example_error_def example_client_error_def classify_client_error_def)

lemma example_start_sel:
  "ls_target (example_start rep) = example_target" "ls_signing_region (example_start rep) = ''us-east-1''" "ls_body (example_start rep) = None"
  by (simp_all add: example_start_def initial_state_def example_exec_def example_client_def)

lemmas example_start_sent = example_sent[OF example_start_sel]

section \<open>The shared retry quota\<close>

text \<open>
  The quota protocol as one operation takes part in it: the shared counter and the permits of the other operations in
  \<open>s\<close>, with the permit this operation holds in front.
\<close>

definition quota_view :: "loop_state \<Rightarrow> quota_system \<Rightarrow> quota_system" where
  "quota_view st s = \<lparr>pool = ls_quota st,
     held = (case ls_pending_permit st of None \<Rightarrow> held s | Some p \<Rightarrow> p # held s),
     spent = spent s, regained = regained s\<rparr>"

definition chargeable :: "u32 \<Rightarrow> bool" where "chargeable c \<longleftrightarrow> c = 14 \<or> c = 5"

definition permit_inv :: "loop_state \<Rightarrow> bool" where
  "permit_inv st \<longleftrightarrow> (case ls_pending_permit st of None \<Rightarrow> True | Some p \<Rightarrow> \<not> committed p \<and> chargeable (cost p)) \<and>
     (case ls_last_retry_cost st of None \<Rightarrow> True | Some c \<Rightarrow> chargeable c)"

lemma chargeable_retry_cost: "chargeable c \<longleftrightarrow> (\<exists>cls. retry_cost cls = Some c)"
proof
  assume "chargeable c"
  then have "retry_cost Retryable = Some c \<or> retry_cost Throttled = Some c"
    by (auto simp: chargeable_def retry_cost_def THROTTLING_RETRY_COST_def TRANSIENT_RETRY_COST_def)
  then show "\<exists>cls. retry_cost cls = Some c" by blast
next
  assume "\<exists>cls. retry_cost cls = Some c"
  then obtain cls where "retry_cost cls = Some c" by blast
  then show "chargeable c"
    by (cases cls) (auto simp: chargeable_def retry_cost_def THROTTLING_RETRY_COST_def TRANSIENT_RETRY_COST_def)
qed

lemma quota_view_cong:
  "ls_quota st = ls_quota st' \<Longrightarrow> ls_pending_permit st = ls_pending_permit st' \<Longrightarrow> quota_view st s = quota_view st' s"
  by (simp add: quota_view_def)

text \<open>The tokens of the permit an operation holds, and the cost of the retry that the attempt it sends next was, if it is one.\<close>

definition held_tokens :: "loop_state \<Rightarrow> nat" where
  "held_tokens st = (case ls_pending_permit st of None \<Rightarrow> 0 | Some p \<Rightarrow> unat (cost p))"

definition paid_for :: "loop_state \<Rightarrow> u32 option" where
  "paid_for st = (case ls_pending_permit st of None \<Rightarrow> ls_last_retry_cost st | Some p \<Rightarrow> Some (cost p))"

text \<open>
  What a turn owes the protocol, read off its states and its result alone: an attempt that was sent charges the permit held before, a
  permit held before an attempt that was not sent is refunded, and only a success restores tokens, those of the retry it was or one.
\<close>

definition was_sent :: "loop_state \<Rightarrow> loop_state \<Rightarrow> bool" where
  "was_sent st st' \<longleftrightarrow> ls_attempts_completed st' \<noteq> ls_attempts_completed st"

definition charged :: "loop_state \<Rightarrow> loop_state \<Rightarrow> nat" where
  "charged st st' = (if was_sent st st' then held_tokens st else 0)"

definition refunded :: "loop_state \<Rightarrow> loop_state \<Rightarrow> nat" where
  "refunded st st' = (if was_sent st st' then 0 else held_tokens st)"

definition restored :: "loop_state \<Rightarrow> attempt_result \<Rightarrow> nat" where
  "restored st res = (case res of
     Return (Inr _) _ \<Rightarrow> (case paid_for st of None \<Rightarrow> 1 | Some c \<Rightarrow> unat c)
   | _ \<Rightarrow> 0)"

text \<open>A step of the operation from the counter in \<open>st\<close>: its run in the protocol, and the balance of the tokens it leaves.\<close>

definition ledger :: "loop_state \<Rightarrow> loop_state \<Rightarrow> nat \<Rightarrow> nat \<Rightarrow> nat \<Rightarrow> quota_system \<Rightarrow> bool" where
  "ledger st st' ch rf rs s \<longleftrightarrow>
     quota_step\<^sup>*\<^sup>* (quota_view st s) (quota_view st' (s\<lparr>spent := spent s + ch, regained := regained s + rs\<rparr>)) \<and>
     unat (tokens (ls_quota st')) + held_tokens st' = min 500 (unat (tokens (ls_quota st)) + rf + rs)"

lemma ledger_cong:
  assumes "ls_quota st = ls_quota x" and "ls_pending_permit st = ls_pending_permit x"
    and "ls_quota st' = ls_quota x'" and "ls_pending_permit st' = ls_pending_permit x'"
  shows "ledger st st' ch rf rs s = ledger x x' ch rf rs s"
  unfolding ledger_def quota_view_cong[OF assms(1,2)] quota_view_cong[OF assms(3,4)] held_tokens_def assms ..

lemma replenish_level: "quota_ok q \<Longrightarrow> chargeable c \<Longrightarrow> unat (tokens (replenish_after_success (Some c) q)) = min 500 (unat (tokens q) + unat c)"
  using quota.give_level[of q "unat c"] replenish_give[of c q] by (auto simp: chargeable_def min.commute)

lemma quota_ok_level: "quota_ok q \<Longrightarrow> unat (tokens q) \<le> 500"
  by (rule quota.level_invar)

lemma ledger_commit:
  assumes "permit_inv st" and "quota_ok (ls_quota st)"
  shows "ledger st (commit_pending st) (held_tokens st) 0 0 s"
proof (cases "ls_pending_permit st")
  case None
  then have "quota_view (commit_pending st) (s\<lparr>spent := spent s, regained := regained s\<rparr>) = quota_view st s"
    by (simp add: commit_pending_def quota_view_def)
  with None quota_ok_level[OF assms(2)] show ?thesis by (simp add: ledger_def held_tokens_def commit_pending_def)
next
  case (Some p)
  have "quota_step (quota_view st s) (quota_view (commit_pending st) (s\<lparr>spent := spent s + unat (cost p), regained := regained s + 0\<rparr>))"
    using quota_step.qs_commit[of p "quota_view st s"] Some
    by (simp add: quota_view_def commit_pending_def commit_def drop_permit_def)
  with Some quota_ok_level[OF assms(2)] show ?thesis
    by (simp add: ledger_def held_tokens_def r_into_rtranclp)
qed

lemma ledger_drop:
  assumes "permit_inv st" and "quota_ok (ls_quota st)"
  shows "ledger st (drop_pending st) 0 (held_tokens st) 0 s"
proof (cases "ls_pending_permit st")
  case None
  then have "quota_view (drop_pending st) (s\<lparr>spent := spent s, regained := regained s\<rparr>) = quota_view st s"
    by (simp add: drop_pending_def quota_view_def)
  with None quota_ok_level[OF assms(2)] show ?thesis by (simp add: ledger_def held_tokens_def drop_pending_def)
next
  case (Some p)
  have "quota_step (quota_view st s) (quota_view (drop_pending st) (s\<lparr>spent := spent s + 0, regained := regained s + 0\<rparr>))"
    using quota_step.qs_drop[of p "quota_view st s"] Some by (simp add: quota_view_def drop_pending_def)
  moreover have "ls_quota (drop_pending st) = replenish_after_success (Some (cost p)) (ls_quota st)" "chargeable (cost p)"
    using assms(1) Some by (simp_all add: drop_pending_def drop_permit_def permit_inv_def)
  ultimately show ?thesis using Some replenish_level[OF assms(2)]
    by (simp add: ledger_def held_tokens_def r_into_rtranclp)
qed

lemma ledger_acquire:
  assumes "acquire cls (ls_quota st) = (q, Some p)" and "ls_pending_permit st = None" and "quota_ok (ls_quota st)"
  shows "ledger st (st\<lparr>ls_quota := q, ls_pending_permit := Some p\<rparr>) 0 0 0 s"
proof -
  from acquire_Some[OF assms(1)] obtain c where c: "cost p = c" "quota_take (unat c) (ls_quota st) = Some q" by blast
  have "quota_step (quota_view st s) (quota_view (st\<lparr>ls_quota := q, ls_pending_permit := Some p\<rparr>)
      (s\<lparr>spent := spent s + 0, regained := regained s + 0\<rparr>))"
    using quota_step.qs_acquire[of cls "quota_view st s" q p] assms by (auto simp: quota_view_def)
  with c quota.take_Some[OF assms(3) c(2)] quota_ok_level[OF assms(3)] show ?thesis
    by (simp add: ledger_def held_tokens_def r_into_rtranclp)
qed

lemma ledger_replenish:
  assumes "permit_inv st" and "ls_pending_permit st = None" and "quota_ok (ls_quota st)"
  shows "ledger st (st\<lparr>ls_quota := replenish_after_success (ls_last_retry_cost st) (ls_quota st)\<rparr>) 0 0
    (case ls_last_retry_cost st of None \<Rightarrow> 1 | Some c \<Rightarrow> unat c) s"
proof (cases "ls_last_retry_cost st")
  case None
  have "quota_step (quota_view st s)
    (quota_view (st\<lparr>ls_quota := replenish_after_success None (ls_quota st)\<rparr>) (s\<lparr>spent := spent s + 0, regained := regained s + 1\<rparr>))"
    using quota_step.qs_success_first[of "quota_view st s"] assms(2) by (simp add: quota_view_def)
  moreover have "unat (tokens (replenish_after_success None (ls_quota st))) = min 500 (unat (tokens (ls_quota st)) + 1)"
    unfolding replenish_None_give by (simp only: quota.give_level[OF assms(3)] min.commute)
  ultimately show ?thesis using None assms(2) by (simp add: ledger_def held_tokens_def r_into_rtranclp)
next
  case (Some c)
  then have ch: "chargeable c" using assms(1) by (simp add: permit_inv_def)
  then obtain cls where "retry_cost cls = Some c" by (auto simp: chargeable_retry_cost)
  from quota_step.qs_success_retry[OF this, of "quota_view st s"]
  have "quota_step (quota_view st s)
    (quota_view (st\<lparr>ls_quota := replenish_after_success (Some c) (ls_quota st)\<rparr>) (s\<lparr>spent := spent s + 0, regained := regained s + unat c\<rparr>))"
    using assms(2) by (simp add: quota_view_def)
  with Some assms(2) replenish_level[OF assms(3) ch] show ?thesis by (simp add: ledger_def held_tokens_def r_into_rtranclp)
qed

text \<open>Steps follow each other; a step after one that refunds nothing and leaves no permit starts from the same tokens.\<close>

lemma ledger_trans:
  assumes "ledger st x ch 0 0 s" and "ls_pending_permit x = None" and "quota_ok (ls_quota st)"
    and "\<And>s. ledger x st' 0 0 rs s"
  shows "ledger st st' ch 0 rs s"
proof -
  have "unat (tokens (ls_quota x)) = unat (tokens (ls_quota st))"
    using assms(1,2) quota_ok_level[OF assms(3)] by (simp add: ledger_def held_tokens_def)
  moreover have "quota_step\<^sup>*\<^sup>* (quota_view st s) (quota_view st' (s\<lparr>spent := spent s + ch, regained := regained s + rs\<rparr>))"
    using assms(1) assms(4)[of "s\<lparr>spent := spent s + ch, regained := regained s + 0\<rparr>"]
    by (simp add: ledger_def) (meson rtranclp_trans)
  ultimately show ?thesis using assms(4)[of s] by (simp add: ledger_def)
qed

lemma permit_inv_sent: "permit_inv st \<Longrightarrow> permit_inv (sent_state E a st body)"
  by (auto simp: permit_inv_def sent_state_def commit_pending_def commit_def split: option.splits)

lemma acquire_chargeable: "acquire cls q = (q', Some p) \<Longrightarrow> \<not> committed p \<and> chargeable (cost p)"
  using acquire_Some[of cls q q' p] by (auto simp: chargeable_retry_cost)

text \<open>What a failure does: the turn ends the operation with its quota untouched, or takes one permit and goes on.\<close>

lemma handle_failure_cases:
  obtains (stop) reason where "handle_failure E a e hint st = Return (Inl (with_retry_context (ls_attempts_completed st) reason e))
        (emit E AttemptFailed (ls_attempts_completed st) (Some (error_category_of e)) (Some (retry_classification_of e)) None st)"
      and "retry_decision E a st (retry_classification_of e) hint = Inl reason"
    | (again) dl q p where "handle_failure E a e hint st = Continue (emit E RetryScheduled (ls_attempts_completed st)
        (Some (error_category_of e)) (Some (retry_classification_of e)) (Some dl) (st\<lparr>ls_quota := q, ls_pending_permit := Some p\<rparr>))"
      and "acquire (retry_classification_of e) (ls_quota st) = (q, Some p)"
      and "retry_decision E a st (retry_classification_of e) hint = Inr (dl, q, p)"
proof (cases "retry_decision E a st (retry_classification_of e) hint")
  case (Inl reason)
  then show ?thesis by (intro that(1)[of reason]) (simp_all add: handle_failure_def Let_def)
next
  case (Inr x)
  obtain dl q p where "x = (dl, q, p)" by (cases x) auto
  with Inr retry_decision_Inr[of E a st "retry_classification_of e" hint dl q p] show ?thesis
    by (intro that(2)[of dl p q]) (simp_all add: handle_failure_def Let_def)
qed

abbreviation seen_quota :: "'d attempt_env \<Rightarrow> loop_state \<Rightarrow> loop_state" where
  "seen_quota a st \<equiv> st\<lparr>ls_quota := ae_others a (ls_quota st)\<rparr>"

text \<open>Sending an attempt commits the permit that is held; what follows starts from there.\<close>

lemma ledger_sent:
  assumes "permit_inv st" and "quota_ok (ae_others a (ls_quota st))" and "\<And>s. ledger (sent_state E a st body) st' 0 0 rs s"
  shows "ledger (seen_quota a st) st' (held_tokens st) 0 rs s"
proof (rule ledger_trans[OF _ _ _ assms(3)])
  let ?st = "(seen_quota a st)\<lparr>ls_body := body\<rparr>"
  have "permit_inv ?st" using assms(1) by (simp add: permit_inv_def)
  from ledger_commit[OF this] assms(2) have "ledger ?st (commit_pending ?st) (held_tokens ?st) 0 0 s" by simp
  then show "ledger (seen_quota a st) (sent_state E a st body) (held_tokens st) 0 0 s"
    by (subst ledger_cong[where x = ?st and x' = "commit_pending ?st"]) (simp_all add: sent_state_def held_tokens_def)
qed (use assms(2) in simp_all)

lemma ledger_same:
  assumes "ls_quota st' = ls_quota st" and "ls_pending_permit st' = None" and "ls_pending_permit st = None" and "quota_ok (ls_quota st)"
  shows "ledger st st' 0 0 0 s"
proof -
  have "quota_view st' (s\<lparr>spent := spent s + 0, regained := regained s + 0\<rparr>) = quota_view st s"
    by (simp add: quota_view_def assms)
  with assms quota_ok_level[OF assms(4)] show ?thesis by (simp add: ledger_def held_tokens_def)
qed

lemma permit_inv_cong:
  "permit_inv st \<Longrightarrow> ls_pending_permit st' = None \<Longrightarrow> ls_last_retry_cost st' = ls_last_retry_cost st \<Longrightarrow> permit_inv st'"
  by (simp add: permit_inv_def)

lemma sent_last_cost: "ls_last_retry_cost (sent_state E a st body) = paid_for st"
  by (simp add: sent_state_def commit_pending_def commit_def paid_for_def split: option.splits)

text \<open>One turn: the invariant on the permit, the ledger, and the cost the operation remembers.\<close>

definition turn_ok :: "'d attempt_env \<Rightarrow> loop_state \<Rightarrow> attempt_result \<Rightarrow> loop_state \<Rightarrow> quota_system \<Rightarrow> bool" where
  "turn_ok a st res st' s \<longleftrightarrow> permit_inv st' \<and>
     ledger (seen_quota a st) st' (charged st st') (refunded st st') (restored st res) s \<and>
     ls_last_retry_cost st' = (if was_sent st st' then paid_for st else ls_last_retry_cost st)"

lemma sent_turn_ok:
  assumes "was_sent st st'" and "permit_inv st" and "quota_ok (ae_others a (ls_quota st))" and "permit_inv st'"
    and "\<And>s. ledger (sent_state E a st body) st' 0 0 (restored st res) s" and "ls_last_retry_cost st' = paid_for st"
  shows "turn_ok a st res st' s"
  using assms(1,4,6) ledger_sent[OF assms(2,3,5)] by (simp add: turn_ok_def charged_def refunded_def)

lemma turn_quota:
  assumes inv: "permit_inv st" and ok: "quota_ok (ae_others a (ls_quota st))" and more: "ls_attempts_completed st < m"
    and turn: "attempt_step E a st = Continue st' \<or> attempt_step E a st = Return r st'"
  shows "turn_ok a st (attempt_step E a st) st' s \<and> (attempt_step E a st = Return r st' \<longrightarrow> ls_pending_permit st' = None)"
proof -
  let ?sent = "sent_state E a st"
  have sent: "was_sent st x" if "ls_attempts_completed x = saturating_add (ls_attempts_completed st) 1" for x
    using less_word_bound[OF more] by (auto simp: was_sent_def that)
  have kept: "turn_ok a st (attempt_step E a st) st' s"
    if "ls_quota st' = ls_quota (?sent body)" "ls_pending_permit st' = None" "ls_last_retry_cost st' = ls_last_retry_cost (?sent body)"
      "ls_attempts_completed st' = saturating_add (ls_attempts_completed st) 1" "restored st (attempt_step E a st) = 0" for body
    using that ok permit_inv_cong[OF permit_inv_sent[OF inv, of E a body] that(2,3)]
    by (intro sent_turn_ok[OF sent inv ok, where E = E and body = body]) (simp_all add: ledger_same sent_last_cost)
  show ?thesis
  proof (cases rule: attempt_step_cases[of E a st])
    case (early e body)
    let ?st = "(seen_quota a st)\<lparr>ls_body := body\<rparr>"
    have st': "st' = drop_pending ?st" using early turn by auto
    have "permit_inv ?st" using inv by (simp add: permit_inv_def)
    from ledger_drop[OF this] ok have "ledger ?st st' 0 (held_tokens ?st) 0 s" by (simp add: st')
    then have "ledger (seen_quota a st) st' 0 (held_tokens st) 0 s"
      by (subst ledger_cong[where x = ?st and x' = st']) (simp_all add: held_tokens_def)
    moreover have "ls_last_retry_cost st' = ls_last_retry_cost st" by (simp add: st' drop_pending_def split: option.split)
    moreover have "permit_inv st'" using inv calculation(2) by (simp add: permit_inv_def st')
    ultimately show ?thesis using early st'
      by (simp add: turn_ok_def was_sent_def charged_def refunded_def restored_def)
  next
    case (success x body)
    then have st': "ls_quota st' = replenish_after_success (ls_last_retry_cost (?sent body)) (ls_quota (?sent body))"
      "ls_pending_permit st' = None" "ls_last_retry_cost st' = ls_last_retry_cost (?sent body)"
      "ls_attempts_completed st' = saturating_add (ls_attempts_completed st) 1" using turn by auto
    have "restored st (attempt_step E a st) = (case ls_last_retry_cost (?sent body) of None \<Rightarrow> 1 | Some c \<Rightarrow> unat c)"
      unfolding sent_last_cost by (simp add: success restored_def)
    with ledger_replenish[OF permit_inv_sent[OF inv, of E a body]] ok
    have L: "ledger (?sent body) st' 0 0 (restored st (attempt_step E a st)) s" for s
      by (subst ledger_cong[where x = "?sent body" and
            x' = "(?sent body)\<lparr>ls_quota := replenish_after_success (ls_last_retry_cost (?sent body)) (ls_quota (?sent body))\<rparr>"])
        (simp_all add: st')
    have "turn_ok a st (attempt_step E a st) st' s"
      by (rule sent_turn_ok[OF sent[OF st'(4)] inv ok permit_inv_cong[OF permit_inv_sent[OF inv, of E a body] st'(2,3)] L])
        (simp add: st' sent_last_cost)
    with st'(2) show ?thesis by simp
  next
    case (redirect region body)
    have "ls_quota st' = ls_quota (?sent body)" "ls_pending_permit st' = None" "ls_last_retry_cost st' = ls_last_retry_cost (?sent body)"
      "ls_attempts_completed st' = saturating_add (ls_attempts_completed st) 1" "restored st (attempt_step E a st) = 0"
      using turn redirect(1) by (cases rule: follow_redirect_cases[of E region "?sent body"]; auto simp: restored_def)+
    from kept[OF this] this(2) show ?thesis by simp
  next
    case (failure e hint body)
    show ?thesis
    proof (cases rule: handle_failure_cases[of E a e hint "?sent body"])
      case (stop reason)
      with failure turn show ?thesis by (intro conjI kept[of body]) (auto simp: restored_def)
    next
      case (again dl q p)
      then have st': "ls_quota st' = q" "ls_pending_permit st' = Some p" "ls_last_retry_cost st' = ls_last_retry_cost (?sent body)"
        "ls_attempts_completed st' = saturating_add (ls_attempts_completed st) 1" using turn failure by auto
      have L: "ledger (?sent body) st' 0 0 (restored st (attempt_step E a st)) s" for s
        using ledger_acquire[OF again(2)] ok
        by (subst ledger_cong[where x = "?sent body" and x' = "(?sent body)\<lparr>ls_quota := q, ls_pending_permit := Some p\<rparr>"])
          (simp_all add: st' restored_def failure again(1))
      have "permit_inv st'" using permit_inv_sent[OF inv, of E a body] acquire_chargeable[OF again(2)] st'
        by (simp add: permit_inv_def)
      from sent_turn_ok[OF sent[OF st'(4)] inv ok this L] st' failure again(1) show ?thesis by (simp add: sent_last_cost)
    qed
  qed (use turn in auto)
qed

text \<open>
  Property C3. The request loop follows the quota protocol and its tokens balance exactly. Whatever other operations did to the shared
  counter, one turn is a run of the protocol that spends the permit held before exactly if an attempt was sent, and regains
  tokens exactly on success: those of the retry that succeeded, or one after a first attempt. The counter and the permit held after the turn are
  what the turn found, with the permit of an attempt that was not sent given back and the regained tokens added, up to the capacity of
  500; so nothing is lost, charged twice or restored after a failure. An operation that returns holds no permit any more.
\<close>

theorem turn_refines_quota:
  assumes "permit_inv st" and "unat (tokens (ae_others a (ls_quota st))) \<le> 500" and "ls_attempts_completed st < max_attempts (ex_policy E)"
    and "attempt_step E a st = Continue st' \<or> attempt_step E a st = Return r st'"
  shows "permit_inv st' \<and>
    quota_step\<^sup>*\<^sup>* (quota_view (st\<lparr>ls_quota := ae_others a (ls_quota st)\<rparr>) s)
      (quota_view st' (s\<lparr>spent := spent s + charged st st', regained := regained s + restored st (attempt_step E a st)\<rparr>)) \<and>
    unat (tokens (ls_quota st')) + held_tokens st' =
      min 500 (unat (tokens (ae_others a (ls_quota st))) + refunded st st' + restored st (attempt_step E a st)) \<and>
    ls_last_retry_cost st' = (if was_sent st st' then paid_for st else ls_last_retry_cost st) \<and>
    (attempt_step E a st = Return r st' \<longrightarrow> ls_pending_permit st' = None)"
proof -
  have "quota_ok (ae_others a (ls_quota st))" using assms(2) by (simp add: quota_ok_def word_le_nat_alt)
  from turn_quota[OF assms(1) this assms(3,4), of s] show ?thesis by (simp add: turn_ok_def ledger_def)
qed

lemma example_success:
  "\<exists>st'. attempt_step (example_exec rep) (example_attempt (Answered example_answer)) (example_start rep) =
     Return (Inr (StreamingResponse example_answer)) st'"
proof -
  obtain body where "send_attempt (example_exec rep) (example_attempt (Answered example_answer)) (example_start rep) =
    (Inr (Inr example_answer), sent_state (example_exec rep) (example_attempt (Answered example_answer)) (example_start rep) body)"
    using example_start_sent unfolding example_client_result(2)[symmetric] by blast
  moreover have "(example_start rep)\<lparr>ls_quota := ae_others (example_attempt (Answered example_answer)) (ls_quota (example_start rep))\<rparr> = example_start rep"
    by (simp add: example_attempt_def)
  moreover have "read_outcome (example_exec rep) a st (Inr example_answer) = Succeeded (StreamingResponse example_answer)" for a st
    by (simp add: read_outcome_def example_answer_def is_success_def success_outcome_def example_exec_def)
  ultimately show ?thesis by (simp add: attempt_step_def)
qed

theorem turn_refines_quota_witness:
  "\<exists>st'. attempt_step (example_exec True) (example_attempt (Answered example_answer)) (example_start True) =
       Return (Inr (StreamingResponse example_answer)) st' \<and> unat (tokens (ls_quota st')) = 500 \<and> ls_pending_permit st' = None"
proof -
  obtain st' where st': "attempt_step (example_exec True) (example_attempt (Answered example_answer)) (example_start True) =
     Return (Inr (StreamingResponse example_answer)) st'" using example_success by blast
  have i: "permit_inv (example_start True)" by (simp add: permit_inv_def example_start_def initial_state_def)
  have q: "tokens (ae_others (example_attempt (Answered example_answer)) (ls_quota (example_start True))) = 500"
    by (simp add: example_attempt_def example_start_def initial_state_def quota_new_def RETRY_QUOTA_CAPACITY_def)
  then have l: "unat (tokens (ae_others (example_attempt (Answered example_answer)) (ls_quota (example_start True)))) \<le> 500" by simp
  have m: "ls_attempts_completed (example_start True) < max_attempts (ex_policy (example_exec True))"
    by (simp add: example_start_def initial_state_def example_exec_def example_client_def standard_policy_def)
  from turn_refines_quota[OF i l m disjI2[OF st'], of quota_init] st' q show ?thesis
    by (auto simp: held_tokens_def)
qed

section \<open>What the observer sees\<close>

definition attempts_seen :: "request_event list \<Rightarrow> u32 list" where
  "attempts_seen tr = map ev_attempt (filter (\<lambda>e. ev_kind e = AttemptStarted) tr)"

definition seen :: "request_event_kind \<Rightarrow> request_event list \<Rightarrow> nat" where
  "seen k tr = length (filter (\<lambda>e. ev_kind e = k) tr)"

definition trace_inv :: "loop_state \<Rightarrow> bool" where
  "trace_inv st \<longleftrightarrow> attempts_seen (ls_trace st) = map of_nat [1..<Suc (unat (ls_attempts_completed st))] \<and>
     seen AttemptSucceeded (ls_trace st) = 0 \<and> seen AttemptFailed (ls_trace st) = 0 \<and>
     seen RegionRedirected (ls_trace st) = (if ls_region_redirected st then 1 else 0)"

lemma emit_trace:
  assumes "cfg_observer (ex_config E) \<noteq> None"
  shows "ls_trace (emit E k n c cls d st) = ls_trace st @ [\<lparr>ev_kind = k, ev_method = ex_method E, ev_attempt = n,
    ev_error_category = c, ev_retry_classification = cls, ev_retry_delay = d\<rparr>]"
  using assms by (auto simp: emit_def observe_def)

lemma seen_snoc:
  "seen k (tr @ [e]) = seen k tr + (if ev_kind e = k then 1 else 0)"
  "attempts_seen (tr @ [e]) = attempts_seen tr @ (if ev_kind e = AttemptStarted then [ev_attempt e] else [])"
  by (simp_all add: seen_def attempts_seen_def)

lemma trace_inv_sent:
  assumes o: "cfg_observer (ex_config E) \<noteq> None" and "trace_inv st" and "ls_attempts_completed st < m"
  shows "trace_inv (sent_state E a st body)"
proof -
  have n: "unat (saturating_add (ls_attempts_completed st) 1) = Suc (unat (ls_attempts_completed st))"
    using less_word_bound[OF assms(3)] by simp
  then have "saturating_add (ls_attempts_completed st) 1 = of_nat (Suc (unat (ls_attempts_completed st)))"
    unfolding n[symmetric] by simp
  moreover have "ls_trace (commit_pending x) = ls_trace x" for x by (simp add: commit_pending_def split: option.splits)
  ultimately show ?thesis
    using assms(2) n by (simp add: trace_inv_def sent_state_def emit_trace[OF o] seen_snoc commit_pending_def split: option.splits)
qed

lemma trace_inv_Continue:
  assumes o: "cfg_observer (ex_config E) \<noteq> None" and inv: "trace_inv st" "ls_attempts_completed st < max_attempts (ex_policy E)"
    and turn: "attempt_step E a st = Continue st'"
  shows "trace_inv st'"
proof (cases rule: attempt_step_cases[of E a st])
  case (redirect region body)
  with turn trace_inv_sent[OF o inv, of a body] show ?thesis
    by (cases rule: follow_redirect_cases[of E region "sent_state E a st body"])
      (auto simp: trace_inv_def emit_trace[OF o] seen_snoc)
next
  case (failure e hint body)
  with turn trace_inv_sent[OF o inv, of a body] show ?thesis
    by (cases rule: handle_failure_cases[of E a e hint "sent_state E a st body"])
      (auto simp: trace_inv_def emit_trace[OF o] seen_snoc)
qed (use turn in auto)

lemma trace_inv_Return:
  assumes o: "cfg_observer (ex_config E) \<noteq> None" and inv: "trace_inv st" "ls_attempts_completed st < max_attempts (ex_policy E)"
    and turn: "attempt_step E a st = Return r st'"
  shows "attempts_seen (ls_trace st') = map of_nat [1..<Suc (unat (ls_attempts_completed st'))] \<and>
     seen AttemptSucceeded (ls_trace st') = (if isl r then 0 else 1) \<and> seen RegionRedirected (ls_trace st') \<le> 1 \<and>
     seen AttemptFailed (ls_trace st') \<le> (if isl r then 1 else 0)"
proof (cases rule: attempt_step_cases[of E a st])
  case (early e body)
  with turn inv(1) show ?thesis by (auto simp: trace_inv_def)
next
  case (success x body)
  with turn trace_inv_sent[OF o inv, of a body] show ?thesis by (auto simp: trace_inv_def emit_trace[OF o] seen_snoc)
next
  case (redirect region body)
  with turn trace_inv_sent[OF o inv, of a body] show ?thesis
    by (cases rule: follow_redirect_cases[of E region "sent_state E a st body"]) (auto simp: trace_inv_def)
next
  case (failure e hint body)
  with turn trace_inv_sent[OF o inv, of a body] show ?thesis
    by (cases rule: handle_failure_cases[of E a e hint "sent_state E a st body"])
      (auto simp: trace_inv_def emit_trace[OF o] seen_snoc)
qed (use turn in auto)

lemma exec_reach_trace:
  assumes "exec_reach E st0 st" and "cfg_observer (ex_config E) \<noteq> None" and "trace_inv st0"
    and "ls_attempts_completed st0 < max_attempts (ex_policy E)"
  shows "trace_inv st \<and> ls_attempts_completed st < max_attempts (ex_policy E)"
  using assms
proof (induction rule: exec_reach.induct)
  case (step st st')
  then show ?case using exec_reach_attempts[OF exec_reach.step[OF step.hyps]]
    by (auto elim!: exec_stepE intro: trace_inv_Continue)
qed simp

lemma initial_state_inv:
  "trace_inv (initial_state E target body quota)"
  "valid_policy (ex_policy E) \<Longrightarrow> ls_attempts_completed (initial_state E target body quota) < max_attempts (ex_policy E)"
  by (simp_all add: trace_inv_def initial_state_def seen_def attempts_seen_def valid_policy_def word_gt_0)

text \<open>
  Property C20. What the observer is told is what happened: over a whole operation it sees the attempts numbered
  1, 2, ... up to the number of attempts sent, exactly one success event if the operation succeeds and none if it fails,
  at most one failure event and that only if it fails, and at most one region redirect.
\<close>

theorem observer_sees_the_operation:
  assumes "cfg_observer (ex_config E) \<noteq> None" and "valid_policy (ex_policy E)"
    and "send_loop E as (initial_state E target body quota) = Some (r, st)"
  shows "attempts_seen (ls_trace st) = map of_nat [1..<Suc (unat (ls_attempts_completed st))] \<and>
     seen AttemptSucceeded (ls_trace st) = (if isl r then 0 else 1) \<and> seen RegionRedirected (ls_trace st) \<le> 1 \<and>
     seen AttemptFailed (ls_trace st) \<le> (if isl r then 1 else 0)"
proof -
  from send_loop_reach[OF assms(3) exec_reach.start] obtain a st1 where
    r: "exec_reach E (initial_state E target body quota) st1" "attempt_step E a st1 = Return r st" by blast
  from exec_reach_trace[OF r(1) assms(1) initial_state_inv(1) initial_state_inv(2)[OF assms(2)]]
  show ?thesis using trace_inv_Return[OF assms(1) _ _ r(2)] by blast
qed

lemma example_exec_policy: "valid_policy (ex_policy (example_exec rep))"
  by (simp add: example_exec_def example_client_def valid_standard_policy)

theorem observer_sees_the_operation_witness:
  "\<exists>st. send_loop (example_exec True) [example_attempt (Answered example_answer)] (initial_state (example_exec True) example_target None quota_new) =
       Some (Inr (StreamingResponse example_answer), st) \<and>
     seen AttemptSucceeded (ls_trace st) = 1 \<and> seen AttemptFailed (ls_trace st) = 0"
proof -
  obtain st where st: "send_loop (example_exec True) [example_attempt (Answered example_answer)]
      (initial_state (example_exec True) example_target None quota_new) = Some (Inr (StreamingResponse example_answer), st)"
    using example_success[of True] by (auto simp: example_start_def)
  have o: "cfg_observer (ex_config (example_exec True)) \<noteq> None" by (simp add: example_exec_def example_client_def)
  from observer_sees_the_operation[OF o example_exec_policy st] st show ?thesis by auto
qed

section \<open>Bodies that cannot be replayed\<close>

text \<open>
  Property C19. A body that cannot be replayed is sent at most once: when the request is not replayable the loop
  returns after a single turn with at most one attempt sent, and a failure of that attempt is reported with the stop
  reason \<open>NonReplayable\<close> and leaves the retry quota as it was.
\<close>

theorem non_replayable_sent_once:
  assumes "\<not> ex_replayable E" and "send_loop E as (initial_state E target body quota) = Some (r, st)"
  shows "\<exists>a. as \<noteq> [] \<and> a = as ! 0 \<and> attempt_step E a (initial_state E target body quota) = Return r st \<and>
    ls_attempts_completed st \<le> 1 \<and>
    (\<forall>e. r = Inl e \<longrightarrow> ls_quota st = ae_others a quota \<and>
       (ls_attempts_completed st = 1 \<longrightarrow> retry_stop_reason (details e) = Some NonReplayable \<and> attempts (details e) = 1))"
proof -
  let ?st0 = "initial_state E target body quota"
  from assms(2) obtain a rest where a: "as = a # rest" by (cases as) auto
  have ret: "attempt_step E a ?st0 = Return r st"
    using assms attempt_step_Continue(3)[of E a ?st0] a by (cases "attempt_step E a ?st0") auto
  have n: "saturating_add (ls_attempts_completed ?st0) 1 = 1"
    by (simp add: initial_state_def saturating_add_def)
  have "ls_attempts_completed st \<le> 1 \<and> (\<forall>e. r = Inl e \<longrightarrow> ls_quota st = ae_others a quota \<and>
       (ls_attempts_completed st = 1 \<longrightarrow> retry_stop_reason (details e) = Some NonReplayable \<and> attempts (details e) = 1))"
  proof (cases rule: attempt_step_cases[of E a ?st0])
    case (early e b)
    with ret show ?thesis by (auto simp: initial_state_def drop_pending_def)
  next
    case (success x b)
    with ret n show ?thesis by auto
  next
    case (failure e hint b)
    show ?thesis
    proof (cases rule: handle_failure_cases[of E a e hint "sent_state E a ?st0 b"])
      case (stop reason)
      moreover have "reason = NonReplayable" using stop(2) assms(1) by (simp add: retry_decision_def Let_def)
      ultimately show ?thesis using ret failure n by (auto simp: initial_state_def)
    next
      case (again dl q p)
      with retry_decision_Inr[OF again(3)] assms(1) show ?thesis by blast
    qed
  qed (use ret assms(1) in auto)
  with a ret show ?thesis by simp
qed

lemma example_failed:
  "read_outcome E a st (Inl e) = Failed e None"
  by (simp add: read_outcome_def)

lemma example_failure:
  "\<exists>body. attempt_step (example_exec rep) (example_attempt (ClientFailed example_client_error)) (example_start rep) =
     handle_failure (example_exec rep) (example_attempt (ClientFailed example_client_error)) example_error None
       (sent_state (example_exec rep) (example_attempt (ClientFailed example_client_error)) (example_start rep) body)"
proof -
  obtain body where "send_attempt (example_exec rep) (example_attempt (ClientFailed example_client_error)) (example_start rep) =
    (Inr (Inl example_error), sent_state (example_exec rep) (example_attempt (ClientFailed example_client_error)) (example_start rep) body)"
    using example_start_sent unfolding example_client_result(1)[symmetric] by blast
  moreover have "(example_start rep)\<lparr>ls_quota := ae_others (example_attempt (ClientFailed example_client_error)) (ls_quota (example_start rep))\<rparr> = example_start rep"
    by (simp add: example_attempt_def)
  ultimately show ?thesis by (auto simp: attempt_step_def example_failed)
qed

theorem non_replayable_sent_once_witness:
  "\<exists>e st. send_loop (example_exec False) [example_attempt (ClientFailed example_client_error)] (initial_state (example_exec False) example_target None quota_new) =
       Some (Inl e, st) \<and> retry_stop_reason (details e) = Some NonReplayable \<and> ls_quota st = quota_new"
proof -
  let ?E = "example_exec False" and ?a = "example_attempt (ClientFailed example_client_error)" and ?s = "example_start False"
  have rep: "\<not> ex_replayable ?E" by (simp add: example_exec_def)
  obtain body where "attempt_step ?E ?a ?s = handle_failure ?E ?a example_error None (sent_state ?E ?a ?s body)"
    using example_failure by blast
  moreover have "retry_decision ?E ?a (sent_state ?E ?a ?s body) c None = Inl NonReplayable" for c
    using rep by (simp add: retry_decision_def)
  ultimately obtain e st where st: "attempt_step ?E ?a ?s = Return (Inl e) st"
    "ls_attempts_completed st = saturating_add (ls_attempts_completed ?s) 1"
    by (auto simp: handle_failure_def Let_def)
  then have r: "send_loop ?E [?a] (initial_state ?E example_target None quota_new) = Some (Inl e, st)"
    by (simp add: example_start_def)
  have "ls_attempts_completed st = 1" using st(2) by (simp add: example_start_def initial_state_def saturating_add_def)
  with non_replayable_sent_once[OF rep r] r show ?thesis by (auto simp: example_attempt_def)
qed

section \<open>Termination\<close>

text \<open>
  Property C2. The request loop terminates within the attempt limit: with a valid policy, once every response body
  that has to be read arrives, at most \<open>max_attempts\<close> turns are needed to return a result, and no more than
  \<open>max_attempts\<close> attempts were sent.
\<close>

theorem send_loop_terminates:
  assumes "valid_policy (ex_policy E)" and "\<And>a s. a \<in> set as \<Longrightarrow> attempt_step E a s \<noteq> StillWaiting"
    and "unat (max_attempts (ex_policy E)) \<le> length as"
  shows "\<exists>r st. send_loop E as (initial_state E target body quota) = Some (r, st) \<and>
    ls_attempts_completed st \<le> max_attempts (ex_policy E)"
proof -
  let ?st0 = "initial_state E target body quota"
  have p: "ls_attempts_completed ?st0 < max_attempts (ex_policy E)"
    using assms(1) by (simp add: initial_state_def valid_policy_def word_gt_0)
  have "unat (ls_attempts_completed ?st0) = 0" by (simp add: initial_state_def)
  then obtain r st where r: "send_loop E as ?st0 = Some (r, st)"
    using send_loop_returns[of as E ?st0] assms(2,3) p by (metis add_0)
  from send_loop_reach[OF r exec_reach.start] obtain a st1 where
    "exec_reach E ?st0 st1" and ret: "attempt_step E a st1 = Return r st" by blast
  then have lt: "ls_attempts_completed st1 < max_attempts (ex_policy E)" using exec_reach_attempts p by blast
  have "ls_attempts_completed st \<le> max_attempts (ex_policy E)"
    using attempt_step_Return_attempts[OF ret] lt less_word_bound[OF lt] by (auto simp: word_le_nat_alt word_less_nat_alt)
  with r show ?thesis by blast
qed

lemma answered_not_waiting:
  assumes "\<And>rq t. \<exists>e. ae_send a rq t = ClientFailed e"
  shows "attempt_step E a st \<noteq> StillWaiting"
proof -
  obtain r st' where s: "send_attempt E a (st\<lparr>ls_quota := ae_others a (ls_quota st)\<rparr>) = (r, st')" by fastforce
  from s show ?thesis
  proof (cases rule: send_attempt_cases)
    case (early e body)
    with s show ?thesis by (simp add: attempt_step_def)
  next
    case (sent result body rq)
    obtain e where "ae_send a (rq\<lparr>sr_headers := (if hm_contains (sr_headers rq) ''user-agent'' then sr_headers rq
        else hm_insert ''user-agent'' (tr_user_agent (cl_transport (ex_client E))) (sr_headers rq))\<rparr>)
        (min (cfg_attempt_timeout (ex_config E)) (ex_deadline E - ae_now_sent a)) = ClientFailed e" using assms by blast
    with sent(5) have "\<exists>e. result = Inl e" by (simp add: transport_send_def client_result_def Let_def)
    then obtain e where "result = Inl e" by blast
    with s sent(1) show ?thesis
      by (auto simp: attempt_step_def example_failed handle_failure_def Let_def split: sum.splits)
  qed
qed

theorem send_loop_terminates_witness:
  "\<exists>r st. send_loop (example_exec True) (replicate 4 (example_attempt (ClientFailed example_client_error)))
       (initial_state (example_exec True) example_target None quota_new) = Some (r, st) \<and> ls_attempts_completed st \<le> 4"
proof -
  have m: "max_attempts (ex_policy (example_exec True)) = 4"
    by (simp add: example_exec_def example_client_def standard_policy_def)
  have "attempt_step (example_exec True) a s \<noteq> StillWaiting" if "a \<in> set (replicate 4 (example_attempt (ClientFailed example_client_error)))" for a s
    using that by (intro answered_not_waiting) (simp add: example_attempt_def)
  then show ?thesis
    using send_loop_terminates[OF example_exec_policy, of "replicate 4 (example_attempt (ClientFailed example_client_error))" True example_target None quota_new]
    by (simp add: m)
qed

section \<open>Region redirects\<close>

text \<open>\<open>http::uri::Authority\<close> keeps the text it was parsed from.\<close>

definition authority_documented :: "uri_ext \<Rightarrow> bool" where
  "authority_documented U \<longleftrightarrow> (\<forall>s p. ux_authority U s = Some p \<longrightarrow> auth_str p = s)"

definition redirect_inv :: "('d, 'p, 'o) exec \<Rightarrow> endpoint_url \<Rightarrow> loop_state \<Rightarrow> bool" where
  "redirect_inv E target st \<longleftrightarrow>
     (if ls_region_redirected st
      then (\<exists>service. redirected_aws_authority (ep_url (cfg_endpoint (ex_config E))) (ls_signing_region st) = Some service \<and>
         list_all region_char (ls_signing_region st) \<and>
         eu_authority (ls_target st) = (case cfg_addressing_style (ex_config E) of Path \<Rightarrow> service
           | VirtualHosted \<Rightarrow> cfg_bucket (ex_config E) @ ''.'' @ service)) \<and>
         eu_scheme (ls_target st) = eu_scheme target \<and> eu_path_and_query (ls_target st) = eu_path_and_query target
      else ls_target st = target \<and> ls_signing_region st = cfg_region (ex_config E))"

lemma redirect_inv_emit [simp]: "redirect_inv E target (emit E' k n c cls d st) = redirect_inv E target st"
  by (simp add: redirect_inv_def emit_def)

lemma redirect_inv_sent: "redirect_inv E target (sent_state E a st body) = redirect_inv E target st"
  by (simp add: redirect_inv_def sent_state_def commit_pending_def emit_def split: option.splits)

lemma with_authority_Inr:
  assumes "authority_documented U" and "with_authority U authority u = Inr u'"
  shows "eu_authority u' = authority \<and> eu_scheme u' = eu_scheme u \<and> eu_path_and_query u' = eu_path_and_query u"
  using assms by (auto simp: with_authority_def authority_documented_def from_parts_def Let_def split: option.splits if_splits)

lemma controlled_region_redirect_chars:
  "controlled_region_redirect H st headers = Some region \<Longrightarrow> list_all region_char region"
  by (auto simp: controlled_region_redirect_def valid_redirect_region_def split: if_splits option.splits)

lemma follow_redirect_inv:
  assumes "authority_documented (ex_uri_ext E)" and "follow_redirect E region st = Continue st'"
    and "\<not> ls_region_redirected st" and "redirect_inv E target st" and "list_all region_char region"
    and "redirected_aws_authority (ep_url (cfg_endpoint (ex_config E))) region = Some service"
  shows "redirect_inv E target st'"
proof -
  let ?authority = "case cfg_addressing_style (ex_config E) of Path \<Rightarrow> service | VirtualHosted \<Rightarrow> cfg_bucket (ex_config E) @ ''.'' @ service"
  from assms(2,6) obtain t where t: "with_authority (ex_uri_ext E) ?authority (ls_target st) = Inr t"
    and st': "st' = emit E RegionRedirected (ls_attempts_completed st) None (Some Retryable) (Some 0)
            (st\<lparr>ls_target := t, ls_signing_region := region, ls_region_redirected := True\<rparr>)"
    by (auto simp: follow_redirect_def Let_def split: sum.splits)
  from with_authority_Inr[OF assms(1) t] assms(3-6) show ?thesis by (simp add: st' redirect_inv_def emit_def)
qed

lemma redirect_inv_step:
  assumes "authority_documented (ex_uri_ext E)" and "redirect_inv E target st" and "attempt_step E a st = Continue st'"
  shows "redirect_inv E target st'"
proof (cases rule: attempt_step_cases[of E a st])
  case (redirect region body)
  then obtain service where s: "redirected_aws_authority (ep_url (cfg_endpoint (ex_config E))) region = Some service" by blast
  have "list_all region_char region" using redirect(5) controlled_region_redirect_chars by blast
  from follow_redirect_inv[OF assms(1) _ _ _ this s, of "sent_state E a st body" st' target] redirect assms(2,3)
  show ?thesis by (simp add: redirect_inv_sent)
next
  case (failure e hint body)
  show ?thesis
  proof (cases rule: handle_failure_cases[of E a e hint "sent_state E a st body"])
    case (again dl q p)
    have "redirect_inv E target (x\<lparr>ls_quota := q, ls_pending_permit := Some p\<rparr>) = redirect_inv E target x" for x
      by (simp add: redirect_inv_def)
    with again(1) failure assms(2,3) show ?thesis by (auto simp: redirect_inv_sent)
  qed (use failure assms(3) in auto)
qed (use assms(3) in auto)

text \<open>
  Property C18. Every attempt of an operation goes either to the operation's own target signed for the configured
  region, or, after at most one redirect, to the same scheme, path and query on the AWS host that names exactly the
  region the request is signed for, with the bucket in front of it under virtual-hosted addressing. The host is one
  of the S3 prefixes, that region as a single label, and the DNS suffix the endpoint was configured with.
\<close>

theorem redirected_target_names_signing_region:
  assumes "authority_documented (ex_uri_ext E)" and "exec_reach E (initial_state E target body quota) st"
  shows "eu_scheme (ls_target st) = eu_scheme target \<and> eu_path_and_query (ls_target st) = eu_path_and_query target \<and>
    (if ls_region_redirected st
     then eu_scheme (ep_url (cfg_endpoint (ex_config E))) = ''https'' \<and> list_all region_char (ls_signing_region st) \<and>
       (\<exists>p \<in> set aws_prefixes. \<exists>dns \<in> {''amazonaws.com'', ''amazonaws.com.cn''}.
          eu_authority (ls_target st) = (case cfg_addressing_style (ex_config E) of Path \<Rightarrow> []
            | VirtualHosted \<Rightarrow> cfg_bucket (ex_config E) @ ''.'') @ p @ ''.'' @ ls_signing_region st @ ''.'' @ dns)
     else ls_target st = target \<and> ls_signing_region st = cfg_region (ex_config E))"
proof -
  have "redirect_inv E target st" using assms(2)
  proof (induction rule: exec_reach.induct)
    case start
    show ?case by (simp add: redirect_inv_def initial_state_def)
  next
    case (step st st')
    then show ?case by (auto elim!: exec_stepE intro: redirect_inv_step[OF assms(1)])
  qed
  then show ?thesis
    using redirected_aws_authority_SomeD[of "ep_url (cfg_endpoint (ex_config E))" "ls_signing_region st"]
    by (auto simp: redirect_inv_def split: if_splits addressing_style.splits)
qed

definition redirect_target :: endpoint_url where
  "redirect_target = \<lparr>eu_serialized = ''https://s3.us-east-1.amazonaws.com/b/k'', eu_scheme = ''https'',
     eu_authority = ''s3.us-east-1.amazonaws.com'', eu_path_and_query = ''/b/k''\<rparr>"

definition redirect_exec :: "(string, unit, unit) exec" where
  "redirect_exec = (example_exec True)\<lparr>ex_client := example_client\<lparr>cl_config := (cl_config example_client)
     \<lparr>cfg_endpoint := \<lparr>ep_url = example_aws_url, ep_base_path = ''/''\<rparr>\<rparr>\<rparr>\<rparr>"

definition redirect_response :: http_response where
  "redirect_response = \<lparr>resp_status = 301, resp_entries = [(''x-amz-bucket-region'', ''eu-west-1'')],
     resp_size_upper = Some 0, resp_now = 0, resp_turns = [], resp_stream = []\<rparr>"

definition redirect_start :: loop_state where
  "redirect_start = initial_state redirect_exec redirect_target None quota_new"

lemma redirect_exec_sel:
  "ex_deadline redirect_exec = 10" "ex_request_ext redirect_exec = example_request_ext" "ex_uri_ext redirect_exec = example_uri_ext"
  "ex_http_ext redirect_exec = ascii_http_ext" "ex_replayable redirect_exec" "ex_policy redirect_exec = standard_policy"
  "cfg_addressing_style (ex_config redirect_exec) = Path" "ep_url (cfg_endpoint (ex_config redirect_exec)) = example_aws_url"
  by (simp_all add: redirect_exec_def example_exec_def example_client_def)

lemma redirect_signed:
  "\<not> isl (fst (signed_request example_request_ext (attempt_input redirect_exec redirect_start) (Inr example_creds) 0 0 None))"
proof -
  have "attempt_input redirect_exec redirect_start = example_input\<lparr>ri_target := redirect_target\<rparr>"
    by (simp add: attempt_input_def redirect_exec_def redirect_start_def initial_state_def example_exec_def example_client_def example_input_def)
  moreover have "\<not> isl (fst (signed_request example_request_ext (example_input\<lparr>ri_target := redirect_target\<rparr>) (Inr example_creds) 0 0 None))"
    by code_simp
  ultimately show ?thesis by (simp only: not_False_eq_True)
qed

lemma redirect_sent:
  "\<exists>body. send_attempt redirect_exec (example_attempt (Answered redirect_response)) redirect_start =
    (Inr (Inr redirect_response), sent_state redirect_exec (example_attempt (Answered redirect_response)) redirect_start body)"
proof -
  obtain rq body' where r: "signed_request example_request_ext (attempt_input redirect_exec redirect_start) (Inr example_creds) 0 0 None = (Inr rq, body')"
    using not_isl_Inr[OF redirect_signed] by (metis prod.collapse)
  have t: "ls_target (commit_pending x) = ls_target x" for x by (simp add: commit_pending_def split: option.splits)
  have n: "\<not> transport_refuses (ex_client redirect_exec) redirect_target" by (simp add: transport_refuses_def redirect_target_def)
  have b: "ls_body redirect_start = None" "ls_target redirect_start = redirect_target"
    by (simp_all add: redirect_start_def initial_state_def)
  have "send_attempt redirect_exec (example_attempt (Answered redirect_response)) redirect_start =
    (Inr (Inr redirect_response), sent_state redirect_exec (example_attempt (Answered redirect_response)) redirect_start body')"
    unfolding send_attempt_def redirect_exec_sel
    using r n b by (simp add: example_attempt_def deadline_remaining_def sent_state_def transport_send_def t Let_def redirect_target_def client_result_def)
  then show ?thesis by blast
qed

lemma redirect_outcome:
  assumes "\<not> ls_region_redirected st" and "ls_attempts_completed st = 1"
  shows "read_outcome redirect_exec (example_attempt x) st (Inr redirect_response) = Redirected ''eu-west-1''"
proof -
  have c: "controlled_region_redirect ascii_http_ext 301
      [''x-amz-bucket-region'' \<mapsto> ''eu-west-1''] = Some ''eu-west-1''" by code_simp
  have r: "redirected_aws_authority example_aws_url ''eu-west-1'' = Some ''s3.eu-west-1.amazonaws.com''" by code_simp
  show ?thesis using assms c r
    by (simp add: read_outcome_def redirect_response_def is_success_def redirect_exec_sel example_attempt_def standard_policy_def from_secs_def)
qed

lemma redirect_followed:
  "\<exists>t. with_authority example_uri_ext ''s3.eu-west-1.amazonaws.com'' redirect_target = Inr t"
proof -
  have "\<not> isl (with_authority example_uri_ext ''s3.eu-west-1.amazonaws.com'' redirect_target)" by code_simp
  then show ?thesis by (metis sum.collapse(2))
qed

theorem redirected_target_names_signing_region_witness:
  "authority_documented example_uri_ext \<and>
   (\<exists>st. exec_reach redirect_exec (initial_state redirect_exec redirect_target None quota_new) st \<and> ls_region_redirected st \<and>
      ls_signing_region st = ''eu-west-1'' \<and> eu_path_and_query (ls_target st) = ''/b/k'')"
proof -
  let ?a = "example_attempt (Answered redirect_response)"
  obtain body where s: "send_attempt redirect_exec ?a redirect_start = (Inr (Inr redirect_response), sent_state redirect_exec ?a redirect_start body)"
    using redirect_sent by blast
  let ?s = "sent_state redirect_exec ?a redirect_start body"
  have o: "read_outcome redirect_exec ?a ?s (Inr redirect_response) = Redirected ''eu-west-1''"
    by (rule redirect_outcome) (simp_all add: redirect_start_def initial_state_def saturating_add_def)
  have tg: "ls_target ?s = redirect_target"
    by (simp add: sent_state_def commit_pending_def redirect_start_def initial_state_def)
  have r: "redirected_aws_authority example_aws_url ''eu-west-1'' = Some ''s3.eu-west-1.amazonaws.com''" by code_simp
  have "redirect_start\<lparr>ls_quota := ae_others ?a (ls_quota redirect_start)\<rparr> = redirect_start" by (simp add: example_attempt_def)
  then have "attempt_step redirect_exec ?a redirect_start = follow_redirect redirect_exec ''eu-west-1'' ?s"
    using s o by (simp add: attempt_step_def)
  moreover obtain t where "with_authority example_uri_ext ''s3.eu-west-1.amazonaws.com'' redirect_target = Inr t"
    using redirect_followed by blast
  ultimately obtain st where st: "attempt_step redirect_exec ?a redirect_start = Continue st" "ls_region_redirected st"
    "ls_signing_region st = ''eu-west-1''" using tg r by (simp add: follow_redirect_def redirect_exec_sel emit_def)
  have reach: "exec_reach redirect_exec (initial_state redirect_exec redirect_target None quota_new) st"
    using exec_reach.step[OF exec_reach.start exec_step.turn] st(1) unfolding redirect_start_def by blast
  have d: "authority_documented (ex_uri_ext redirect_exec)"
    by (auto simp: redirect_exec_sel authority_documented_def example_uri_ext_def split: if_splits option.splits prod.splits)
  from redirected_target_names_signing_region[OF d reach] st reach d show ?thesis
    by (auto simp: redirect_target_def redirect_exec_sel)
qed

end
