(* ===== verification/Multipart_Upload.thy ===== *)
theory Multipart_Upload
  imports Multipart_Types Checksums Upload_Stream
begin

text \<open>
  The managed multipart upload, \<open>src/client/multipart_upload.rs\<close>: the prepared source and its division into parts, the
  upload of one part, the scheduler that keeps a bounded number of parts in flight, quiescing, and the run of a whole
  upload with its abort on failure. What happens outside is given as events: the scheduler's \<open>select!\<close> sees a
  cancellation, the deadline or the result of one of the parts in flight, in any order; the requests of a part, the
  creation, the completion and the abort are answered by functions, which stand for the client's operations. A run
  also returns the calls it made to create, complete or abort an upload.
\<close>

section \<open>The prepared source\<close>

datatype prepared_multipart_source = MultipartBytes string | MultipartFile file_snapshot

definition prepare_multipart ::
  "'d checksum_ext \<Rightarrow> file_reader \<Rightarrow> multipart_source \<Rightarrow> s3_error + prepared_multipart_source" where
  "prepare_multipart X read_file src = (case src of
     SourceBytes bytes \<Rightarrow> Inr (MultipartBytes bytes)
   | SourceFile path \<Rightarrow> and_then (snapshot_create X read_file path False) (\<lambda>snap. Inr (MultipartFile snap)))"

definition source_length :: "prepared_multipart_source \<Rightarrow> s3_error + nat" where
  "source_length src = (case src of
     MultipartBytes bytes \<Rightarrow>
       if length bytes < 2 ^ 64 then Inr (length bytes)
       else Inl (configuration ''multipart byte length does not fit in u64'')
   | MultipartFile snap \<Rightarrow> Inr (fs_length snap))"

definition part_count :: "prepared_multipart_source \<Rightarrow> nat \<Rightarrow> s3_error + u16" where
  "part_count src psize =
     and_then (source_length src) (\<lambda>len.
     reject_if (len = 0) (configuration ''managed multipart uploads require a non-empty source'')
     (let count = div_ceil len psize in
      reject_if (unat PART_MAX < count) (configuration ''multipart source exceeds the configured 10,000-part limit'')
      (if count < 2 ^ 16 then Inr (of_nat count)
       else Inl (configuration ''multipart part count does not fit in u16''))))"

text \<open>
  Sizes and offsets below \<open>2 ^ 64\<close> fit in \<open>usize\<close> on the supported targets, so those conversions have no branch.
  Reading a range of a snapshot file is a parameter.
\<close>

definition read_part ::
  "(string \<Rightarrow> nat \<Rightarrow> nat \<Rightarrow> string + string) \<Rightarrow> prepared_multipart_source \<Rightarrow> nat \<Rightarrow> u16 \<Rightarrow> s3_error + string" where
  "read_part read_exact src psize n =
     and_then (ok_or (integrity ''multipart part offset overflow'') (checked_mul_u64 (unat (n - 1)) psize)) (\<lambda>offset.
     and_then (source_length src) (\<lambda>total.
     and_then (ok_or (integrity ''multipart part offset exceeds source length'') (checked_sub_nat total offset)) (\<lambda>remaining.
     let len = min remaining psize in
     case src of
       MultipartBytes bytes \<Rightarrow> Inr (take len (drop offset bytes))
     | MultipartFile snap \<Rightarrow> read_range read_exact snap offset len)))"

section \<open>One part\<close>

record part_context =
  pc_key :: object_key
  pc_upload_id :: upload_id
  pc_source :: prepared_multipart_source
  pc_part_size :: nat
  pc_checksum_algorithm :: "checksum_algorithm option"
  pc_headers :: header_map

definition transfer_timeout :: s3_error where
  "transfer_timeout = timeout PhaseOperation ''managed multipart upload exceeded its transfer deadline''"

definition cancelled :: s3_error where
  "cancelled = cancellation ''multipart upload was cancelled''"

definition checksum_error_display :: "checksum_calculation_error \<Rightarrow> string" where
  "checksum_error_display e = ''local calculation for '' @
     (case failed_algorithm e of Crc32 \<Rightarrow> ''Crc32'' | Crc32c \<Rightarrow> ''Crc32c'' | Crc64Nvme \<Rightarrow> ''Crc64Nvme''
      | Sha1 \<Rightarrow> ''Sha1'' | Sha256 \<Rightarrow> ''Sha256'') @ '' is not implemented''"

text \<open>The request for one part, up to sending it; \<open>elapsed\<close> says that the deadline cut the checksum off.\<close>

definition part_request ::
  "'d checksum_ext \<Rightarrow> (string \<Rightarrow> nat \<Rightarrow> nat \<Rightarrow> string + string) \<Rightarrow> part_context \<Rightarrow> u16 \<Rightarrow> bool
     \<Rightarrow> s3_error + upload_source upload_part_request" where
  "part_request X read_exact ctx n elapsed =
     and_then (read_part read_exact (pc_source ctx) (pc_part_size ctx) n) (\<lambda>body.
     and_then (ok_or (integrity ''generated multipart part number is invalid'') (part_number_new n)) (\<lambda>num.
     and_then (case pc_checksum_algorithm ctx of
         Some algorithm \<Rightarrow>
           if elapsed then Inl transfer_timeout
           else map_err (\<lambda>e. unsupported (checksum_error_display e)) (calculate_cooperatively X algorithm body)
       | None \<Rightarrow> Inr no_checksum) (\<lambda>sum.
     Inr ((up_with_checksum sum (upload_part_request_new (pc_key ctx) (pc_upload_id ctx) num (UploadBytes body)))
            \<lparr>up_headers := pc_headers ctx\<rparr>))))"

type_synonym part_sender = "upload_source upload_part_request \<Rightarrow> s3_error + upload_part_output"

definition upload_one_part ::
  "'d checksum_ext \<Rightarrow> (string \<Rightarrow> nat \<Rightarrow> nat \<Rightarrow> string + string) \<Rightarrow> part_context \<Rightarrow> u16 \<Rightarrow> bool \<Rightarrow> part_sender
     \<Rightarrow> s3_error + completed_part" where
  "upload_one_part X read_exact ctx n elapsed send =
     and_then (part_request X read_exact ctx n elapsed) (\<lambda>rq.
     and_then (send rq) (\<lambda>out.
     map_err (\<lambda>e. invalid_response (multipart_error_display e))
       (and_then (completed_part_new (part_get (upo_part_number out)) (upo_e_tag out)) (\<lambda>part.
        Inr (cp_with_checksum (upo_checksum out) part)))))"

section \<open>The scheduler\<close>

text \<open>
  What one \<open>select!\<close> of the scheduler may see: a cancellation, the deadline, or the part at one position of those in
  flight with whether its checksum was cut off and who answers its request.
\<close>

datatype sched_event = CancelSeen | DeadlineSeen | PartDone nat bool part_sender

record sched =
  sc_next :: u16
  sc_pending :: "u16 list"
  sc_upload :: multipart_upload

function fill_pending :: "nat \<Rightarrow> u16 \<Rightarrow> sched \<Rightarrow> sched" where
  "fill_pending concurrency n s =
     (if length (sc_pending s) < concurrency \<and> sc_next s \<le> n
      then fill_pending concurrency n (s\<lparr>sc_pending := sc_pending s @ [sc_next s], sc_next := sc_next s + 1\<rparr>)
      else s)"
  by pat_completeness auto

termination
  by (relation "measure (\<lambda>(c, n, s). c - length (sc_pending s))") auto

declare fill_pending.simps [simp del]

definition sched_start :: "part_context \<Rightarrow> sched" where
  "sched_start ctx = \<lparr>sc_next = 1, sc_pending = [], sc_upload = multipart_upload_new (pc_key ctx) (pc_upload_id ctx)\<rparr>"

text \<open>
  One \<open>select!\<close> and what follows it, with at least one part in flight; positions count modulo their number. \<open>Inl\<close> is
  the primary failure with the parts still in flight.
\<close>

definition sched_event_step ::
  "'d checksum_ext \<Rightarrow> (string \<Rightarrow> nat \<Rightarrow> nat \<Rightarrow> string + string) \<Rightarrow> part_context \<Rightarrow> sched \<Rightarrow> sched_event
     \<Rightarrow> (s3_error \<times> u16 list) + sched" where
  "sched_event_step X read_exact ctx s ev = (case ev of
     CancelSeen \<Rightarrow> Inl (cancelled, sc_pending s)
   | DeadlineSeen \<Rightarrow> Inl (transfer_timeout, sc_pending s)
   | PartDone i elapsed send \<Rightarrow>
       (let i = i mod length (sc_pending s); rest = take i (sc_pending s) @ drop (Suc i) (sc_pending s) in
        case upload_one_part X read_exact ctx (sc_pending s ! i) elapsed send of
          Inl e \<Rightarrow> Inl (e, rest)
        | Inr part \<Rightarrow>
          (case record_part part (sc_upload s) of
             Inl e \<Rightarrow> Inl (integrity (multipart_error_display e), rest)
           | Inr upload \<Rightarrow> Inr (s\<lparr>sc_pending := rest, sc_upload := upload\<rparr>))))"

fun upload_parts_loop ::
  "'d checksum_ext \<Rightarrow> (string \<Rightarrow> nat \<Rightarrow> nat \<Rightarrow> string + string) \<Rightarrow> part_context \<Rightarrow> u16 \<Rightarrow> nat \<Rightarrow> sched_event list \<Rightarrow> sched
     \<Rightarrow> ((s3_error \<times> u16 list) + multipart_upload) option" where
  "upload_parts_loop X read_exact ctx n concurrency evs s0 =
     (let s = fill_pending concurrency n s0 in
      if sc_pending s = [] then Some (Inr (sc_upload s))
      else (case evs of
         [] \<Rightarrow> None
       | ev # evs \<Rightarrow>
           (case sched_event_step X read_exact ctx s ev of
              Inl failure \<Rightarrow> Some (Inl failure)
            | Inr s' \<Rightarrow> upload_parts_loop X read_exact ctx n concurrency evs s')))"

declare upload_parts_loop.simps [simp del]

section \<open>Failure and clean-up\<close>

record managed_upload_failure =
  muf_primary :: s3_error
  muf_cleanup_deadline :: nat
  muf_quiesce_failure :: "s3_error option"

definition managed_upload_failure_new :: "s3_error \<Rightarrow> nat \<Rightarrow> duration \<Rightarrow> managed_upload_failure" where
  "managed_upload_failure_new primary now cleanup_timeout =
     \<lparr>muf_primary = primary, muf_cleanup_deadline = now + cleanup_timeout, muf_quiesce_failure = None\<rparr>"

text \<open>While quiescing, one wait ends with a part that settled or with the timeout of half the clean-up time.\<close>

datatype settle_event = Settled | SettleElapsed

definition quiesce_timeout :: s3_error where
  "quiesce_timeout = timeout PhaseOperation ''multipart cleanup could not quiesce in-flight part requests''"

fun quiesce_loop :: "nat \<Rightarrow> settle_event list \<Rightarrow> s3_error option option" where
  "quiesce_loop 0 evs = Some None"
| "quiesce_loop (Suc k) [] = None"
| "quiesce_loop (Suc k) (Settled # evs) = quiesce_loop k evs"
| "quiesce_loop (Suc k) (SettleElapsed # evs) = Some (Some quiesce_timeout)"

definition quiesce_part_requests ::
  "s3_error \<Rightarrow> u16 list \<Rightarrow> nat \<Rightarrow> duration \<Rightarrow> settle_event list \<Rightarrow> managed_upload_failure option" where
  "quiesce_part_requests primary pending now cleanup_timeout evs =
     map_option (\<lambda>q. (managed_upload_failure_new primary now cleanup_timeout)\<lparr>muf_quiesce_failure := q\<rparr>)
       (quiesce_loop (length pending) evs)"

definition upload_parts ::
  "'d checksum_ext \<Rightarrow> (string \<Rightarrow> nat \<Rightarrow> nat \<Rightarrow> string + string) \<Rightarrow> part_context \<Rightarrow> u16 \<Rightarrow> nat \<Rightarrow> sched_event list
     \<Rightarrow> nat \<Rightarrow> duration \<Rightarrow> settle_event list \<Rightarrow> (managed_upload_failure + multipart_upload) option" where
  "upload_parts X read_exact ctx n concurrency evs now cleanup_timeout settle =
     (case upload_parts_loop X read_exact ctx n concurrency evs (sched_start ctx) of
        None \<Rightarrow> None
      | Some (Inr upload) \<Rightarrow> Some (Inr upload)
      | Some (Inl (primary, pending)) \<Rightarrow>
          map_option Inl (quiesce_part_requests primary pending now cleanup_timeout settle))"

definition attach_cleanup_failure :: "s3_error \<Rightarrow> s3_error + unit \<Rightarrow> s3_error" where
  "attach_cleanup_failure primary cleanup = (case cleanup of
     Inr _ \<Rightarrow> primary | Inl c \<Rightarrow> with_cleanup_failure c primary)"

section \<open>Cancellation\<close>

text \<open>
  The watch channel that the caller's future and the spawned worker share. Waiting looks at the value first and then after each
  change; \<open>None\<close> in the list of what it sees is a closed channel, an exhausted list a wait that goes on.
\<close>

record cancellation =
  cn_value :: bool

definition cancellation_new :: cancellation where
  "cancellation_new = \<lparr>cn_value = False\<rparr>"

definition cancel :: "cancellation \<Rightarrow> cancellation" where
  "cancel c = c\<lparr>cn_value := True\<rparr>"

definition is_cancelled :: "cancellation \<Rightarrow> bool" where
  "is_cancelled c = cn_value c"

fun await_cancelled :: "bool option list \<Rightarrow> unit option" where
  "await_cancelled [] = None"
| "await_cancelled (None # vs) = Some ()"
| "await_cancelled (Some v # vs) = (if v then Some () else await_cancelled vs)"

text \<open>The future that owns the worker: polling it polls the worker's handle, dropping it cancels the worker.\<close>

datatype 'a join_poll = JoinPending | JoinReady 'a | JoinFailed string

fun owned_task_poll :: "(s3_error + 'a) join_poll \<Rightarrow> (s3_error + 'a) option" where
  "owned_task_poll JoinPending = None"
| "owned_task_poll (JoinReady r) = Some r"
| "owned_task_poll (JoinFailed type_name) = Some (Inl (transport type_name))"

definition owned_task_drop :: "cancellation \<Rightarrow> cancellation" where
  "owned_task_drop c = cancel c"

lemma await_cancelled_iff: "await_cancelled vs = Some () \<longleftrightarrow> Some True \<in> set vs \<or> None \<in> set vs"
  by (induction vs rule: await_cancelled.induct) auto

lemma dropped_task_is_seen: "await_cancelled (seen @ [Some (is_cancelled (owned_task_drop c))]) = Some ()"
  by (simp add: await_cancelled_iff owned_task_drop_def cancel_def is_cancelled_def)

section \<open>The whole upload\<close>

text \<open>The calls that open, finish or discard an upload at the service, in the order they are made.\<close>

datatype remote_call = CreateCall create_request | CompleteCall complete_request | AbortCall abort_request

record run_env =
  re_cancelled_preparing :: bool
  re_prepare_elapsed :: bool
  re_cancelled_prepared :: bool
  re_create :: "create_request \<Rightarrow> s3_error + create_output"
  re_events :: "sched_event list"
  re_now_failed :: nat
  re_settle :: "settle_event list"
  re_complete :: "complete_request \<Rightarrow> (s3_error + complete_output) option"
  re_abort :: "abort_request \<Rightarrow> nat \<Rightarrow> s3_error + request_ids"

definition fail_with_abort ::
  "run_env \<Rightarrow> object_key \<Rightarrow> upload_id \<Rightarrow> header_map \<Rightarrow> managed_upload_failure
     \<Rightarrow> (s3_error + complete_output) \<times> remote_call list" where
  "fail_with_abort R key uid headers failure =
     (let rq = (abort_request_new key uid)\<lparr>ab_headers := headers\<rparr>;
          abort = re_abort R rq (muf_cleanup_deadline failure);
          cleanup = (case (abort, muf_quiesce_failure failure) of
             (Inr _, None) \<Rightarrow> Inr ()
           | (Inl e, None) \<Rightarrow> Inl e
           | (Inr _, Some e) \<Rightarrow> Inl e
           | (Inl e, Some q) \<Rightarrow> Inl (with_cleanup_failure q e)) in
      (Inl (attach_cleanup_failure (muf_primary failure) cleanup), [AbortCall rq]))"

text \<open>
  \<open>re_complete\<close> gives \<open>None\<close> when the completion is still running at the moment the cancellation is seen: the
  \<open>select!\<close> is biased, so a result that is there wins.
\<close>

definition finish_upload ::
  "run_env \<Rightarrow> managed_request \<Rightarrow> upload_id \<Rightarrow> multipart_upload \<Rightarrow> (s3_error + complete_output) \<times> remote_call list" where
  "finish_upload R rq uid upload =
     (let hs = mr_headers rq; cleanup_timeout = mo_cleanup_timeout (mr_options rq);
          failed = (\<lambda>primary. fail_with_abort R (mr_key rq) uid (mh_abort hs)
             (managed_upload_failure_new primary (re_now_failed R) cleanup_timeout)) in
      case complete_request_new (mu_key upload) (mu_upload_id upload) (mu_completed_parts upload) of
        Inl e \<Rightarrow> failed (integrity (multipart_error_display e))
      | Inr completion \<Rightarrow>
          (let completion = completion\<lparr>cmp_headers := mh_complete hs\<rparr>;
               (result, calls) = (case re_complete R completion of
                  None \<Rightarrow> failed cancelled
                | Some (Inl primary) \<Rightarrow> failed primary
                | Some (Inr out) \<Rightarrow> (Inr out, [])) in
           (result, CompleteCall completion # calls)))"

definition create_for :: "managed_request \<Rightarrow> create_request" where
  "create_for rq = (create_request_new (mr_key rq))\<lparr>cr_content_type := mr_content_type rq, cr_user_metadata := mr_user_metadata rq,
     cr_checksum_algorithm := mr_checksum_algorithm rq, cr_headers := mh_create (mr_headers rq)\<rparr>"

definition context_for :: "managed_request \<Rightarrow> upload_id \<Rightarrow> prepared_multipart_source \<Rightarrow> part_context" where
  "context_for rq uid src = \<lparr>pc_key = mr_key rq, pc_upload_id = uid, pc_source = src,
     pc_part_size = mo_part_size (mr_options rq), pc_checksum_algorithm = mr_checksum_algorithm rq,
     pc_headers = mh_upload_part (mr_headers rq)\<rparr>"

definition run_multipart_upload ::
  "'d checksum_ext \<Rightarrow> file_reader \<Rightarrow> (string \<Rightarrow> nat \<Rightarrow> nat \<Rightarrow> string + string) \<Rightarrow> run_env \<Rightarrow> managed_request
     \<Rightarrow> ((s3_error + complete_output) \<times> remote_call list) option" where
  "run_multipart_upload X read_file read_exact R rq =
     (let opts = mr_options rq in
      if re_cancelled_preparing R then Some (Inl cancelled, [])
      else if re_prepare_elapsed R then Some (Inl transfer_timeout, [])
      else (case and_then (prepare_multipart X read_file (mr_source rq)) (\<lambda>src.
               and_then (part_count src (mo_part_size opts)) (\<lambda>n. Inr (src, n))) of
         Inl e \<Rightarrow> Some (Inl e, [])
       | Inr (src, n) \<Rightarrow>
           if re_cancelled_prepared R then Some (Inl cancelled, [])
           else (case re_create R (create_for rq) of
              Inl e \<Rightarrow> Some (Inl e, [CreateCall (create_for rq)])
            | Inr created \<Rightarrow>
                (let uid = cro_upload_id created in
                 map_option (\<lambda>(result, calls). (result, CreateCall (create_for rq) # calls))
                   (case upload_parts X read_exact (context_for rq uid src) n (mo_concurrency opts)
                           (re_events R) (re_now_failed R) (mo_cleanup_timeout opts) (re_settle R) of
                      None \<Rightarrow> None
                    | Some (Inl failure) \<Rightarrow> Some (fail_with_abort R (mr_key rq) uid (mh_abort (mr_headers rq)) failure)
                    | Some (Inr upload) \<Rightarrow> Some (finish_upload R rq uid upload))))))"

text \<open>
  \<open>S3Client::multipart_upload\<close> spawns the run on the current runtime and awaits the task; without a runtime, or when
  the task panicked, the error type's name is all that is reported.
\<close>

definition multipart_upload_task ::
  "string option \<Rightarrow> string option \<Rightarrow> 'd checksum_ext \<Rightarrow> file_reader \<Rightarrow> (string \<Rightarrow> nat \<Rightarrow> nat \<Rightarrow> string + string) \<Rightarrow> run_env
     \<Rightarrow> managed_request \<Rightarrow> ((s3_error + complete_output) \<times> remote_call list) option" where
  "multipart_upload_task no_runtime panicked X read_file read_exact R rq =
     (case no_runtime of
        Some type_name \<Rightarrow> Some (Inl (transport type_name), [])
      | None \<Rightarrow> map_option (\<lambda>(result, calls).
          (case panicked of Some type_name \<Rightarrow> Inl (transport type_name) | None \<Rightarrow> result, calls))
          (run_multipart_upload X read_file read_exact R rq))"

section \<open>The division into parts\<close>

definition source_content :: "prepared_multipart_source \<Rightarrow> string" where
  "source_content src = (case src of MultipartBytes b \<Rightarrow> b | MultipartFile snap \<Rightarrow> fs_bytes snap)"

text \<open>A prepared source is well-formed when its recorded length is the length of its bytes, a 64-bit number.\<close>

definition source_ok :: "prepared_multipart_source \<Rightarrow> bool" where
  "source_ok src \<longleftrightarrow> source_length src = Inr (length (source_content src)) \<and> length (source_content src) < 2 ^ 64"

text \<open>Reading a range that lies inside the file gives exactly that range.\<close>

definition read_exact_documented :: "(string \<Rightarrow> nat \<Rightarrow> nat \<Rightarrow> string + string) \<Rightarrow> bool" where
  "read_exact_documented read_exact \<longleftrightarrow>
     (\<forall>file offset len. offset + len \<le> length file \<longrightarrow> read_exact file offset len = Inr (take len (drop offset file)))"

definition slice :: "string \<Rightarrow> nat \<Rightarrow> nat \<Rightarrow> string" where
  "slice bytes psize i = take psize (drop (i * psize) bytes)"

lemma concat_slices: "concat (map (slice bytes psize) [0..<n]) = take (n * psize) bytes"
proof (induction n)
  case (Suc n)
  then show ?case by (simp add: slice_def take_add add.commute[of psize])
qed simp

lemma part_count_Inr:
  assumes "source_ok src" and "part_count src psize = Inr n"
  shows "unat n = div_ceil (length (source_content src)) psize" and "0 < length (source_content src)" and "unat n \<le> 10000"
  using assms by (auto simp: part_count_def source_ok_def Let_def PART_MAX_def unat_of_nat split: if_splits)

lemma part_count_nonzero:
  assumes "source_ok src" and "part_count src psize = Inr n"
  shows "1 \<le> unat n"
proof (cases "psize = 0")
  case True
  then show ?thesis using part_count_Inr[OF assms] by (simp add: div_ceil_def)
next
  case False
  then show ?thesis using part_count_Inr[OF assms] div_ceil_pos[of psize] by (simp add: Suc_leI)
qed

lemma part_count_pos:
  assumes "source_ok src" and "part_count src psize = Inr n" and "0 < psize"
  shows "1 \<le> unat n" and "length (source_content src) \<le> unat n * psize"
  using part_count_Inr[OF assms(1,2)] div_ceil_pos[OF assms(3)] div_ceil_bounds(1)[OF assms(3)] by (simp_all add: Suc_leI)

lemma read_part_slice:
  assumes "source_ok src" and "read_exact_documented read_exact" and "part_count src psize = Inr n" and "0 < psize"
    and "1 \<le> unat k" and "unat k \<le> unat n"
  shows "read_part read_exact src psize k = Inr (slice (source_content src) psize (unat k - 1))"
proof -
  let ?b = "source_content src" and ?o = "(unat k - 1) * psize"
  have k: "unat (k - 1) = unat k - 1" using assms(5) by (simp add: unat_sub word_le_nat_alt)
  have "unat k - 1 < div_ceil (length ?b) psize" using assms(5,6) part_count_Inr(1)[OF assms(1,3)] by simp
  then have o: "?o < length ?b" using less_div_ceil_iff[OF assms(4)] by blast
  have l: "length ?b < 2 ^ 64" "source_length src = Inr (length ?b)" using assms(1) by (simp_all add: source_ok_def)
  have m: "checked_mul_u64 (unat (k - 1)) psize = Some ?o" using o l(1) by (simp add: checked_mul_u64_def k)
  have t: "take (min (length ?b - ?o) psize) (drop ?o ?b) = slice ?b psize (unat k - 1)"
    by (simp add: slice_def min_def)
  have r: "read_exact ?b ?o (min (length ?b - ?o) psize) = Inr (slice ?b psize (unat k - 1))"
    using assms(2) o t unfolding read_exact_documented_def by (metis add_diff_inverse_nat less_imp_le_nat min.cobounded1 nat_add_left_cancel_le not_le)
  show ?thesis
    using o l(2) m t r by (cases src) (auto simp: read_part_def checked_sub_nat_def source_content_def read_range_def Let_def)
qed

text \<open>
  Property C26. The parts of a managed upload are the source: for a source that \<open>part_count\<close> accepts, reading parts 1 to
  the count never fails, at most 10,000 parts are needed, every part but the last has the configured size, the last is
  not empty and not larger, and their concatenation is the source byte for byte.
\<close>

theorem parts_partition_source:
  assumes "source_ok src" and "read_exact_documented read_exact" and "part_count src psize = Inr n" and "0 < psize"
  shows "\<exists>parts. length parts = unat n \<and> 1 \<le> unat n \<and> unat n \<le> 10000 \<and> concat parts = source_content src \<and>
    (\<forall>k. 1 \<le> unat k \<longrightarrow> unat k \<le> unat n \<longrightarrow> read_part read_exact src psize k = Inr (parts ! (unat k - 1))) \<and>
    (\<forall>i. i + 1 < unat n \<longrightarrow> length (parts ! i) = psize) \<and> 0 < length (last parts) \<and> length (last parts) \<le> psize"
proof -
  let ?b = "source_content src" and ?parts = "map (slice (source_content src) psize) [0..<unat n]"
  note c = part_count_Inr[OF assms(1,3)] and p = part_count_pos[OF assms(1,3,4)]
  have "concat ?parts = ?b" using p(2) by (simp add: concat_slices)
  moreover have "\<forall>k. 1 \<le> unat k \<longrightarrow> unat k \<le> unat n \<longrightarrow> read_part read_exact src psize k = Inr (?parts ! (unat k - 1))"
    using read_part_slice[OF assms] by auto
  moreover have "\<forall>i. i + 1 < unat n \<longrightarrow> length (?parts ! i) = psize"
  proof (intro allI impI)
    fix i assume i: "i + 1 < unat n"
    then have "(i + 1) * psize < length ?b" using less_div_ceil_iff[OF assms(4)] c(1) by metis
    with i show "length (?parts ! i) = psize" by (simp add: slice_def)
  qed
  moreover have "last ?parts = slice ?b psize (unat n - 1)" using p(1) by (simp add: last_map)
  moreover have "(unat n - 1) * psize < length ?b"
    using less_div_ceil_iff[OF assms(4), of "unat n - 1" "length ?b"] p(1) unfolding c(1)[symmetric] by linarith
  ultimately show ?thesis using p(1) c(3) assms(4)
    by (intro exI[of _ ?parts]) (simp add: slice_def)
qed

theorem parts_partition_source_witness:
  "part_count (MultipartBytes ''abcde'') 2 = Inr 3 \<and>
   (\<exists>parts. length parts = 3 \<and> concat parts = ''abcde'' \<and> read_part (\<lambda>file offset len. Inr (take len (drop offset file))) (MultipartBytes ''abcde'') 2 3 = Inr (parts ! 2))"
proof -
  have o: "source_ok (MultipartBytes ''abcde'')" by (simp add: source_ok_def source_length_def source_content_def)
  have d: "read_exact_documented (\<lambda>file offset len. Inr (take len (drop offset file)))" by (simp add: read_exact_documented_def)
  have c: "part_count (MultipartBytes ''abcde'') 2 = Inr 3"
    by (simp add: part_count_def source_length_def div_ceil_def PART_MAX_def)
  from parts_partition_source[OF o d c] obtain parts where "length parts = unat (3 :: u16)" "concat parts = source_content (MultipartBytes ''abcde'')"
    "\<forall>k. 1 \<le> unat k \<longrightarrow> unat k \<le> unat (3 :: u16) \<longrightarrow> read_part (\<lambda>file offset len. Inr (take len (drop offset file))) (MultipartBytes ''abcde'') 2 k = Inr (parts ! (unat k - 1))"
    by auto
  with c show ?thesis by (intro conjI exI[of _ parts]) (simp_all add: source_content_def)
qed

section \<open>The scheduler's invariant\<close>

abbreviation part_num :: "completed_part \<Rightarrow> nat" where
  "part_num p \<equiv> unat (part_get (cp_part_number p))"

text \<open>
  At most \<open>concurrency\<close> parts are in flight, and every part number handed out so far is in flight or recorded, exactly
  once.
\<close>

definition sched_inv :: "part_context \<Rightarrow> u16 \<Rightarrow> nat \<Rightarrow> sched \<Rightarrow> bool" where
  "sched_inv ctx n c s \<longleftrightarrow> length (sc_pending s) \<le> c \<and> 1 \<le> unat (sc_next s) \<and> unat (sc_next s) \<le> unat n + 1 \<and>
     mset (map unat (sc_pending s)) + mset (map part_num (mu_completed_parts (sc_upload s))) = mset [1..<unat (sc_next s)] \<and>
     upload_ok (sc_upload s) \<and> mu_key (sc_upload s) = pc_key ctx \<and> mu_upload_id (sc_upload s) = pc_upload_id ctx"

text \<open>After filling, there is no room for another part or no part left.\<close>

definition sched_full :: "u16 \<Rightarrow> nat \<Rightarrow> sched \<Rightarrow> bool" where
  "sched_full n c s \<longleftrightarrow> length (sc_pending s) = c \<or> unat (sc_next s) = unat n + 1"

lemma sched_start_inv: "sched_inv ctx n c (sched_start ctx)"
  by (simp add: sched_inv_def sched_start_def multipart_upload_new_def upload_ok_def)

lemma unat_Suc_word: "(k :: u16) \<le> n \<Longrightarrow> unat n \<le> 10000 \<Longrightarrow> unat (k + 1) = unat k + 1"
  by (simp add: word_le_nat_alt unat_word_ariths)

lemma fill_pending_inv:
  assumes "sched_inv ctx n c s" and "unat n \<le> 10000"
  shows "sched_inv ctx n c (fill_pending c n s) \<and> sched_full n c (fill_pending c n s) \<and>
    unat (sc_next s) \<le> unat (sc_next (fill_pending c n s)) \<and> sc_upload (fill_pending c n s) = sc_upload s"
  using assms
proof (induction c n s rule: fill_pending.induct)
  case (1 c n s)
  show ?case
  proof (cases "length (sc_pending s) < c \<and> sc_next s \<le> n")
    case True
    let ?s = "s\<lparr>sc_pending := sc_pending s @ [sc_next s], sc_next := sc_next s + 1\<rparr>"
    have u: "unat (sc_next s + 1) = unat (sc_next s) + 1" using True 1(3) unat_Suc_word by blast
    have "mset [1..<unat (sc_next s) + 1] = add_mset (unat (sc_next s)) (mset [1..<unat (sc_next s)])"
      using 1(2) by (simp add: sched_inv_def)
    then have "sched_inv ctx n c ?s" using 1(2) True by (simp add: sched_inv_def u word_le_nat_alt)
    from 1(1)[OF True this 1(3)] show ?thesis by (subst (1 2 3 4) fill_pending.simps) (simp add: True u)
  next
    case False
    with 1(2,3) show ?thesis
      by (subst (1 2 3 4) fill_pending.simps) (auto simp: sched_full_def sched_inv_def word_le_nat_alt)
  qed
qed

text \<open>The operation that uploads a part reports the part number it was asked to upload.\<close>

definition sender_documented :: "part_sender \<Rightarrow> bool" where
  "sender_documented send \<longleftrightarrow> (\<forall>rq out. send rq = Inr out \<longrightarrow> upo_part_number out = up_part_number rq)"

fun event_documented :: "sched_event \<Rightarrow> bool" where
  "event_documented (PartDone i elapsed send) \<longleftrightarrow> sender_documented send"
| "event_documented _ \<longleftrightarrow> True"

lemma part_request_number: "part_request X read_exact ctx n elapsed = Inr rq \<Longrightarrow> up_part_number rq = PartNumber n"
  by (auto simp: part_request_def part_number_new_Some_iff up_with_checksum_def upload_part_request_new_def Let_def)

lemma upload_one_part_number:
  assumes "sender_documented send" and "upload_one_part X read_exact ctx n elapsed send = Inr part"
  shows "cp_part_number part = PartNumber n"
proof -
  from assms(2) obtain rq out where "part_request X read_exact ctx n elapsed = Inr rq" "send rq = Inr out"
    and c: "\<exists>q. completed_part_new (part_get (upo_part_number out)) (upo_e_tag out) = Inr q \<and> cp_with_checksum (upo_checksum out) q = part"
    by (auto simp: upload_one_part_def)
  moreover have "upo_part_number out = PartNumber n"
    using calculation(1,2) assms(1) part_request_number by (auto simp: sender_documented_def)
  ultimately show ?thesis by (auto simp: completed_part_new_Inr_iff cp_with_checksum_def)
qed

lemma mset_remove_nth: "i < length xs \<Longrightarrow> mset xs = add_mset (xs ! i) (mset (take i xs @ drop (Suc i) xs))"
  by (metis append_take_drop_id Cons_nth_drop_Suc mset.simps(2) mset_append union_mset_add_mset_right)

lemma sched_event_inv:
  assumes inv: "sched_inv ctx n c s" and "sc_pending s \<noteq> []" and "event_documented ev"
    and step: "sched_event_step X read_exact ctx s ev = Inr s'"
  shows "sched_inv ctx n c s' \<and> sc_next s' = sc_next s \<and> length (mu_completed_parts (sc_upload s')) = Suc (length (mu_completed_parts (sc_upload s)))"
proof (cases ev)
  case (PartDone j elapsed send)
  define i where "i = j mod length (sc_pending s)"
  let ?rest = "take i (sc_pending s) @ drop (Suc i) (sc_pending s)"
  from step PartDone obtain part up where part: "upload_one_part X read_exact ctx (sc_pending s ! i) elapsed send = Inr part"
    and up: "record_part part (sc_upload s) = Inr up" and s': "s' = s\<lparr>sc_pending := ?rest, sc_upload := up\<rparr>"
    by (auto simp: sched_event_step_def i_def Let_def split: sum.splits)
  have i: "i < length (sc_pending s)" and d: "sender_documented send" using assms(2,3) PartDone by (simp_all add: i_def)
  have num: "part_num part = unat (sc_pending s ! i)" using upload_one_part_number[OF d part] by simp
  have ok: "upload_ok (sc_upload s)" using inv by (simp add: sched_inv_def)
  have "cp_part_number part \<notin> recorded_numbers (sc_upload s)" using record_part_Inr_iff[OF ok] up by blast
  from record_part_fresh[OF ok this] up have m: "mset (mu_completed_parts up) = add_mset part (mset (mu_completed_parts (sc_upload s)))"
    and k: "upload_ok up" "mu_key up = mu_key (sc_upload s)" "mu_upload_id up = mu_upload_id (sc_upload s)" by auto
  have "mset (map unat (sc_pending s)) = add_mset (unat (sc_pending s ! i)) (mset (map unat ?rest))"
    using arg_cong[OF mset_remove_nth[OF i], of "image_mset unat"] by simp
  moreover have "mset (map part_num (mu_completed_parts up)) = add_mset (part_num part) (mset (map part_num (mu_completed_parts (sc_upload s))))"
    using arg_cong[OF m, of "image_mset part_num"] by simp
  ultimately have "mset (map unat ?rest) + mset (map part_num (mu_completed_parts up)) = mset [1..<unat (sc_next s)]"
    using inv num by (simp add: sched_inv_def)
  moreover have "length (mu_completed_parts up) = Suc (length (mu_completed_parts (sc_upload s)))"
    by (metis m size_add_mset size_mset)
  moreover have "length ?rest \<le> c" using inv i by (auto simp: sched_inv_def)
  ultimately show ?thesis using inv k by (simp add: sched_inv_def s')
qed (use step in \<open>simp_all add: sched_event_step_def\<close>)

section \<open>Runs of the scheduler\<close>

inductive sched_reach ::
  "'d checksum_ext \<Rightarrow> (string \<Rightarrow> nat \<Rightarrow> nat \<Rightarrow> string + string) \<Rightarrow> part_context \<Rightarrow> u16 \<Rightarrow> nat \<Rightarrow> sched \<Rightarrow> bool"
  for X read_exact ctx n c where
  sr_start: "sched_reach X read_exact ctx n c (fill_pending c n (sched_start ctx))"
| sr_event: "sched_reach X read_exact ctx n c s \<Longrightarrow> sc_pending s \<noteq> [] \<Longrightarrow> event_documented ev \<Longrightarrow>
     sched_event_step X read_exact ctx s ev = Inr s' \<Longrightarrow> sched_reach X read_exact ctx n c (fill_pending c n s')"

lemma sched_reach_inv:
  assumes "sched_reach X read_exact ctx n c s" and "unat n \<le> 10000"
  shows "sched_inv ctx n c s \<and> sched_full n c s"
  using assms(1)
proof (induction rule: sched_reach.induct)
  case sr_start
  show ?case using fill_pending_inv[OF sched_start_inv assms(2)] by blast
next
  case (sr_event s ev s')
  then have "sched_inv ctx n c s'" using sched_event_inv by blast
  with fill_pending_inv assms(2) show ?case by blast
qed

text \<open>The bytes buffered for the parts in flight.\<close>

definition in_flight_bytes :: "(string \<Rightarrow> nat \<Rightarrow> nat \<Rightarrow> string + string) \<Rightarrow> part_context \<Rightarrow> sched \<Rightarrow> nat" where
  "in_flight_bytes read_exact ctx s = sum_list (map (\<lambda>k. case read_part read_exact (pc_source ctx) (pc_part_size ctx) k of
     Inl e \<Rightarrow> 0 | Inr body \<Rightarrow> length body) (sc_pending s))"

lemma read_part_length:
  assumes "read_exact_documented read_exact" and "source_ok src"
  shows "(case read_part read_exact src psize k of Inl e \<Rightarrow> 0 | Inr body \<Rightarrow> length body) \<le> psize"
proof (cases "read_part read_exact src psize k")
  case (Inr body)
  have l: "source_length src = Inr (length (source_content src))" using assms(2) by (simp add: source_ok_def)
  obtain off where "off \<le> length (source_content src)"
    and "body = take (min (length (source_content src) - off) psize) (drop off (source_content src))"
  proof (cases src)
    case (MultipartBytes b)
    with Inr l that show ?thesis
      by (auto simp: read_part_def Let_def checked_sub_nat_def source_content_def split: option.splits if_splits)
  next
    case (MultipartFile snap)
    with Inr l obtain off where o: "off \<le> length (fs_bytes snap)"
      "read_exact (fs_bytes snap) off (min (length (fs_bytes snap) - off) psize) = Inr body"
      by (auto simp: read_part_def Let_def checked_sub_nat_def source_content_def read_range_def split: option.splits if_splits)
    moreover have "off + min (length (fs_bytes snap) - off) psize \<le> length (fs_bytes snap)" using o(1) by simp
    ultimately have "body = take (min (length (fs_bytes snap) - off) psize) (drop off (fs_bytes snap))"
      using assms(1) unfolding read_exact_documented_def by (metis sum.inject(2))
    with o(1) that MultipartFile show ?thesis by (simp add: source_content_def)
  qed
  with Inr show ?thesis by simp
qed simp

lemma sum_list_bound: "(\<And>x. x \<in> set xs \<Longrightarrow> f x \<le> (b :: nat)) \<Longrightarrow> sum_list (map f xs) \<le> b * length xs"
  by (induction xs) (auto simp: add_mono)

text \<open>
  Property C8. The scheduler is bounded and loses nothing: in every state it can reach, whatever finishes in whatever
  order, at most \<open>concurrency\<close> parts are in flight and their buffers hold at most part size times concurrency bytes, each
  part number handed out is either in flight or recorded, exactly once, and the scheduler only leaves a free slot when all
  parts were handed out.
\<close>

theorem scheduler_bounds:
  assumes "sched_reach X read_exact ctx n c s" and "unat n \<le> 10000" and "source_ok (pc_source ctx)"
    and "read_exact_documented read_exact"
  shows "length (sc_pending s) \<le> c \<and> in_flight_bytes read_exact ctx s \<le> pc_part_size ctx * c \<and>
    mset (map unat (sc_pending s)) + mset (map part_num (mu_completed_parts (sc_upload s))) = mset [1..<unat (sc_next s)] \<and>
    ascending (map cp_part_number (mu_completed_parts (sc_upload s))) \<and>
    (length (sc_pending s) = c \<or> unat (sc_next s) = unat n + 1)"
proof -
  from sched_reach_inv[OF assms(1,2)] have i: "sched_inv ctx n c s" and f: "sched_full n c s" by blast+
  have "in_flight_bytes read_exact ctx s \<le> pc_part_size ctx * length (sc_pending s)"
    unfolding in_flight_bytes_def by (rule sum_list_bound) (rule read_part_length[OF assms(4,3)])
  also have "\<dots> \<le> pc_part_size ctx * c" using i by (intro mult_le_mono2) (simp add: sched_inv_def)
  finally show ?thesis using i f by (simp add: sched_inv_def sched_full_def upload_ok_def)
qed

definition slice_reader :: "string \<Rightarrow> nat \<Rightarrow> nat \<Rightarrow> string + string" where
  "slice_reader file offset len = Inr (take len (drop offset file))"

definition example_part_context :: part_context where
  "example_part_context = \<lparr>pc_key = ObjectKey ''k'', pc_upload_id = UploadId ''u'', pc_source = MultipartBytes ''abcde'',
     pc_part_size = 2, pc_checksum_algorithm = None, pc_headers = []\<rparr>"

lemma slice_reader_documented: "read_exact_documented slice_reader"
  by (simp add: read_exact_documented_def slice_reader_def)

lemma example_source_ok: "source_ok (pc_source example_part_context)"
  by (simp add: example_part_context_def source_ok_def source_length_def source_content_def)

theorem scheduler_bounds_witness:
  "sched_reach text_ext slice_reader example_part_context 3 2 (fill_pending 2 3 (sched_start example_part_context)) \<and>
   in_flight_bytes slice_reader example_part_context (fill_pending 2 3 (sched_start example_part_context)) \<le> 4"
proof -
  have r: "sched_reach text_ext slice_reader example_part_context 3 2 (fill_pending 2 3 (sched_start example_part_context))"
    by (rule sr_start)
  from scheduler_bounds[OF r _ example_source_ok slice_reader_documented] r show ?thesis
    by (simp add: example_part_context_def)
qed

section \<open>The outcome of the scheduler\<close>

lemma sorted_numbers_unique:
  assumes "upload_ok up" and "mset (map part_num (mu_completed_parts up)) = mset [1..<m]"
  shows "map part_num (mu_completed_parts up) = [1..<m]"
proof -
  have "sorted (map part_num (mu_completed_parts up))"
  proof -
    have "sorted_wrt (\<lambda>p q. cp_part_number p < cp_part_number q) (mu_completed_parts up)"
      using assms(1) by (simp add: upload_ok_def sorted_wrt_map)
    then have "sorted_wrt (\<lambda>p q. part_num p \<le> part_num q) (mu_completed_parts up)"
      by (rule sorted_wrt_mono_rel[rotated]) (simp add: less_part_number_def word_less_nat_alt)
    then show ?thesis by (simp add: sorted_wrt_map)
  qed
  then show ?thesis using assms(2) by (metis properties_for_sort sorted_upt sort_upt)
qed

lemma sched_inv_parts:
  assumes "sched_inv ctx n c s"
  shows "mset (map unat (sc_pending s)) + mset (map part_num (mu_completed_parts (sc_upload s))) = mset [1..<unat (sc_next s)]"
    and "length (sc_pending s) + length (mu_completed_parts (sc_upload s)) \<le> unat n"
proof -
  show m: "mset (map unat (sc_pending s)) + mset (map part_num (mu_completed_parts (sc_upload s))) = mset [1..<unat (sc_next s)]"
    using assms unfolding sched_inv_def by blast
  have "length (sc_pending s) + length (mu_completed_parts (sc_upload s)) = unat (sc_next s) - 1"
    using arg_cong[OF m, of size] by simp
  with assms show "length (sc_pending s) + length (mu_completed_parts (sc_upload s)) \<le> unat n"
    unfolding sched_inv_def by linarith
qed

lemma sched_done:
  assumes "sched_inv ctx n c s" and "sched_full n c s" and "sc_pending s = []" and "0 < c"
  shows "upload_ok (sc_upload s) \<and> mu_key (sc_upload s) = pc_key ctx \<and> mu_upload_id (sc_upload s) = pc_upload_id ctx \<and>
    map part_num (mu_completed_parts (sc_upload s)) = [1..<unat n + 1]"
proof -
  have "unat (sc_next s) = unat n + 1" using assms(2-4) by (simp add: sched_full_def)
  with sched_inv_parts(1)[OF assms(1)] have "mset (map part_num (mu_completed_parts (sc_upload s))) = mset [1..<unat n + 1]"
    by (simp only: assms(3) list.map(1) mset.simps(1) add_0)
  moreover have "upload_ok (sc_upload s)" "mu_key (sc_upload s) = pc_key ctx" "mu_upload_id (sc_upload s) = pc_upload_id ctx"
    using assms(1) unfolding sched_inv_def by blast+
  ultimately show ?thesis using sorted_numbers_unique by blast
qed

lemma upload_parts_loop_Inr:
  assumes "upload_parts_loop X read_exact ctx n c evs s = Some (Inr up)" and "sched_inv ctx n c s" and "unat n \<le> 10000"
    and "0 < c" and "list_all event_documented evs"
  shows "upload_ok up \<and> mu_key up = pc_key ctx \<and> mu_upload_id up = pc_upload_id ctx \<and>
    map part_num (mu_completed_parts up) = [1..<unat n + 1]"
  using assms
proof (induction evs arbitrary: s)
  case Nil
  let ?s = "fill_pending c n s"
  from Nil(1) have "sc_pending ?s = []" and "up = sc_upload ?s"
    by (auto simp: upload_parts_loop.simps[of X read_exact ctx n c "[]" s] Let_def split: if_splits)
  with fill_pending_inv[OF Nil(2,3)] Nil(4) show ?case using sched_done[of ctx n c ?s] by blast
next
  case (Cons ev evs)
  let ?s = "fill_pending c n s"
  have inv: "sched_inv ctx n c ?s" "sched_full n c ?s" using fill_pending_inv[OF Cons.prems(2,3)] by blast+
  show ?case
  proof (cases "sc_pending ?s = []")
    case True
    then have "up = sc_upload ?s"
      using Cons.prems(1) by (simp add: upload_parts_loop.simps[of X read_exact ctx n c "ev # evs" s] Let_def)
    with True inv Cons.prems(4) show ?thesis using sched_done[of ctx n c ?s] by blast
  next
    case False
    with Cons.prems(1) obtain s' where "sched_event_step X read_exact ctx ?s ev = Inr s'"
      "upload_parts_loop X read_exact ctx n c evs s' = Some (Inr up)"
      by (auto simp: upload_parts_loop.simps[of X read_exact ctx n c "ev # evs" s] Let_def split: sum.splits)
    moreover from this(1) have "sched_inv ctx n c s'"
      using sched_event_inv[OF inv(1) False] Cons.prems(5) by auto
    ultimately show ?thesis using Cons.IH[of s'] Cons.prems(3-5) by simp
  qed
qed

text \<open>The scheduler returns once enough events happened: each one that does not end it records one more part.\<close>

lemma upload_parts_loop_returns:
  assumes "sched_inv ctx n c s" and "unat n \<le> 10000" and "list_all event_documented evs"
    and "unat n \<le> length evs + length (mu_completed_parts (sc_upload s))"
  shows "\<exists>r. upload_parts_loop X read_exact ctx n c evs s = Some r"
  using assms
proof (induction evs arbitrary: s)
  case Nil
  let ?s = "fill_pending c n s"
  have inv: "sched_inv ctx n c ?s" and up: "sc_upload ?s = sc_upload s" using fill_pending_inv[OF Nil(1,2)] by blast+
  have "length (sc_pending ?s) + length (mu_completed_parts (sc_upload s)) \<le> unat n"
    using sched_inv_parts(2)[OF inv] by (simp add: up)
  then have "sc_pending ?s = []" using Nil(4) by (cases "sc_pending ?s") auto
  then show ?case by (simp add: upload_parts_loop.simps[of X read_exact ctx n c "[]" s] Let_def)
next
  case (Cons ev evs)
  let ?s = "fill_pending c n s"
  have inv: "sched_inv ctx n c ?s" and up: "sc_upload ?s = sc_upload s" using fill_pending_inv[OF Cons.prems(1,2)] by blast+
  show ?case
  proof (cases "sc_pending ?s = [] \<or> isl (sched_event_step X read_exact ctx ?s ev)")
    case True
    then show ?thesis
      by (auto simp: upload_parts_loop.simps[of X read_exact ctx n c "ev # evs" s] Let_def split: sum.splits)
  next
    case False
    then obtain s' where s': "sched_event_step X read_exact ctx ?s ev = Inr s'" by (metis sum.collapse(2))
    with sched_event_inv[OF inv _ _ s'] False Cons.prems(3) up have "sched_inv ctx n c s'"
      "length (mu_completed_parts (sc_upload s')) = Suc (length (mu_completed_parts (sc_upload s)))" by auto
    with Cons.IH[of s'] Cons.prems False s' show ?thesis
      by (simp add: upload_parts_loop.simps[of X read_exact ctx n c "ev # evs" s] Let_def)
  qed
qed

lemma upload_parts_loop_Inl:
  assumes "upload_parts_loop X read_exact ctx n c evs s = Some (Inl (primary, pending))" and "sched_inv ctx n c s"
    and "unat n \<le> 10000" and "list_all event_documented evs"
  shows "length pending \<le> c"
  using assms
proof (induction evs arbitrary: s)
  case Nil
  then show ?case by (simp add: upload_parts_loop.simps[of X read_exact ctx n c "[]" s] Let_def split: if_splits)
next
  case (Cons ev evs)
  let ?s = "fill_pending c n s"
  have inv: "sched_inv ctx n c ?s" using fill_pending_inv[OF Cons.prems(2,3)] by blast
  have ne: "sc_pending ?s \<noteq> []"
    using Cons.prems(1) by (auto simp: upload_parts_loop.simps[of X read_exact ctx n c "ev # evs" s] Let_def)
  show ?case
  proof (cases "sched_event_step X read_exact ctx ?s ev")
    case (Inl f)
    with Cons.prems(1) ne have "f = (primary, pending)"
      by (simp add: upload_parts_loop.simps[of X read_exact ctx n c "ev # evs" s] Let_def)
    with Inl have "length pending \<le> length (sc_pending ?s)"
      by (auto simp: sched_event_step_def Let_def split: sched_event.splits sum.splits)
    with inv show ?thesis by (auto simp: sched_inv_def)
  next
    case (Inr s')
    moreover have "sched_inv ctx n c s'" using sched_event_inv[OF inv ne _ Inr] Cons.prems(4) by auto
    ultimately show ?thesis using Cons.IH[of s'] Cons.prems ne
      by (simp add: upload_parts_loop.simps[of X read_exact ctx n c "ev # evs" s] Let_def)
  qed
qed

lemma fill_pending_upload: "sc_upload (fill_pending c n s) = sc_upload s"
  by (induction c n s rule: fill_pending.induct) (subst fill_pending.simps, simp)

text \<open>With documented answers the record refuses no part, so a turn fails only for what the scheduler saw.\<close>

lemma pending_in_range:
  assumes "sched_inv ctx n c s" and "k \<in> set (sc_pending s)"
  shows "1 \<le> unat k \<and> unat k \<le> unat n" and "PartNumber k \<notin> recorded_numbers (sc_upload s)"
proof -
  let ?done = "map part_num (mu_completed_parts (sc_upload s))"
  have m: "mset (map unat (sc_pending s)) + mset ?done = mset [1..<unat (sc_next s)]" and n: "unat (sc_next s) \<le> unat n + 1"
    using assms(1) by (simp_all add: sched_inv_def)
  have "unat k \<in># mset (map unat (sc_pending s)) + mset ?done" using assms(2) by simp
  then show "1 \<le> unat k \<and> unat k \<le> unat n" unfolding m using n by simp
  have "distinct (map unat (sc_pending s) @ ?done)"
    using m by (metis distinct_upt mset_append mset_eq_imp_distinct_iff)
  then have "unat k \<notin> set ?done" using assms(2) by auto
  then show "PartNumber k \<notin> recorded_numbers (sc_upload s)"
    by (auto simp: image_iff) (metis part_number.sel)
qed

lemma sched_event_failure:
  assumes inv: "sched_inv ctx n c s" and ne: "sc_pending s \<noteq> []" and "event_documented ev"
    and step: "sched_event_step X read_exact ctx s ev = Inl (primary, pending)"
  shows "case ev of CancelSeen \<Rightarrow> primary = cancelled | DeadlineSeen \<Rightarrow> primary = transfer_timeout
    | PartDone _ elapsed send \<Rightarrow>
        (\<exists>k. 1 \<le> unat k \<and> unat k \<le> unat n \<and> upload_one_part X read_exact ctx k elapsed send = Inl primary)"
proof (cases ev)
  case (PartDone j elapsed send)
  let ?k = "sc_pending s ! (j mod length (sc_pending s))"
  have k: "?k \<in> set (sc_pending s)" using ne by simp
  show ?thesis
  proof (cases "upload_one_part X read_exact ctx ?k elapsed send")
    case (Inl e)
    then show ?thesis using step PartDone pending_in_range(1)[OF inv k] by (auto simp: sched_event_step_def Let_def)
  next
    case (Inr part)
    have "cp_part_number part = PartNumber ?k" using upload_one_part_number[OF _ Inr] assms(3) PartDone by simp
    with pending_in_range(2)[OF inv k] have "\<exists>up. record_part part (sc_upload s) = Inr up"
      using record_part_fresh[of "sc_upload s" part] inv by (auto simp: sched_inv_def)
    with step PartDone Inr show ?thesis by (auto simp: sched_event_step_def Let_def)
  qed
qed (use step in \<open>simp_all add: sched_event_step_def\<close>)

section \<open>The parts that were sent\<close>

text \<open>One of the parts that finished was sent with the given body, to the upload, under the number it is recorded with, and answered with its tag.\<close>

definition sent_part :: "sched_event list \<Rightarrow> object_key \<Rightarrow> upload_id \<Rightarrow> string \<Rightarrow> completed_part \<Rightarrow> bool" where
  "sent_part evs key uid body part \<longleftrightarrow> (\<exists>i elapsed send prq out. PartDone i elapsed send \<in> set evs \<and>
     up_key prq = key \<and> up_upload_id prq = uid \<and> up_part_number prq = cp_part_number part \<and> up_body prq = UploadBytes body \<and>
     send prq = Inr out \<and> upo_e_tag out = cp_e_tag part)"

definition part_as_read :: "(string \<Rightarrow> nat \<Rightarrow> nat \<Rightarrow> string + string) \<Rightarrow> sched_event list \<Rightarrow> part_context \<Rightarrow> completed_part \<Rightarrow> bool" where
  "part_as_read read_exact evs ctx part \<longleftrightarrow>
     (\<exists>body. read_part read_exact (pc_source ctx) (pc_part_size ctx) (part_get (cp_part_number part)) = Inr body \<and>
        sent_part evs (pc_key ctx) (pc_upload_id ctx) body part)"

lemma upload_one_part_sent:
  assumes "upload_one_part X read_exact ctx k elapsed send = Inr part" and "sender_documented send" and "PartDone i elapsed send \<in> set evs"
  shows "part_as_read read_exact evs ctx part"
proof -
  from assms(1) obtain prq out where r: "part_request X read_exact ctx k elapsed = Inr prq" "send prq = Inr out"
    and c: "\<exists>q. completed_part_new (part_get (upo_part_number out)) (upo_e_tag out) = Inr q \<and> cp_with_checksum (upo_checksum out) q = part"
    by (auto simp: upload_one_part_def)
  have k: "cp_part_number part = PartNumber k" by (rule upload_one_part_number[OF assms(2,1)])
  from r(1) obtain body where "read_part read_exact (pc_source ctx) (pc_part_size ctx) k = Inr body"
    "up_key prq = pc_key ctx" "up_upload_id prq = pc_upload_id ctx" "up_body prq = UploadBytes body"
    by (auto simp: part_request_def up_with_checksum_def upload_part_request_new_def)
  moreover have "upo_e_tag out = cp_e_tag part" using c by (auto simp: completed_part_new_Inr_iff cp_with_checksum_def)
  moreover have "up_part_number prq = cp_part_number part" using part_request_number[OF r(1)] k by simp
  ultimately show ?thesis using r(2) k assms(3) by (fastforce simp: part_as_read_def sent_part_def)
qed

lemma upload_parts_loop_sent:
  assumes "upload_parts_loop X read_exact ctx n c evs s = Some (Inr up)" and "sched_inv ctx n c s" and "unat n \<le> 10000"
    and "list_all event_documented evs" and "set evs \<subseteq> set all" and "\<forall>part \<in> set (mu_completed_parts (sc_upload s)). part_as_read read_exact all ctx part"
  shows "\<forall>part \<in> set (mu_completed_parts up). part_as_read read_exact all ctx part"
  using assms
proof (induction evs arbitrary: s)
  case Nil
  then show ?case
    by (auto simp: upload_parts_loop.simps[of X read_exact ctx n c "[]" s] Let_def fill_pending_upload split: if_splits)
next
  case (Cons ev evs)
  let ?s = "fill_pending c n s"
  have inv: "sched_inv ctx n c ?s" using fill_pending_inv[OF Cons.prems(2,3)] by blast
  show ?case
  proof (cases "sc_pending ?s = []")
    case True
    with Cons.prems(1,6) show ?thesis
      by (auto simp: upload_parts_loop.simps[of X read_exact ctx n c "ev # evs" s] Let_def fill_pending_upload)
  next
    case False
    with Cons.prems(1) obtain s' where s': "sched_event_step X read_exact ctx ?s ev = Inr s'"
      "upload_parts_loop X read_exact ctx n c evs s' = Some (Inr up)"
      by (auto simp: upload_parts_loop.simps[of X read_exact ctx n c "ev # evs" s] Let_def split: sum.splits)
    then obtain i elapsed send part k where p: "ev = PartDone i elapsed send" "upload_one_part X read_exact ctx k elapsed send = Inr part"
      "record_part part (sc_upload s) = Inr (sc_upload s')"
      by (auto simp: sched_event_step_def Let_def fill_pending_upload split: sched_event.splits sum.splits)
    have "part_as_read read_exact all ctx part" using upload_one_part_sent[OF p(2)] p(1) Cons.prems(4,5) by auto
    moreover have "set (mu_completed_parts (sc_upload s')) = insert part (set (mu_completed_parts (sc_upload s)))"
      using record_part_keeps(3)[OF _ p(3)] Cons.prems(2) by (simp add: sched_inv_def)
    moreover have "sched_inv ctx n c s'" using sched_event_inv[OF inv False _ s'(1)] Cons.prems(4) by simp
    ultimately show ?thesis using Cons.IH[OF s'(2)] Cons.prems(3-6) by simp
  qed
qed

text \<open>Parts recorded under the numbers 1 to the count have the slices of the source in order.\<close>

lemma slices_by_number:
  assumes "map part_num parts = [1..<n + 1]"
  shows "map (\<lambda>part. slice b psize (part_num part - 1)) parts = map (slice b psize) [0..<n]"
proof -
  have "map (\<lambda>part. slice b psize (part_num part - 1)) parts = map (\<lambda>i. slice b psize (i - 1)) (map part_num parts)" by simp
  also have "\<dots> = map (slice b psize) [0..<n]"
    unfolding assms by (simp add: map_Suc_upt[symmetric] comp_def del: map_Suc_upt upt_Suc)
  finally show ?thesis .
qed

section \<open>Runs of a whole upload\<close>

lemma snapshot_loop_bound:
  "snapshot_loop X reads len hasher out = Inr (len', hasher', out') \<Longrightarrow> len \<le> U64_MAX \<Longrightarrow> len' \<le> U64_MAX"
  by (induction X reads len hasher out rule: snapshot_loop.induct)
    (auto simp: checked_add_u64_def split: if_splits option.splits)

lemma prepared_multipart_ok:
  assumes "prepare_multipart X read_file src = Inr p" and "part_count p psize = Inr n"
  shows "source_ok p"
proof (cases src)
  case (SourceBytes b)
  with assms show ?thesis
    by (auto simp: prepare_multipart_def part_count_def source_ok_def source_length_def source_content_def split: if_splits)
next
  case (SourceFile path)
  with assms(1) obtain snap where p: "p = MultipartFile snap" "snapshot_create X read_file path False = Inr snap"
    by (auto simp: prepare_multipart_def)
  then obtain reads hasher where "snapshot_loop X reads 0 None [] = Inr (fs_length snap, hasher, fs_bytes snap)"
    and "length (fs_bytes snap) = fs_length snap"
    by (auto simp: snapshot_create_def split: sum.splits if_splits)
  moreover from snapshot_loop_bound[OF this(1)] have "fs_length snap < 2 ^ 64" by simp
  ultimately show ?thesis by (simp add: p source_ok_def source_length_def source_content_def)
qed

text \<open>How far a run got: it stopped before an upload existed, or the service created one.\<close>

lemma run_cases:
  assumes "run_multipart_upload X read_file read_exact R rq = Some (result, calls)"
  obtains (before) e where "result = Inl e" and "calls = []"
    | (refused) e where "result = Inl e" and "calls = [CreateCall (create_for rq)]" and "re_create R (create_for rq) = Inl e"
    | (failed) src n created failure where "re_create R (create_for rq) = Inr created"
        and "prepare_multipart X read_file (mr_source rq) = Inr src" and "part_count src (mo_part_size (mr_options rq)) = Inr n"
        and "fail_with_abort R (mr_key rq) (cro_upload_id created) (mh_abort (mr_headers rq)) failure = (result, tl calls)"
        and "calls = CreateCall (create_for rq) # tl calls"
        and "\<exists>primary pending.
          upload_parts_loop X read_exact (context_for rq (cro_upload_id created) src) n (mo_concurrency (mr_options rq))
            (re_events R) (sched_start (context_for rq (cro_upload_id created) src)) = Some (Inl (primary, pending)) \<and>
          quiesce_part_requests primary pending (re_now_failed R) (mo_cleanup_timeout (mr_options rq)) (re_settle R) = Some failure"
    | (uploaded) src n created upload where "re_create R (create_for rq) = Inr created"
        and "prepare_multipart X read_file (mr_source rq) = Inr src" and "part_count src (mo_part_size (mr_options rq)) = Inr n"
        and "upload_parts_loop X read_exact (context_for rq (cro_upload_id created) src) n (mo_concurrency (mr_options rq))
               (re_events R) (sched_start (context_for rq (cro_upload_id created) src)) = Some (Inr upload)"
        and "finish_upload R rq (cro_upload_id created) upload = (result, tl calls)" and "calls = CreateCall (create_for rq) # tl calls"
  using assms unfolding run_multipart_upload_def Let_def upload_parts_def
  by (auto split: if_splits sum.splits option.splits prod.splits)

text \<open>The abort that ends a failed run.\<close>

definition abort_for :: "managed_request \<Rightarrow> upload_id \<Rightarrow> abort_request" where
  "abort_for rq uid = \<lparr>ab_key = mr_key rq, ab_upload_id = uid, ab_headers = mh_abort (mr_headers rq)\<rparr>"

text \<open>
  What is reported: the primary error itself when the clean-up worked, and otherwise the primary error with the clean-up's failure
  attached; when quiescing and the abort failed, the abort's failure carries the one of quiescing.
\<close>

definition reported :: "s3_error + request_ids \<Rightarrow> s3_error option \<Rightarrow> s3_error \<Rightarrow> s3_error" where
  "reported abort quiesce primary = (case (abort, quiesce) of
     (Inr _, None) \<Rightarrow> primary
   | (Inl a, None) \<Rightarrow> S3Error (details primary) (Some a)
   | (Inr _, Some q) \<Rightarrow> S3Error (details primary) (Some q)
   | (Inl a, Some q) \<Rightarrow> S3Error (details primary) (Some (S3Error (details a) (Some q))))"

lemma fail_with_abort_result:
  "fail_with_abort R (mr_key rq) uid (mh_abort (mr_headers rq)) failure =
     (Inl (reported (re_abort R (abort_for rq uid) (muf_cleanup_deadline failure)) (muf_quiesce_failure failure) (muf_primary failure)),
      [AbortCall (abort_for rq uid)])"
proof -
  have "(abort_request_new (mr_key rq) uid)\<lparr>ab_headers := mh_abort (mr_headers rq)\<rparr> = abort_for rq uid"
    by (simp add: abort_for_def abort_request_new_def)
  then show ?thesis
    by (simp add: fail_with_abort_def Let_def reported_def attach_cleanup_failure_def with_cleanup_failure_def
        split: sum.split option.split)
qed

lemma quiesce_loop_result: "quiesce_loop k evs = Some q \<Longrightarrow> q = None \<or> q = Some quiesce_timeout \<and> SettleElapsed \<in> set evs"
  by (induction k evs rule: quiesce_loop.induct) auto

lemma quiesce_loop_returns: "k \<le> length evs \<Longrightarrow> \<exists>q. quiesce_loop k evs = Some q"
  by (induction k evs rule: quiesce_loop.induct) auto

text \<open>
  Why the parts of an upload were given up: the scheduler saw a cancellation, the deadline, or the failure of a part with one of
  the upload's numbers.
\<close>

definition part_failure ::
  "'d checksum_ext \<Rightarrow> (string \<Rightarrow> nat \<Rightarrow> nat \<Rightarrow> string + string) \<Rightarrow> part_context \<Rightarrow> nat \<Rightarrow> sched_event \<Rightarrow> s3_error \<Rightarrow> bool" where
  "part_failure X read_exact ctx cnt ev primary \<longleftrightarrow> (case ev of
     CancelSeen \<Rightarrow> primary = cancelled
   | DeadlineSeen \<Rightarrow> primary = transfer_timeout
   | PartDone _ elapsed send \<Rightarrow>
       (\<exists>k. 1 \<le> unat k \<and> unat k \<le> cnt \<and> upload_one_part X read_exact ctx k elapsed send = Inl primary))"

lemma upload_parts_loop_cause:
  assumes "upload_parts_loop X read_exact ctx n c evs s = Some (Inl (primary, pending))" and "sched_inv ctx n c s"
    and "unat n \<le> 10000" and "list_all event_documented evs"
  shows "\<exists>ev \<in> set evs. part_failure X read_exact ctx (unat n) ev primary"
  using assms
proof (induction evs arbitrary: s)
  case Nil
  then show ?case by (simp add: upload_parts_loop.simps[of X read_exact ctx n c "[]" s] Let_def split: if_splits)
next
  case (Cons ev evs)
  let ?s = "fill_pending c n s"
  have inv: "sched_inv ctx n c ?s" using fill_pending_inv[OF Cons.prems(2,3)] by blast
  have ne: "sc_pending ?s \<noteq> []"
    using Cons.prems(1) by (auto simp: upload_parts_loop.simps[of X read_exact ctx n c "ev # evs" s] Let_def)
  have d: "event_documented ev" using Cons.prems(4) by simp
  show ?case
  proof (cases "sched_event_step X read_exact ctx ?s ev")
    case (Inl f)
    with Cons.prems(1) ne have "f = (primary, pending)"
      by (simp add: upload_parts_loop.simps[of X read_exact ctx n c "ev # evs" s] Let_def)
    with Inl have "part_failure X read_exact ctx (unat n) ev primary"
      using sched_event_failure[OF inv ne d, of X read_exact primary pending] by (simp add: part_failure_def)
    then show ?thesis by simp
  next
    case (Inr s')
    moreover have "sched_inv ctx n c s'" using sched_event_inv[OF inv ne d Inr] by blast
    ultimately show ?thesis using Cons.IH[of s'] Cons.prems ne
      by (auto simp: upload_parts_loop.simps[of X read_exact ctx n c "ev # evs" s] Let_def)
  qed
qed

text \<open>
  Why a run failed after its upload was created, from the calls it made before the abort: without a completion, the parts were given up;
  with one, the completion's own error, or the cancellation if it was not answered.
\<close>

definition failure_cause ::
  "'d checksum_ext \<Rightarrow> (string \<Rightarrow> nat \<Rightarrow> nat \<Rightarrow> string + string) \<Rightarrow> run_env \<Rightarrow> part_context \<Rightarrow> nat \<Rightarrow> remote_call list \<Rightarrow> s3_error \<Rightarrow> bool" where
  "failure_cause X read_exact R ctx cnt before primary \<longleftrightarrow>
     before = [] \<and> (\<exists>ev \<in> set (re_events R). part_failure X read_exact ctx cnt ev primary) \<or>
     (\<exists>completion. before = [CompleteCall completion] \<and>
       (re_complete R completion = Some (Inl primary) \<or> re_complete R completion = None \<and> primary = cancelled))"

lemma finish_upload_cases:
  assumes "finish_upload R rq uid upload = (result, calls)"
  obtains (completed) completion out where "result = Inr out" and "calls = [CompleteCall completion]"
        and "re_complete R completion = Some (Inr out)"
        and "completion = \<lparr>cmp_key = mu_key upload, cmp_upload_id = mu_upload_id upload,
               cmp_completed_parts = mu_completed_parts upload, cmp_headers = mh_complete (mr_headers rq)\<rparr>"
    | (rejected) e where "complete_request_new (mu_key upload) (mu_upload_id upload) (mu_completed_parts upload) = Inl e"
        and "calls = [AbortCall (abort_for rq uid)]"
        and "result = Inl (reported (re_abort R (abort_for rq uid) (re_now_failed R + mo_cleanup_timeout (mr_options rq))) None
               (integrity (multipart_error_display e)))"
    | (incomplete) completion primary where "calls = [CompleteCall completion, AbortCall (abort_for rq uid)]"
        and "re_complete R completion = Some (Inl primary) \<or> re_complete R completion = None \<and> primary = cancelled"
        and "result = Inl (reported (re_abort R (abort_for rq uid) (re_now_failed R + mo_cleanup_timeout (mr_options rq))) None primary)"
proof (cases "complete_request_new (mu_key upload) (mu_upload_id upload) (mu_completed_parts upload)")
  case (Inl e)
  with assms show ?thesis
    by (intro rejected[of e]) (simp_all add: finish_upload_def Let_def fail_with_abort_result managed_upload_failure_new_def)
next
  case (Inr completion)
  let ?c = "completion\<lparr>cmp_headers := mh_complete (mr_headers rq)\<rparr>"
  have c: "?c = \<lparr>cmp_key = mu_key upload, cmp_upload_id = mu_upload_id upload,
      cmp_completed_parts = mu_completed_parts upload, cmp_headers = mh_complete (mr_headers rq)\<rparr>"
    using Inr by (auto simp: complete_request_new_def)
  show ?thesis
  proof (cases "\<exists>out. re_complete R ?c = Some (Inr out)")
    case True
    then obtain out where "re_complete R ?c = Some (Inr out)" by blast
    with assms Inr c show ?thesis by (intro completed[of out ?c]) (simp_all add: finish_upload_def Let_def)
  next
    case False
    then obtain primary where p: "re_complete R ?c = Some (Inl primary) \<or> re_complete R ?c = None \<and> primary = cancelled"
      by (cases "re_complete R ?c"; cases "the (re_complete R ?c)") auto
    with assms Inr have "calls = [CompleteCall ?c, AbortCall (abort_for rq uid)] \<and>
        result = Inl (reported (re_abort R (abort_for rq uid) (re_now_failed R + mo_cleanup_timeout (mr_options rq))) None primary)"
      by (auto simp: finish_upload_def Let_def fail_with_abort_result managed_upload_failure_new_def)
    with p show ?thesis using incomplete[of ?c primary] by blast
  qed
qed

lemma managed_upload_complete_facts:
  assumes "run_multipart_upload X read_file read_exact R rq = Some (Inr out, calls)"
    and "list_all event_documented (re_events R)" and "0 < mo_concurrency (mr_options rq)"
  shows "\<exists>src created completion. prepare_multipart X read_file (mr_source rq) = Inr src \<and>
    re_create R (create_for rq) = Inr created \<and> re_complete R completion = Some (Inr out) \<and>
    calls = [CreateCall (create_for rq), CompleteCall completion] \<and>
    cmp_key completion = mr_key rq \<and> cmp_upload_id completion = cro_upload_id created \<and>
    map part_num (cmp_completed_parts completion) =
      [1..<div_ceil (length (source_content src)) (mo_part_size (mr_options rq)) + 1] \<and>
    (\<exists>n. part_count src (mo_part_size (mr_options rq)) = Inr n) \<and>
    (\<forall>part \<in> set (cmp_completed_parts completion).
       part_as_read read_exact (re_events R) (context_for rq (cro_upload_id created) src) part)"
  using assms(1)
proof (cases rule: run_cases)
  case (uploaded src n created upload)
  have ok: "source_ok src" by (rule prepared_multipart_ok[OF uploaded(2,3)])
  note n = part_count_Inr[OF ok uploaded(3)]
  from upload_parts_loop_Inr[OF uploaded(4) sched_start_inv n(3) assms(3,2)]
  have up: "mu_key upload = mr_key rq" "mu_upload_id upload = cro_upload_id created"
    "map part_num (mu_completed_parts upload) = [1..<unat n + 1]" by (simp_all add: context_for_def)
  have sent: "\<forall>part \<in> set (mu_completed_parts upload). part_as_read read_exact (re_events R) (context_for rq (cro_upload_id created) src) part"
    by (rule upload_parts_loop_sent[OF uploaded(4) sched_start_inv n(3) assms(2)]) (simp_all add: sched_start_def multipart_upload_new_def)
  from uploaded(5) show ?thesis
  proof (cases rule: finish_upload_cases)
    case (completed completion out')
    have "cmp_key completion = mu_key upload" "cmp_upload_id completion = mu_upload_id upload"
      "cmp_completed_parts completion = mu_completed_parts upload"
      by (simp_all add: completed(4))
    then show ?thesis using uploaded(1-3,6) completed(1-3) up n(1) sent by (intro exI[of _ src] exI[of _ created] exI[of _ completion]) simp
  qed simp_all
next
  case (failed src n created failure)
  then show ?thesis by (simp add: fail_with_abort_result)
qed simp_all

text \<open>
  A managed upload that succeeds is complete: the run created one upload, aborted nothing, and completed
  exactly that upload with the parts 1 to the part count, each once and in ascending order, the count being the source
  length divided by the part size, rounded up.
\<close>

lemma managed_upload_complete:
  assumes "run_multipart_upload X read_file read_exact R rq = Some (Inr out, calls)"
    and "list_all event_documented (re_events R)" and "0 < mo_concurrency (mr_options rq)"
  shows "\<exists>src created completion. prepare_multipart X read_file (mr_source rq) = Inr src \<and>
    re_create R (create_for rq) = Inr created \<and> re_complete R completion = Some (Inr out) \<and>
    calls = [CreateCall (create_for rq), CompleteCall completion] \<and>
    cmp_key completion = mr_key rq \<and> cmp_upload_id completion = cro_upload_id created \<and>
    map part_num (cmp_completed_parts completion) =
      [1..<div_ceil (length (source_content src)) (mo_part_size (mr_options rq)) + 1]"
  using managed_upload_complete_facts[OF assms] by blast

text \<open>
  Property C7. No upload is left behind: when a run fails after the service created an upload, its last call aborts
  exactly that upload, and no other abort was made. The error reported is the one that made the upload fail: the cancellation, the deadline or
  a part's own error as the scheduler saw it, or the error of the completion that was sent before the abort. The abort ran under the clean-up
  deadline, and when it or the quiescing failed too, that failure is attached to the primary error instead of being lost or put in its place.
\<close>

theorem failed_upload_is_aborted:
  assumes "run_multipart_upload X read_file read_exact R rq = Some (Inl e, calls)" and "calls \<noteq> []"
    and "re_create R (create_for rq) = Inr created"
    and "list_all event_documented (re_events R)" and "0 < mo_concurrency (mr_options rq)"
  shows "\<exists>src before primary quiesce. prepare_multipart X read_file (mr_source rq) = Inr src \<and>
    calls = CreateCall (create_for rq) # before @ [AbortCall (abort_for rq (cro_upload_id created))] \<and>
    failure_cause X read_exact R (context_for rq (cro_upload_id created) src)
      (div_ceil (length (source_content src)) (mo_part_size (mr_options rq))) before primary \<and>
    (quiesce = None \<or> quiesce = Some quiesce_timeout \<and> before = [] \<and> SettleElapsed \<in> set (re_settle R)) \<and>
    e = reported (re_abort R (abort_for rq (cro_upload_id created)) (re_now_failed R + mo_cleanup_timeout (mr_options rq))) quiesce primary"
  using assms(1)
proof (cases rule: run_cases)
  case (failed src n created' failure)
  have cr: "created' = created" using failed(1) assms(3) by simp
  note n = part_count_Inr[OF prepared_multipart_ok[OF failed(2,3)] failed(3)]
  obtain primary pending q where
    l: "upload_parts_loop X read_exact (context_for rq (cro_upload_id created) src) n (mo_concurrency (mr_options rq))
          (re_events R) (sched_start (context_for rq (cro_upload_id created) src)) = Some (Inl (primary, pending))"
    and q: "quiesce_loop (length pending) (re_settle R) = Some q"
    and f: "failure = \<lparr>muf_primary = primary, muf_cleanup_deadline = re_now_failed R + mo_cleanup_timeout (mr_options rq), muf_quiesce_failure = q\<rparr>"
    using failed(6) unfolding cr by (auto simp: quiesce_part_requests_def managed_upload_failure_new_def)
  have "calls = CreateCall (create_for rq) # [] @ [AbortCall (abort_for rq (cro_upload_id created))]"
    "e = reported (re_abort R (abort_for rq (cro_upload_id created)) (re_now_failed R + mo_cleanup_timeout (mr_options rq))) q primary"
    using failed(4,5) unfolding cr fail_with_abort_result f by simp_all
  moreover have "failure_cause X read_exact R (context_for rq (cro_upload_id created) src)
      (div_ceil (length (source_content src)) (mo_part_size (mr_options rq))) [] primary"
    using upload_parts_loop_cause[OF l sched_start_inv n(3) assms(4)] n(1) by (simp add: failure_cause_def)
  ultimately show ?thesis using failed(2) quiesce_loop_result[OF q] by blast
next
  case (uploaded src n created' upload)
  have cr: "created' = created" using uploaded(1) assms(3) by simp
  have ok: "source_ok src" by (rule prepared_multipart_ok[OF uploaded(2,3)])
  from upload_parts_loop_Inr[OF uploaded(4) sched_start_inv part_count_Inr(3)[OF ok uploaded(3)] assms(5,4)]
  have up: "upload_ok upload" "map part_num (mu_completed_parts upload) = [1..<unat n + 1]" by simp_all
  have "1 \<le> unat n" using part_count_nonzero[OF ok uploaded(3)] .
  then have "mu_completed_parts upload \<noteq> []" using up(2) by auto
  with up(1) have accepted: "complete_request_new (mu_key upload) (mu_upload_id upload) (mu_completed_parts upload) \<noteq> Inl x" for x
    by (auto simp: complete_request_new_def validate_completed_parts_Inr_iff[THEN iffD2] upload_ok_def)
  from uploaded(5)[unfolded cr] show ?thesis
  proof (cases rule: finish_upload_cases)
    case (incomplete completion primary)
    then have "failure_cause X read_exact R (context_for rq (cro_upload_id created) src)
        (div_ceil (length (source_content src)) (mo_part_size (mr_options rq))) [CompleteCall completion] primary"
      by (auto simp: failure_cause_def)
    with incomplete uploaded(2,6) show ?thesis
      by (intro exI[of _ src] exI[of _ "[CompleteCall completion]"] exI[of _ primary] exI[of _ None]) simp
  qed (use accepted in simp_all)
qed (use assms in simp_all)

lemma upload_parts_returns:
  assumes "list_all event_documented evs" and "unat n \<le> 10000" and "10000 \<le> length evs" and "c \<le> length settle"
  shows "\<exists>r. upload_parts X read_exact ctx n c evs now t settle = Some r"
proof -
  have "unat n \<le> length evs + length (mu_completed_parts (sc_upload (sched_start ctx)))" using assms(2,3) by simp
  from upload_parts_loop_returns[OF sched_start_inv assms(2,1) this] obtain r where
    r: "upload_parts_loop X read_exact ctx n c evs (sched_start ctx) = Some r" by blast
  show ?thesis
  proof (cases r)
    case (Inl f)
    obtain primary pending where f: "f = (primary, pending)" by (cases f)
    then have "length pending \<le> length settle"
      using upload_parts_loop_Inl[OF _ sched_start_inv assms(2,1)] r Inl assms(4) by fastforce
    from quiesce_loop_returns[OF this] show ?thesis
      using r Inl f by (auto simp: upload_parts_def quiesce_part_requests_def)
  qed (simp add: upload_parts_def r)
qed

text \<open>
  Property C31. A managed upload always ends: whatever the service, the file and the caller do, a run returns a result
  once as many parts have finished as an upload can have, and once quiescing saw each part in flight settle or its
  timeout.
\<close>

theorem managed_upload_returns:
  assumes "list_all event_documented (re_events R)" and "10000 \<le> length (re_events R)"
    and "mo_concurrency (mr_options rq) \<le> length (re_settle R)"
  shows "\<exists>result calls. run_multipart_upload X read_file read_exact R rq = Some (result, calls)"
proof (cases "and_then (prepare_multipart X read_file (mr_source rq)) (\<lambda>src.
               and_then (part_count src (mo_part_size (mr_options rq))) (\<lambda>n. Inr (src, n)))")
  case (Inl e)
  then show ?thesis by (simp add: run_multipart_upload_def Let_def)
next
  case (Inr x)
  obtain src n where x: "x = (src, n)" by (cases x)
  with Inr have p: "prepare_multipart X read_file (mr_source rq) = Inr src" "part_count src (mo_part_size (mr_options rq)) = Inr n"
    by auto
  have n: "unat n \<le> 10000" by (rule part_count_Inr(3)[OF prepared_multipart_ok[OF p] p(2)])
  show ?thesis
  proof (cases "re_create R (create_for rq)")
    case (Inr created)
    from upload_parts_returns[OF assms(1) n assms(2,3)] obtain r where
      "upload_parts X read_exact (context_for rq (cro_upload_id created) src) n (mo_concurrency (mr_options rq)) (re_events R)
         (re_now_failed R) (mo_cleanup_timeout (mr_options rq)) (re_settle R) = Some r" by blast
    with Inr p show ?thesis
      by (cases r) (auto simp: run_multipart_upload_def Let_def split: prod.splits)
  qed (use p in \<open>auto simp: run_multipart_upload_def Let_def\<close>)
qed

section \<open>A concrete run\<close>

definition example_part_sender :: part_sender where
  "example_part_sender rq = Inr \<lparr>upo_part_number = up_part_number rq, upo_e_tag = ''t'', upo_checksum = no_checksum,
     upo_request_ids = no_request_ids\<rparr>"

definition example_managed :: managed_request where
  "example_managed = \<lparr>mr_key = ObjectKey ''k'', mr_source = SourceBytes ''ab'', mr_content_type = None, mr_user_metadata = [],
     mr_options = \<lparr>mo_part_size = 2, mo_concurrency = 1, mo_transfer_timeout = 1, mo_cleanup_timeout = 1\<rparr>,
     mr_checksum_algorithm = None, mr_headers = no_managed_headers\<rparr>"

definition example_completion :: complete_output where
  "example_completion = \<lparr>cmo_location = None, cmo_bucket = None, cmo_key = None, cmo_e_tag = Some ''e'', cmo_version_id = None,
     cmo_checksum = no_checksum, cmo_request_ids = no_request_ids\<rparr>"

definition example_run :: "sched_event list \<Rightarrow> run_env" where
  "example_run evs = \<lparr>re_cancelled_preparing = False, re_prepare_elapsed = False, re_cancelled_prepared = False,
     re_create = (\<lambda>rq. Inr (create_output_new None (cr_key rq) (UploadId ''u'') None None)), re_events = evs,
     re_now_failed = 0, re_settle = [Settled], re_complete = (\<lambda>_. Some (Inr example_completion)), re_abort = (\<lambda>_ _. Inr no_request_ids)\<rparr>"

lemma example_sender_documented: "sender_documented example_part_sender"
  by (simp add: sender_documented_def example_part_sender_def)

lemma example_upload_parts:
  "\<exists>part. upload_parts_loop text_ext slice_reader (context_for example_managed (UploadId ''u'') (MultipartBytes ''ab'')) 1 1
     [PartDone 0 False example_part_sender] (sched_start (context_for example_managed (UploadId ''u'') (MultipartBytes ''ab''))) =
     Some (Inr \<lparr>mu_key = ObjectKey ''k'', mu_upload_id = UploadId ''u'', mu_completed_parts = [part]\<rparr>)"
proof -
  have b: "\<not> blank_str ''t''" by code_simp
  show ?thesis
    by (simp add: upload_parts_loop.simps fill_pending.simps sched_start_def context_for_def example_managed_def
        sched_event_step_def upload_one_part_def part_request_def read_part_def checked_mul_u64_def source_length_def
        checked_sub_nat_def part_number_new_def PART_MAX_def example_part_sender_def up_with_checksum_def
        upload_part_request_new_def completed_part_new_def b Let_def record_part_def multipart_upload_new_def binary_search_def word_le_nat_alt)
qed

lemma example_run_succeeds:
  "\<exists>calls. run_multipart_upload text_ext (\<lambda>_. Inl ''error'') slice_reader
     (example_run [PartDone 0 False example_part_sender]) example_managed = Some (Inr example_completion, calls)"
proof -
  have c: "part_count (MultipartBytes ''ab'') 2 = Inr 1"
    by (simp add: part_count_def source_length_def div_ceil_def PART_MAX_def)
  obtain part where u: "upload_parts_loop text_ext slice_reader (context_for example_managed (UploadId ''u'') (MultipartBytes ''ab'')) 1 1
     [PartDone 0 False example_part_sender] (sched_start (context_for example_managed (UploadId ''u'') (MultipartBytes ''ab''))) =
     Some (Inr \<lparr>mu_key = ObjectKey ''k'', mu_upload_id = UploadId ''u'', mu_completed_parts = [part]\<rparr>)"
    using example_upload_parts by blast
  have m: "mr_source example_managed = SourceBytes ''ab''" "mo_part_size (mr_options example_managed) = 2"
    "mo_concurrency (mr_options example_managed) = 1" by (simp_all add: example_managed_def)
  show ?thesis using u c
    by (simp add: run_multipart_upload_def m prepare_multipart_def example_run_def create_output_new_def upload_parts_def
        finish_upload_def complete_request_new_def validate_completed_parts_def Let_def)
qed

lemma managed_upload_complete_witness:
  "\<exists>completion (created :: create_output) calls. run_multipart_upload text_ext (\<lambda>_. Inl ''error'') slice_reader
       (example_run [PartDone 0 False example_part_sender]) example_managed = Some (Inr example_completion, calls) \<and>
     calls = [CreateCall (create_for example_managed), CompleteCall completion] \<and> cmp_upload_id completion = cro_upload_id created"
proof -
  obtain calls where r: "run_multipart_upload text_ext (\<lambda>_. Inl ''error'') slice_reader
       (example_run [PartDone 0 False example_part_sender]) example_managed = Some (Inr example_completion, calls)"
    using example_run_succeeds by blast
  have d: "list_all event_documented (re_events (example_run [PartDone 0 False example_part_sender]))"
    by (simp add: example_run_def example_sender_documented)
  have "0 < mo_concurrency (mr_options example_managed)" by (simp add: example_managed_def)
  from managed_upload_complete[OF r d this] r show ?thesis by blast
qed

lemma example_run_cancelled:
  "\<exists>e calls. run_multipart_upload text_ext (\<lambda>_. Inl ''error'') slice_reader (example_run [CancelSeen]) example_managed =
     Some (Inl e, calls) \<and> calls \<noteq> []"
proof -
  have c: "part_count (MultipartBytes ''ab'') 2 = Inr 1"
    by (simp add: part_count_def source_length_def div_ceil_def PART_MAX_def)
  have u: "upload_parts_loop text_ext slice_reader (context_for example_managed (UploadId ''u'') (MultipartBytes ''ab'')) 1 1
     [CancelSeen] (sched_start (context_for example_managed (UploadId ''u'') (MultipartBytes ''ab''))) = Some (Inl (cancelled, [1]))"
    by (simp add: upload_parts_loop.simps fill_pending.simps sched_start_def context_for_def example_managed_def sched_event_step_def)
  have m: "mr_source example_managed = SourceBytes ''ab''" "mo_part_size (mr_options example_managed) = 2"
    "mo_concurrency (mr_options example_managed) = 1" by (simp_all add: example_managed_def)
  show ?thesis using u c
    by (simp add: run_multipart_upload_def m prepare_multipart_def example_run_def create_output_new_def upload_parts_def
        quiesce_part_requests_def fail_with_abort_def Let_def)
qed

theorem failed_upload_is_aborted_witness:
  "\<exists>e calls before. run_multipart_upload text_ext (\<lambda>_. Inl ''error'') slice_reader (example_run [CancelSeen]) example_managed =
       Some (Inl e, calls) \<and> calls = CreateCall (create_for example_managed) # before @ [AbortCall (abort_for example_managed (UploadId ''u''))] \<and>
     e = cancelled"
proof -
  obtain e calls where r: "run_multipart_upload text_ext (\<lambda>_. Inl ''error'') slice_reader (example_run [CancelSeen]) example_managed =
     Some (Inl e, calls)" "calls \<noteq> []" using example_run_cancelled by blast
  let ?R = "example_run [CancelSeen]"
  have "re_create ?R (create_for example_managed) =
      Inr (create_output_new None (cr_key (create_for example_managed)) (UploadId ''u'') None None)" by (simp add: example_run_def)
  moreover have "list_all event_documented (re_events ?R)" "0 < mo_concurrency (mr_options example_managed)"
    by (simp_all add: example_run_def example_managed_def)
  ultimately obtain src before primary quiesce cnt where
    c: "calls = CreateCall (create_for example_managed) # before @ [AbortCall (abort_for example_managed (UploadId ''u''))]"
      "failure_cause text_ext slice_reader ?R (context_for example_managed (UploadId ''u'') src) cnt before primary"
      "quiesce = None \<or> SettleElapsed \<in> set (re_settle ?R)"
      "e = reported (re_abort ?R (abort_for example_managed (UploadId ''u'')) (re_now_failed ?R + mo_cleanup_timeout (mr_options example_managed)))
             quiesce primary"
    using failed_upload_is_aborted[OF r] by (simp add: create_output_new_def) blast
  have R: "re_events ?R = [CancelSeen]" "re_settle ?R = [Settled]" "re_abort ?R = (\<lambda>_ _. Inr no_request_ids)"
    "re_complete ?R = (\<lambda>_. Some (Inr example_completion))" by (simp_all add: example_run_def)
  have "e = primary" using c(3,4) unfolding R by (simp add: reported_def)
  then show ?thesis using r(1) c(1,2) unfolding failure_cause_def R by (auto simp: part_failure_def)
qed

theorem managed_upload_returns_witness:
  "\<exists>result calls. run_multipart_upload text_ext (\<lambda>_. Inl ''error'') slice_reader
     (example_run (replicate 10000 (PartDone 0 False example_part_sender))) example_managed = Some (result, calls)"
  by (rule managed_upload_returns) (simp_all add: example_run_def example_managed_def example_sender_documented list_all_iff)

end
