(* ===== verification/Protocol.thy ===== *)
theory Protocol
  imports Response Multipart_Types Percent
begin

text \<open>
  The XML protocol, \<open>src/protocol\<close>: the bounded entry points that reject oversized, dangerous and non-UTF-8 documents
  before the XML library sees them, the root checks, the bounded writer, and for every document the conversion into the
  client's types with its field validation. The XML library (quick-xml with serde) is the parameter \<open>xml_ext\<close>: the event
  reader, one deserializer per document, and the pieces its serializer writes. RFC 3339 parsing is a parameter too.
\<close>

section \<open>Documents\<close>

record error_document =
  ed_code :: "string option"
  ed_message :: "string option"
  ed_request_id :: "string option"
  ed_host_id :: "string option"
  ed_resource :: "string option"
  ed_region :: "string option"

record delete_entry =
  dn_key :: string
  dn_version_id :: "string option"
  dn_e_tag :: "string option"

record delete_document =
  dd_objects :: "delete_entry list"
  dd_quiet :: bool

record deleted_document =
  ddoc_key :: string
  ddoc_version_id :: "string option"
  ddoc_delete_marker :: bool
  ddoc_delete_marker_version_id :: "string option"

record delete_error_document =
  derr_key :: string
  derr_version_id :: "string option"
  derr_code :: "string option"
  derr_message :: "string option"

record delete_result_document =
  dr_deleted :: "deleted_document list"
  dr_errors :: "delete_error_document list"

record owner_document =
  od_id :: "string option"
  od_display_name :: "string option"

record object_document =
  obd_key :: string
  obd_last_modified :: "string option"
  obd_e_tag :: "string option"
  obd_size :: nat
  obd_storage_class :: "string option"
  obd_owner :: "owner_document option"
  obd_checksum_algorithms :: "string list"
  obd_checksum_type :: "string option"

datatype common_prefix_document = CommonPrefix (cpd_prefix: string)

record list_bucket_document =
  lbd_encoding_type :: "string option"
  lbd_contents :: "object_document list"
  lbd_common_prefixes :: "common_prefix_document list"
  lbd_is_truncated :: bool
  lbd_next_continuation_token :: "string option"
  lbd_key_count :: "nat option"

record completed_part_document =
  cpd_part_number :: u16
  cpd_e_tag :: string
  cpd_crc32 :: "string option"
  cpd_crc32c :: "string option"
  cpd_crc64_nvme :: "string option"
  cpd_sha1 :: "string option"
  cpd_sha256 :: "string option"

datatype complete_document = CompleteDocument (cd_parts: "completed_part_document list")

record complete_result_document =
  crd_location :: "string option"
  crd_bucket :: "string option"
  crd_key :: "string option"
  crd_e_tag :: "string option"
  crd_crc32 :: "string option"
  crd_crc32c :: "string option"
  crd_crc64_nvme :: "string option"
  crd_sha1 :: "string option"
  crd_sha256 :: "string option"

record copy_result_document =
  cprd_e_tag :: "string option"
  cprd_last_modified :: "string option"
  cprd_crc32 :: "string option"
  cprd_crc32c :: "string option"
  cprd_crc64_nvme :: "string option"
  cprd_sha1 :: "string option"
  cprd_sha256 :: "string option"

record create_document =
  cdoc_bucket :: "string option"
  cdoc_key :: string
  cdoc_upload_id :: string
  cdoc_checksum_algorithm :: "string option"
  cdoc_checksum_type :: "string option"

record upload_document =
  ud_key :: string
  ud_upload_id :: string
  ud_initiated :: "string option"
  ud_storage_class :: "string option"

record list_uploads_document =
  lud_uploads :: "upload_document list"
  lud_common_prefixes :: "common_prefix_document list"
  lud_is_truncated :: bool
  lud_next_key_marker :: "string option"
  lud_next_upload_id_marker :: "string option"

record part_document =
  pd_part_number :: u16
  pd_e_tag :: string
  pd_last_modified :: "string option"
  pd_size :: nat
  pd_crc32 :: "string option"
  pd_crc32c :: "string option"
  pd_crc64_nvme :: "string option"
  pd_sha1 :: "string option"
  pd_sha256 :: "string option"

record list_parts_document =
  lpd_parts :: "part_document list"
  lpd_is_truncated :: bool
  lpd_next_part_number_marker :: "u16 option"
  lpd_checksum_algorithm :: "string option"
  lpd_checksum_type :: "string option"

section \<open>The XML library\<close>

text \<open>The events the reader reports, with local names; after the last one it reports the end of the input.\<close>

datatype xml_event =
    StartEvent string | EmptyEvent string | DeclEvent | TextEvent | CommentEvent | PiEvent | DocTypeEvent
  | EofEvent | OtherEvent | ReaderError string

text \<open>
  A serializer is the list of pieces it writes and the error it ends with, if any; a deserializer gives the document or
  the text of its error.
\<close>

type_synonym serializer_run = "string list \<times> string option"

record xml_ext =
  xx_events :: "string \<Rightarrow> xml_event list"
  xx_utf8_error :: "string \<Rightarrow> string"
  xx_rfc3339 :: "string \<Rightarrow> string + offset_date_time"
  xx_write_delete :: "delete_document \<Rightarrow> serializer_run"
  xx_write_complete :: "complete_document \<Rightarrow> serializer_run"
  xx_error :: "string \<Rightarrow> string + error_document"
  xx_delete_result :: "string \<Rightarrow> string + delete_result_document"
  xx_list_bucket :: "string \<Rightarrow> string + list_bucket_document"
  xx_complete_result :: "string \<Rightarrow> string + complete_result_document"
  xx_copy_result :: "string \<Rightarrow> string + copy_result_document"
  xx_create :: "string \<Rightarrow> string + create_document"
  xx_list_uploads :: "string \<Rightarrow> string + list_uploads_document"
  xx_list_parts :: "string \<Rightarrow> string + list_parts_document"

section \<open>Bounded parsing and writing\<close>

fun windows :: "nat \<Rightarrow> 'a list \<Rightarrow> 'a list list" where
  "windows k [] = []"
| "windows k (x # xs) = (if k \<le> length (x # xs) then take k (x # xs) # windows k xs else [])"

definition ascii_contains_ignore_case :: "string \<Rightarrow> string \<Rightarrow> bool" where
  "ascii_contains_ignore_case haystack needle \<longleftrightarrow>
     list_ex (\<lambda>w. list_all (\<lambda>(l, r). to_ascii_lowercase l = to_ascii_lowercase r) (zip w needle)) (windows (length needle) haystack)"

definition reject_dangerous_declarations :: "string \<Rightarrow> protocol_error + unit" where
  "reject_dangerous_declarations body =
     reject_if (ascii_contains_ignore_case body ''<!DOCTYPE'' \<or> ascii_contains_ignore_case body ''<!ENTITY'')
       (InvalidXml ''DTD and entity declarations are not accepted'') (Inr ())"

definition from_utf8 :: "xml_ext \<Rightarrow> string \<Rightarrow> protocol_error + string" where
  "from_utf8 Y body = (if valid_utf8 body then Inr body else Inl (InvalidXml (xx_utf8_error Y body)))"

definition parse_bounded :: "xml_ext \<Rightarrow> (string \<Rightarrow> string + 'a) \<Rightarrow> string \<Rightarrow> nat \<Rightarrow> protocol_error + 'a" where
  "parse_bounded Y de body maximum =
     reject_if (maximum < length body) (Oversized (length body) maximum)
     (and_then (reject_dangerous_declarations body) (\<lambda>_.
      and_then (from_utf8 Y body) (\<lambda>text.
      map_err InvalidXml (de text))))"

text \<open>The root scanners share their loop: the name of the first element, or why there is none.\<close>

fun root_loop :: "xml_event list \<Rightarrow> protocol_error + string" where
  "root_loop [] = Inl (InvalidXml ''missing root element'')"
| "root_loop (StartEvent name # evs) = Inr name"
| "root_loop (EmptyEvent name # evs) = Inr name"
| "root_loop (DocTypeEvent # evs) = Inl (InvalidXml ''DTD declarations are not accepted'')"
| "root_loop (EofEvent # evs) = Inl (InvalidXml ''missing root element'')"
| "root_loop (ReaderError e # evs) = Inl (InvalidXml e)"
| "root_loop (_ # evs) = root_loop evs"

definition expect_root :: "xml_ext \<Rightarrow> string \<Rightarrow> nat \<Rightarrow> string list \<Rightarrow> protocol_error + unit" where
  "expect_root Y body maximum expected =
     reject_if (maximum < length body) (Oversized (length body) maximum)
     (and_then (reject_dangerous_declarations body) (\<lambda>_.
      and_then (from_utf8 Y body) (\<lambda>text.
      and_then (root_loop (xx_events Y text)) (\<lambda>name.
      if name \<in> set expected then Inr () else Inl (InvalidXml (''unexpected root element '' @ name))))))"

definition root_is_error :: "xml_ext \<Rightarrow> string \<Rightarrow> nat \<Rightarrow> protocol_error + bool" where
  "root_is_error Y body maximum =
     reject_if (maximum < length body) (Oversized (length body) maximum)
     (and_then (from_utf8 Y body) (\<lambda>text.
      and_then (root_loop (xx_events Y text)) (\<lambda>name. Inr (name = ''Error''))))"

record limited_string =
  lim_value :: string
  lim_maximum :: nat
  lim_exceeded :: bool

definition limited_string_new :: "nat \<Rightarrow> limited_string" where
  "limited_string_new maximum = \<lparr>lim_value = [], lim_maximum = maximum, lim_exceeded = False\<rparr>"

text \<open>Writing one piece: \<open>None\<close> is \<open>fmt::Error\<close>. Lengths stay below \<open>2 ^ 64\<close>, so the addition does not overflow.\<close>

definition write_str :: "string \<Rightarrow> limited_string \<Rightarrow> unit option \<times> limited_string" where
  "write_str v s =
     (if lim_maximum s < length (lim_value s) + length v then (None, s\<lparr>lim_exceeded := True\<rparr>)
      else (Some (), s\<lparr>lim_value := lim_value s @ v\<rparr>))"

fun to_writer :: "string list \<Rightarrow> limited_string \<Rightarrow> unit option \<times> limited_string" where
  "to_writer [] s = (Some (), s)"
| "to_writer (p # ps) s = (case write_str p s of (None, s') \<Rightarrow> (None, s') | (Some _, s') \<Rightarrow> to_writer ps s')"

definition serialize_bounded :: "serializer_run \<Rightarrow> nat \<Rightarrow> protocol_error + string" where
  "serialize_bounded run maximum =
     (let (written, s) = to_writer (fst run) (limited_string_new maximum) in
      case (written, snd run) of
        (Some _, None) \<Rightarrow> Inr (lim_value s)
      | (_, e) \<Rightarrow> Inl (if lim_exceeded s then Oversized (min (maximum + 1) (2 ^ 64 - 1)) maximum
                        else InvalidXml (case e of Some m \<Rightarrow> m | None \<Rightarrow> [])))"

section \<open>Errors and field validation\<close>

definition object_key_error_display :: "object_key_error \<Rightarrow> string" where
  "object_key_error_display e = (case e of
     KeyEmpty \<Rightarrow> ''an S3 object key cannot be empty''
   | KeyTooLong n m \<Rightarrow> ''S3 object key is '' @ to_string n @ '' bytes; the maximum is '' @ to_string m)"

definition upload_id_error_display :: "upload_id_error \<Rightarrow> string" where
  "upload_id_error_display e = (case e of
     IdEmpty \<Rightarrow> ''multipart upload ID cannot be empty''
   | IdTooLong n m \<Rightarrow> ''multipart upload ID is '' @ to_string n @ '' bytes; the maximum is '' @ to_string m
   | IdAsciiControl i \<Rightarrow> ''multipart upload ID contains an ASCII control at byte '' @ to_string i)"

definition key_field :: "string \<Rightarrow> string \<Rightarrow> protocol_error + object_key" where
  "key_field field v = map_err (\<lambda>e. InvalidField field (object_key_error_display e)) (object_key_new v)"

definition date_field :: "xml_ext \<Rightarrow> string \<Rightarrow> string \<Rightarrow> protocol_error + offset_date_time" where
  "date_field Y field v = map_err (InvalidField field) (xx_rfc3339 Y v)"

definition url_field :: "xml_ext \<Rightarrow> string \<Rightarrow> string \<Rightarrow> protocol_error + string" where
  "url_field Y field v = map_err (\<lambda>e. InvalidField field (case e of
       InvalidPercentEncoding \<Rightarrow> ''invalid URL percent encoding''
     | DecodedNotUtf8 \<Rightarrow> ''URL-decoded value is not UTF-8: '' @ xx_utf8_error Y (case decode_loop v of Some d \<Rightarrow> d | None \<Rightarrow> [])))
     (decode_url_field v)"

definition parse_upload_id :: "string \<Rightarrow> string \<Rightarrow> protocol_error + upload_id" where
  "parse_upload_id v field = map_err (\<lambda>e. InvalidField field (upload_id_error_display e)) (upload_id_new v)"

definition parse_last_modified :: "xml_ext \<Rightarrow> string option \<Rightarrow> protocol_error + offset_date_time option" where
  "parse_last_modified Y v = map_transpose (date_field Y ''LastModified'') v"

section \<open>The documents of the service\<close>

definition parse_s3_error :: "xml_ext \<Rightarrow> string \<Rightarrow> nat \<Rightarrow> protocol_error + parsed_s3_error" where
  "parse_s3_error Y body maximum =
     and_then (expect_root Y body maximum [''Error'']) (\<lambda>_.
     and_then (parse_bounded Y (xx_error Y) body maximum) (\<lambda>d.
     Inr \<lparr>pe_code = ed_code d, pe_message = ed_message d, pe_request_id = ed_request_id d, pe_host_id = ed_host_id d,
       pe_resource = ed_resource d, pe_region = ed_region d\<rparr>))"

definition serialize_delete_objects :: "xml_ext \<Rightarrow> delete_objects_request \<Rightarrow> nat \<Rightarrow> protocol_error + string" where
  "serialize_delete_objects Y rq maximum =
     serialize_bounded (xx_write_delete Y
       \<lparr>dd_objects = map (\<lambda>ob. \<lparr>dn_key = key_str (doi_key ob), dn_version_id = doi_version_id ob, dn_e_tag = doi_if_match ob\<rparr>)
           (dos_objects rq),
        dd_quiet = dos_quiet rq\<rparr>) maximum"

definition deleted_of :: "deleted_document \<Rightarrow> protocol_error + deleted_object" where
  "deleted_of item = and_then (key_field ''Deleted.Key'' (ddoc_key item)) (\<lambda>k.
     Inr \<lparr>deleted_key = k, deleted_version_id = ddoc_version_id item, deleted_marker = ddoc_delete_marker item,
       deleted_marker_version_id = ddoc_delete_marker_version_id item\<rparr>)"

definition parse_delete_objects :: "xml_ext \<Rightarrow> string \<Rightarrow> nat \<Rightarrow> protocol_error + delete_objects_output" where
  "parse_delete_objects Y body maximum =
     and_then (expect_root Y body maximum [''DeleteResult'']) (\<lambda>_.
     and_then (parse_bounded Y (xx_delete_result Y) body maximum) (\<lambda>doc.
     and_then (collect_results deleted_of (dr_deleted doc)) (\<lambda>deleted.
     Inr \<lparr>doo_deleted = deleted,
       doo_errors = map (\<lambda>e. \<lparr>de_key = derr_key e, de_version_id = derr_version_id e, de_code = derr_code e,
         de_message = derr_message e\<rparr>) (dr_errors doc),
       doo_request_ids = no_request_ids\<rparr>)))"

definition listed_of :: "xml_ext \<Rightarrow> object_document \<Rightarrow> protocol_error + listed_object" where
  "listed_of Y ob =
     and_then (url_field Y ''Contents.Key'' (obd_key ob)) (\<lambda>decoded.
     and_then (key_field ''Contents.Key'' decoded) (\<lambda>k.
     and_then (map_transpose (date_field Y ''Contents.LastModified'') (obd_last_modified ob)) (\<lambda>modified.
     Inr \<lparr>lob_key = k, lob_last_modified = modified, lob_e_tag = obd_e_tag ob, lob_size = obd_size ob,
       lob_storage_class = obd_storage_class ob,
       lob_owner = map_option (\<lambda>d. \<lparr>owner_id = od_id d, owner_display_name = od_display_name d\<rparr>) (obd_owner ob),
       lob_checksum_algorithms = obd_checksum_algorithms ob,
       lob_checksum_type = map_option checksum_type_parse (obd_checksum_type ob)\<rparr>)))"

definition parse_list_objects_v2 :: "xml_ext \<Rightarrow> string \<Rightarrow> nat \<Rightarrow> protocol_error + list_objects_output" where
  "parse_list_objects_v2 Y body maximum =
     and_then (expect_root Y body maximum [''ListBucketResult'']) (\<lambda>_.
     and_then (parse_bounded Y (xx_list_bucket Y) body maximum) (\<lambda>doc.
     reject_if (lbd_encoding_type doc \<noteq> Some ''url'')
       (InvalidField ''EncodingType'' ''expected url encoding requested by the client'')
     (and_then (collect_results (listed_of Y) (lbd_contents doc)) (\<lambda>objects.
      and_then (collect_results (\<lambda>p. url_field Y ''CommonPrefixes.Prefix'' (cpd_prefix p)) (lbd_common_prefixes doc)) (\<lambda>prefixes.
      Inr \<lparr>loo_objects = objects, loo_common_prefixes = prefixes, loo_is_truncated = lbd_is_truncated doc,
        loo_next_continuation_token = lbd_next_continuation_token doc, loo_key_count = lbd_key_count doc,
        loo_request_ids = no_request_ids\<rparr>)))))"

section \<open>Multipart documents\<close>

datatype complete_response = CompleteOk complete_output | CompleteEmbedded parsed_s3_error

datatype copy_object_response = CopyOk copy_object_output | CopyEmbedded parsed_s3_error

record copy_part_result =
  cpt_e_tag :: string
  cpt_last_modified :: "offset_date_time option"
  cpt_checksum :: checksum

datatype upload_part_copy_response = PartCopyOk copy_part_result | PartCopyEmbedded parsed_s3_error

definition completed_part_document_of :: "completed_part \<Rightarrow> completed_part_document" where
  "completed_part_document_of p = \<lparr>cpd_part_number = part_get (cp_part_number p), cpd_e_tag = cp_e_tag p,
     cpd_crc32 = crc32_value (cp_checksum p), cpd_crc32c = crc32c_value (cp_checksum p),
     cpd_crc64_nvme = crc64_nvme_value (cp_checksum p), cpd_sha1 = sha1_value (cp_checksum p),
     cpd_sha256 = sha256_value (cp_checksum p)\<rparr>"

definition serialize_complete_multipart_upload :: "xml_ext \<Rightarrow> complete_request \<Rightarrow> nat \<Rightarrow> protocol_error + string" where
  "serialize_complete_multipart_upload Y rq maximum =
     serialize_bounded (xx_write_complete Y (CompleteDocument (map completed_part_document_of (cmp_completed_parts rq)))) maximum"

definition parse_complete_multipart_upload :: "xml_ext \<Rightarrow> string \<Rightarrow> nat \<Rightarrow> protocol_error + complete_response" where
  "parse_complete_multipart_upload Y body maximum =
     and_then (root_is_error Y body maximum) (\<lambda>is_error.
     if is_error then and_then (parse_s3_error Y body maximum) (\<lambda>e. Inr (CompleteEmbedded e))
     else
       and_then (expect_root Y body maximum [''CompleteMultipartUploadResult'']) (\<lambda>_.
       and_then (parse_bounded Y (xx_complete_result Y) body maximum) (\<lambda>doc.
       and_then (map_transpose (key_field ''Key'') (crd_key doc)) (\<lambda>k.
       Inr (CompleteOk \<lparr>cmo_location = crd_location doc, cmo_bucket = crd_bucket doc, cmo_key = k, cmo_e_tag = crd_e_tag doc,
         cmo_version_id = None,
         cmo_checksum = \<lparr>crc32_value = crd_crc32 doc, crc32c_value = crd_crc32c doc, crc64_nvme_value = crd_crc64_nvme doc,
           sha1_value = crd_sha1 doc, sha256_value = crd_sha256 doc\<rparr>,
         cmo_request_ids = no_request_ids\<rparr>)))))"

definition copy_checksum :: "copy_result_document \<Rightarrow> checksum" where
  "copy_checksum doc = \<lparr>crc32_value = cprd_crc32 doc, crc32c_value = cprd_crc32c doc, crc64_nvme_value = cprd_crc64_nvme doc,
     sha1_value = cprd_sha1 doc, sha256_value = cprd_sha256 doc\<rparr>"

definition parse_copy_object :: "xml_ext \<Rightarrow> string \<Rightarrow> nat \<Rightarrow> protocol_error + copy_object_response" where
  "parse_copy_object Y body maximum =
     and_then (root_is_error Y body maximum) (\<lambda>is_error.
     if is_error then and_then (parse_s3_error Y body maximum) (\<lambda>e. Inr (CopyEmbedded e))
     else
       and_then (expect_root Y body maximum [''CopyObjectResult'']) (\<lambda>_.
       and_then (parse_bounded Y (xx_copy_result Y) body maximum) (\<lambda>doc.
       and_then (map_transpose (date_field Y ''LastModified'') (cprd_last_modified doc)) (\<lambda>modified.
       Inr (CopyOk \<lparr>coo_e_tag = cprd_e_tag doc, coo_last_modified = modified, coo_version_id = None,
         coo_checksum = copy_checksum doc, coo_request_ids = no_request_ids\<rparr>)))))"

definition parse_upload_part_copy :: "xml_ext \<Rightarrow> string \<Rightarrow> nat \<Rightarrow> protocol_error + upload_part_copy_response" where
  "parse_upload_part_copy Y body maximum =
     and_then (root_is_error Y body maximum) (\<lambda>is_error.
     if is_error then and_then (parse_s3_error Y body maximum) (\<lambda>e. Inr (PartCopyEmbedded e))
     else
       and_then (expect_root Y body maximum [''CopyPartResult'']) (\<lambda>_.
       and_then (parse_bounded Y (xx_copy_result Y) body maximum) (\<lambda>doc.
       case cprd_e_tag doc of
         Some tag \<Rightarrow>
           reject_if (blank_str tag) (InvalidField ''ETag'' ''copied part has no usable ETag'')
           (and_then (parse_last_modified Y (cprd_last_modified doc)) (\<lambda>modified.
            Inr (PartCopyOk \<lparr>cpt_e_tag = tag, cpt_last_modified = modified, cpt_checksum = copy_checksum doc\<rparr>)))
       | None \<Rightarrow> Inl (InvalidField ''ETag'' ''copied part has no usable ETag''))))"

definition parse_create_multipart_upload :: "xml_ext \<Rightarrow> string \<Rightarrow> nat \<Rightarrow> protocol_error + create_output" where
  "parse_create_multipart_upload Y body maximum =
     and_then (expect_root Y body maximum [''InitiateMultipartUploadResult'']) (\<lambda>_.
     and_then (parse_bounded Y (xx_create Y) body maximum) (\<lambda>doc.
     and_then (parse_upload_id (cdoc_upload_id doc) ''UploadId'') (\<lambda>uid.
     and_then (key_field ''Key'' (cdoc_key doc)) (\<lambda>k.
     Inr (create_output_new (cdoc_bucket doc) k uid (cdoc_checksum_algorithm doc)
       (map_option checksum_type_parse (cdoc_checksum_type doc)))))))"

definition upload_entry_of :: "xml_ext \<Rightarrow> upload_document \<Rightarrow> protocol_error + upload_entry" where
  "upload_entry_of Y up =
     and_then (parse_upload_id (ud_upload_id up) ''Upload.UploadId'') (\<lambda>uid.
     and_then (map_transpose (date_field Y ''Upload.Initiated'') (ud_initiated up)) (\<lambda>initiated.
     and_then (key_field ''Upload.Key'' (ud_key up)) (\<lambda>k.
     Inr \<lparr>ue_key = k, ue_upload_id = uid, ue_initiated = initiated, ue_storage_class = ud_storage_class up\<rparr>)))"

definition nonempty :: "string option \<Rightarrow> string option" where
  "nonempty v = (case v of Some s \<Rightarrow> if s = [] then None else Some s | None \<Rightarrow> None)"

definition parse_list_multipart_uploads :: "xml_ext \<Rightarrow> string \<Rightarrow> nat \<Rightarrow> protocol_error + list_uploads_output" where
  "parse_list_multipart_uploads Y body maximum =
     and_then (expect_root Y body maximum [''ListMultipartUploadsResult'']) (\<lambda>_.
     and_then (parse_bounded Y (xx_list_uploads Y) body maximum) (\<lambda>doc.
     and_then (collect_results (upload_entry_of Y) (lud_uploads doc)) (\<lambda>uploads.
     and_then (map_transpose (\<lambda>v. parse_upload_id v ''NextUploadIdMarker'') (nonempty (lud_next_upload_id_marker doc))) (\<lambda>next_id.
     Inr \<lparr>luo_uploads = uploads, luo_common_prefixes = map cpd_prefix (lud_common_prefixes doc),
       luo_is_truncated = lud_is_truncated doc, luo_next_key_marker = nonempty (lud_next_key_marker doc),
       luo_next_upload_id_marker = next_id, luo_request_ids = no_request_ids\<rparr>))))"

text \<open>The loop over the parts of a listing carries the number of the part before.\<close>

fun listed_parts_loop :: "xml_ext \<Rightarrow> part_number option \<Rightarrow> part_document list \<Rightarrow> protocol_error + listed_part list" where
  "listed_parts_loop Y prev [] = Inr []"
| "listed_parts_loop Y prev (p # ps) =
     and_then (ok_or (InvalidField ''Part.PartNumber'' ''part number is outside 1..=10000'') (part_number_new (pd_part_number p))) (\<lambda>n.
     reject_if (case prev of Some q \<Rightarrow> n \<le> q | None \<Rightarrow> False)
       (InvalidField ''Part.PartNumber'' ''parts are not in strictly ascending order'')
     (reject_if (blank_str (pd_e_tag p)) (InvalidField ''Part.ETag'' ''ETag is empty'')
     (and_then (map_transpose (date_field Y ''Part.LastModified'') (pd_last_modified p)) (\<lambda>modified.
      and_then (listed_parts_loop Y (Some n) ps) (\<lambda>rest.
      Inr (\<lparr>lpt_part_number = n, lpt_e_tag = pd_e_tag p, lpt_last_modified = modified, lpt_size = pd_size p,
        lpt_checksum = \<lparr>crc32_value = pd_crc32 p, crc32c_value = pd_crc32c p, crc64_nvme_value = pd_crc64_nvme p,
          sha1_value = pd_sha1 p, sha256_value = pd_sha256 p\<rparr>\<rparr> # rest))))))"

definition parse_list_parts :: "xml_ext \<Rightarrow> string \<Rightarrow> nat \<Rightarrow> protocol_error + list_parts_output" where
  "parse_list_parts Y body maximum =
     and_then (expect_root Y body maximum [''ListPartsResult'']) (\<lambda>_.
     and_then (parse_bounded Y (xx_list_parts Y) body maximum) (\<lambda>doc.
     and_then (listed_parts_loop Y None (lpd_parts doc)) (\<lambda>parts.
     and_then (map_transpose (\<lambda>n. ok_or (InvalidField ''NextPartNumberMarker'' ''part number is outside 1..=10000'')
       (part_number_new n)) (lpd_next_part_number_marker doc)) (\<lambda>next_marker.
     Inr \<lparr>lpo_parts = parts, lpo_is_truncated = lpd_is_truncated doc, lpo_next_part_number_marker = next_marker,
       lpo_checksum_algorithm = lpd_checksum_algorithm doc,
       lpo_checksum_type = map_option checksum_type_parse (lpd_checksum_type doc), lpo_request_ids = no_request_ids\<rparr>))))"

section \<open>What is accepted from the wire\<close>

text \<open>The search ignores case and finds every occurrence.\<close>

lemma list_all_zip_lower:
  "length w = length n \<Longrightarrow>
     list_all (\<lambda>(l, r). to_ascii_lowercase l = to_ascii_lowercase r) (zip w n) \<longleftrightarrow> eq_ignore_ascii_case w n"
  by (induction w n rule: list_induct2) (auto simp: eq_ignore_ascii_case_def str_to_ascii_lowercase_def)

lemma set_windows: "0 < k \<Longrightarrow> w \<in> set (windows k xs) \<longleftrightarrow> length w = k \<and> (\<exists>a b. xs = a @ w @ b)"
proof (induction xs)
  case (Cons x xs)
  show ?case
  proof (cases "k \<le> length (x # xs)")
    case True
    have "(length w = k \<and> (\<exists>a b. x # xs = a @ w @ b)) \<longleftrightarrow> w = take k (x # xs) \<or> (length w = k \<and> (\<exists>a b. xs = a @ w @ b))"
    proof
      assume "length w = k \<and> (\<exists>a b. x # xs = a @ w @ b)"
      then obtain a b where "length w = k" "x # xs = a @ w @ b" by blast
      then show "w = take k (x # xs) \<or> (length w = k \<and> (\<exists>a b. xs = a @ w @ b))" by (cases a) auto
    next
      assume "w = take k (x # xs) \<or> (length w = k \<and> (\<exists>a b. xs = a @ w @ b))"
      then show "length w = k \<and> (\<exists>a b. x # xs = a @ w @ b)"
      proof
        assume w: "w = take k (x # xs)"
        then have "x # xs = [] @ w @ drop k (x # xs)" by simp
        with w True show ?thesis by (metis length_take min.absorb2)
      next
        assume "length w = k \<and> (\<exists>a b. xs = a @ w @ b)"
        then obtain a b where "length w = k" "xs = a @ w @ b" by blast
        then show ?thesis by (metis append_Cons)
      qed
    qed
    with Cons True show ?thesis by simp
  next
    case False
    then have "\<not> (length w = k \<and> (\<exists>a b. x # xs = a @ w @ b))" by (metis length_append le_add1 le_add2 le_trans)
    with False show ?thesis by simp
  qed
qed auto

lemma ascii_contains_ignore_case_iff:
  assumes "needle \<noteq> []"
  shows "ascii_contains_ignore_case haystack needle \<longleftrightarrow> (\<exists>a w b. haystack = a @ w @ b \<and> eq_ignore_ascii_case w needle)"
proof -
  have len: "length w = length needle" if "eq_ignore_ascii_case w needle" for w
    using arg_cong[OF that[unfolded eq_ignore_ascii_case_def], of length] by (simp add: str_to_ascii_lowercase_def)
  have "ascii_contains_ignore_case haystack needle \<longleftrightarrow>
      (\<exists>w. length w = length needle \<and> (\<exists>a b. haystack = a @ w @ b) \<and>
         list_all (\<lambda>(l, r). to_ascii_lowercase l = to_ascii_lowercase r) (zip w needle))"
    using assms set_windows[of "length needle" _ haystack] unfolding ascii_contains_ignore_case_def list_ex_iff by blast
  also have "\<dots> \<longleftrightarrow> (\<exists>a w b. haystack = a @ w @ b \<and> eq_ignore_ascii_case w needle)"
    using list_all_zip_lower len by blast
  finally show ?thesis .
qed

text \<open>A document that may reach the XML library: within the limit, UTF-8, and without declarations of any spelling.\<close>

definition safe_document :: "string \<Rightarrow> nat \<Rightarrow> bool" where
  "safe_document body maximum \<longleftrightarrow> length body \<le> maximum \<and> valid_utf8 body \<and>
     \<not> (\<exists>a w b. body = a @ w @ b \<and> (eq_ignore_ascii_case w ''<!DOCTYPE'' \<or> eq_ignore_ascii_case w ''<!ENTITY''))"

lemma reject_dangerous_Inr:
  "reject_dangerous_declarations body = Inr () \<longleftrightarrow>
     \<not> (\<exists>a w b. body = a @ w @ b \<and> (eq_ignore_ascii_case w ''<!DOCTYPE'' \<or> eq_ignore_ascii_case w ''<!ENTITY''))"
  by (simp add: reject_dangerous_declarations_def ascii_contains_ignore_case_iff) blast

lemma parse_bounded_safe: "parse_bounded Y de body maximum = Inr x \<Longrightarrow> safe_document body maximum"
  using reject_dangerous_Inr[of body]
  by (auto simp: parse_bounded_def safe_document_def from_utf8_def not_less split: if_splits)

lemma expect_root_safe:
  "expect_root Y body maximum expected = Inr u \<Longrightarrow> safe_document body maximum \<and> (\<exists>name \<in> set expected. root_loop (xx_events Y body) = Inr name)"
  using reject_dangerous_Inr[of body]
  by (auto simp: expect_root_def safe_document_def from_utf8_def not_less split: if_splits)

lemma parsers_safe:
  "parse_s3_error Y body m = Inr e \<Longrightarrow> safe_document body m"
  "parse_delete_objects Y body m = Inr d \<Longrightarrow> safe_document body m"
  "parse_list_objects_v2 Y body m = Inr l \<Longrightarrow> safe_document body m"
  "parse_complete_multipart_upload Y body m = Inr c \<Longrightarrow> safe_document body m"
  "parse_copy_object Y body m = Inr co \<Longrightarrow> safe_document body m"
  "parse_upload_part_copy Y body m = Inr pc \<Longrightarrow> safe_document body m"
  "parse_create_multipart_upload Y body m = Inr cr \<Longrightarrow> safe_document body m"
  "parse_list_multipart_uploads Y body m = Inr lu \<Longrightarrow> safe_document body m"
  "parse_list_parts Y body m = Inr lp \<Longrightarrow> safe_document body m"
proof -
  show p: "parse_s3_error Y body m = Inr e \<Longrightarrow> safe_document body m" for e
    unfolding parse_s3_error_def by (auto dest: parse_bounded_safe)
  show "parse_delete_objects Y body m = Inr d \<Longrightarrow> safe_document body m"
    unfolding parse_delete_objects_def by (auto dest: parse_bounded_safe)
  show "parse_list_objects_v2 Y body m = Inr l \<Longrightarrow> safe_document body m"
    unfolding parse_list_objects_v2_def by (auto dest: parse_bounded_safe)
  show "parse_complete_multipart_upload Y body m = Inr c \<Longrightarrow> safe_document body m"
    unfolding parse_complete_multipart_upload_def by (auto dest: parse_bounded_safe p split: if_split_asm)
  show "parse_copy_object Y body m = Inr co \<Longrightarrow> safe_document body m"
    unfolding parse_copy_object_def by (auto dest: parse_bounded_safe p split: if_split_asm)
  show "parse_upload_part_copy Y body m = Inr pc \<Longrightarrow> safe_document body m"
    unfolding parse_upload_part_copy_def by (auto dest: parse_bounded_safe p split: if_split_asm)
  show "parse_create_multipart_upload Y body m = Inr cr \<Longrightarrow> safe_document body m"
    unfolding parse_create_multipart_upload_def by (auto dest: parse_bounded_safe)
  show "parse_list_multipart_uploads Y body m = Inr lu \<Longrightarrow> safe_document body m"
    unfolding parse_list_multipart_uploads_def by (auto dest: parse_bounded_safe)
  show "parse_list_parts Y body m = Inr lp \<Longrightarrow> safe_document body m"
    unfolding parse_list_parts_def by (auto dest: parse_bounded_safe)
qed

lemma isl_unless: "(\<And>x. r = Inr x \<Longrightarrow> P) \<Longrightarrow> \<not> P \<Longrightarrow> isl r"
  by (cases r) auto

text \<open>
  Property C24. Nothing dangerous is parsed: whatever the service sends and whatever the XML library would make of it,
  each of the nine response parsers succeeds only on a document within the configured size that is valid UTF-8 and
  contains no document type or entity declaration in any mix of upper and lower case, so entity expansion is impossible.
\<close>

theorem parsed_documents_are_safe:
  assumes "\<not> safe_document body m"
  shows "isl (parse_s3_error Y body m) \<and> isl (parse_delete_objects Y body m) \<and> isl (parse_list_objects_v2 Y body m) \<and>
    isl (parse_complete_multipart_upload Y body m) \<and> isl (parse_copy_object Y body m) \<and> isl (parse_upload_part_copy Y body m) \<and>
    isl (parse_create_multipart_upload Y body m) \<and> isl (parse_list_multipart_uploads Y body m) \<and> isl (parse_list_parts Y body m)"
  by (intro conjI; rule isl_unless[OF _ assms]; erule parsers_safe)

section \<open>The bounded writer\<close>

lemma to_writer_spec:
  "to_writer ps s =
     (if lim_maximum s < length (lim_value s) then to_writer ps s
      else if length (lim_value s @ concat ps) \<le> lim_maximum s then (Some (), s\<lparr>lim_value := lim_value s @ concat ps\<rparr>)
      else (None, snd (to_writer ps s)))"
proof (induction ps arbitrary: s)
  case (Cons p ps)
  show ?case
  proof (cases "length (lim_value s) + length p \<le> lim_maximum s")
    case True
    with Cons[of "s\<lparr>lim_value := lim_value s @ p\<rparr>"] show ?thesis by (auto simp: write_str_def not_less)
  qed (auto simp: write_str_def)
qed auto

lemma to_writer_exceeded: "to_writer ps s = (None, s') \<Longrightarrow> lim_exceeded s'"
  by (induction ps arbitrary: s) (auto simp: write_str_def split: if_splits)

text \<open>
  A request document is written completely or not at all: within the limit the result is exactly what the
  serializer wrote, one byte more and the size error is returned, and a serializer error within the limit is reported as
  such.
\<close>

lemma serialize_bounded_spec:
  "serialize_bounded run maximum =
     (if maximum < length (concat (fst run)) then Inl (Oversized (min (maximum + 1) (2 ^ 64 - 1)) maximum)
      else case snd run of None \<Rightarrow> Inr (concat (fst run)) | Some e \<Rightarrow> Inl (InvalidXml e))"
proof (cases "maximum < length (concat (fst run))")
  case True
  then have "fst (to_writer (fst run) (limited_string_new maximum)) = None"
    by (subst to_writer_spec) (simp add: limited_string_new_def)
  then obtain s' where w: "to_writer (fst run) (limited_string_new maximum) = (None, s')" by (metis prod.collapse)
  from to_writer_exceeded[OF w] True show ?thesis by (simp add: serialize_bounded_def w)
next
  case False
  then have "to_writer (fst run) (limited_string_new maximum) = (Some (), (limited_string_new maximum)\<lparr>lim_value := concat (fst run)\<rparr>)"
    by (subst to_writer_spec) (simp add: limited_string_new_def)
  with False show ?thesis by (cases "snd run") (simp_all add: serialize_bounded_def limited_string_new_def)
qed

section \<open>Listed parts can be completed\<close>

lemma listed_parts_loop_Inr:
  "listed_parts_loop Y prev ds = Inr ps \<Longrightarrow>
     ascending (map lpt_part_number ps) \<and> (\<forall>q. prev = Some q \<longrightarrow> (\<forall>p \<in> set ps. q < lpt_part_number p)) \<and>
     (\<forall>p \<in> set ps. part_get (lpt_part_number p) \<noteq> 0 \<and> part_get (lpt_part_number p) \<le> PART_MAX \<and> \<not> blank_str (lpt_e_tag p))"
proof (induction ds arbitrary: prev ps)
  case (Cons d ds)
  from Cons.prems obtain n modified rest where n: "part_number_new (pd_part_number d) = Some n"
    "\<not> (case prev of Some q \<Rightarrow> n \<le> q | None \<Rightarrow> False)" "\<not> blank_str (pd_e_tag d)"
    and rest: "listed_parts_loop Y (Some n) ds = Inr rest"
    and ps: "ps = \<lparr>lpt_part_number = n, lpt_e_tag = pd_e_tag d, lpt_last_modified = modified, lpt_size = pd_size d,
        lpt_checksum = \<lparr>crc32_value = pd_crc32 d, crc32c_value = pd_crc32c d, crc64_nvme_value = pd_crc64_nvme d,
          sha1_value = pd_sha1 d, sha256_value = pd_sha256 d\<rparr>\<rparr> # rest"
    by (auto split: if_split_asm)
  have IH: "ascending (map lpt_part_number rest)" "\<forall>p \<in> set rest. n < lpt_part_number p"
    "\<forall>p \<in> set rest. part_get (lpt_part_number p) \<noteq> 0 \<and> part_get (lpt_part_number p) \<le> PART_MAX \<and> \<not> blank_str (lpt_e_tag p)"
    using Cons.IH[OF rest] by auto
  with n show ?case by (auto simp: ps part_number_new_Some_iff split: option.splits)
qed simp

text \<open>
  A listing of parts is ready for completion: when a ListParts response is accepted, its parts are in
  strictly ascending order with valid numbers and usable entity tags, every one converts into a completed part, and the
  converted list, if not empty, is accepted as the parts of a completion request.
\<close>

lemma listed_parts_completable:
  assumes "parse_list_parts Y body m = Inr out" and "lpo_parts out \<noteq> []"
  shows "\<exists>ps rq. collect_results listed_part_completed (lpo_parts out) = Inr ps \<and>
    map cp_part_number ps = map lpt_part_number (lpo_parts out) \<and> map cp_e_tag ps = map lpt_e_tag (lpo_parts out) \<and>
    complete_request_new k u ps = Inr rq \<and> cmp_completed_parts rq = ps"
proof -
  from assms(1) obtain ds where "listed_parts_loop Y None ds = Inr (lpo_parts out)"
    unfolding parse_list_parts_def by auto
  note l = listed_parts_loop_Inr[OF this]
  let ?c = "\<lambda>p. \<lparr>cp_part_number = lpt_part_number p, cp_e_tag = lpt_e_tag p, cp_checksum = lpt_checksum p\<rparr>"
  have one: "listed_part_completed p = Inr (?c p)" if "p \<in> set (lpo_parts out)" for p
    using l that by (auto simp: listed_part_completed_def completed_part_new_def part_number_new_def cp_with_checksum_def)
  have "collect_results listed_part_completed ps = Inr (map ?c ps)" if "set ps \<subseteq> set (lpo_parts out)" for ps
    using that by (induction ps) (auto simp: one)
  then have c: "collect_results listed_part_completed (lpo_parts out) = Inr (map ?c (lpo_parts out))" by blast
  have m: "map cp_part_number (map ?c (lpo_parts out)) = map lpt_part_number (lpo_parts out)"
    "map cp_e_tag (map ?c (lpo_parts out)) = map lpt_e_tag (lpo_parts out)" by simp_all
  have "validate_completed_parts (map ?c (lpo_parts out)) = Inr ()"
    unfolding validate_completed_parts_Inr_iff m(1) using l assms(2) by simp
  with c m show ?thesis by (simp add: complete_request_new_def)
qed

section \<open>A concrete XML library\<close>

text \<open>It reads one document: two parts of a listing. Every other document is refused.\<close>

definition example_part :: "u16 \<Rightarrow> part_document" where
  "example_part n = \<lparr>pd_part_number = n, pd_e_tag = ''t'', pd_last_modified = None, pd_size = 1, pd_crc32 = None,
     pd_crc32c = None, pd_crc64_nvme = None, pd_sha1 = None, pd_sha256 = None\<rparr>"

definition example_xml :: xml_ext where
  "example_xml = \<lparr>xx_events = (\<lambda>_. [DeclEvent, StartEvent ''ListPartsResult'']), xx_utf8_error = (\<lambda>_. ''utf8''),
     xx_rfc3339 = (\<lambda>_. Inl ''date''), xx_write_delete = (\<lambda>_. ([], None)), xx_write_complete = (\<lambda>_. ([], None)),
     xx_error = (\<lambda>_. Inl ''no''), xx_delete_result = (\<lambda>_. Inl ''no''), xx_list_bucket = (\<lambda>_. Inl ''no''),
     xx_complete_result = (\<lambda>_. Inl ''no''), xx_copy_result = (\<lambda>_. Inl ''no''), xx_create = (\<lambda>_. Inl ''no''),
     xx_list_uploads = (\<lambda>_. Inl ''no''),
     xx_list_parts = (\<lambda>_. Inr \<lparr>lpd_parts = [example_part 1, example_part 3], lpd_is_truncated = False,
       lpd_next_part_number_marker = None, lpd_checksum_algorithm = None, lpd_checksum_type = None\<rparr>)\<rparr>"

lemma listed_parts_completable_witness:
  "\<exists>out ps rq. parse_list_parts example_xml ''<x>'' 3 = Inr out \<and> collect_results listed_part_completed (lpo_parts out) = Inr ps \<and>
     complete_request_new (ObjectKey ''k'') (UploadId ''u'') ps = Inr rq \<and> map (part_get o cp_part_number) ps = [1, 3]"
proof -
  have "(case parse_list_parts example_xml ''<x>'' 3 of Inl _ \<Rightarrow> None | Inr out \<Rightarrow> Some (map (part_get o lpt_part_number) (lpo_parts out))) = Some [1, 3]"
    by code_simp
  then obtain out where o: "parse_list_parts example_xml ''<x>'' 3 = Inr out" "map (part_get o lpt_part_number) (lpo_parts out) = [1, 3]"
    by (auto split: sum.splits)
  then have "lpo_parts out \<noteq> []" by auto
  from listed_parts_completable[OF o(1) this, of "ObjectKey ''k''" "UploadId ''u''"] obtain ps rq where
    "collect_results listed_part_completed (lpo_parts out) = Inr ps" "complete_request_new (ObjectKey ''k'') (UploadId ''u'') ps = Inr rq"
    "map cp_part_number ps = map lpt_part_number (lpo_parts out)" by blast
  moreover from this(3) have "map (part_get o cp_part_number) ps = [1, 3]" using o(2) by (metis map_map)
  ultimately show ?thesis using o(1) by (intro exI conjI)
qed

theorem parsed_documents_are_safe_witness:
  "isl (parse_s3_error example_xml ''<!DocType x>'' 100)"
proof -
  have "''<!DocType x>'' = [] @ ''<!DocType'' @ '' x>''" "eq_ignore_ascii_case ''<!DocType'' ''<!DOCTYPE''" by code_simp+
  then have "\<not> safe_document ''<!DocType x>'' 100" unfolding safe_document_def by blast
  from parsed_documents_are_safe[OF this] show ?thesis by blast
qed

end
