(* ===== verification/Operation_Headers.thy ===== *)
theory Operation_Headers
  imports Protocol Request_Signing
begin

text \<open>
  The headers and query strings of the operations: \<open>src/client/object/headers/request.rs\<close> and \<open>response.rs\<close>,
  \<open>src/client/multipart/headers.rs\<close> and \<open>query.rs\<close>. The lemmas show that the checksum validator accepts exactly the
  standard Base64 encodings of a digest of the right size, that copy sources are encoded injectively, and what is accepted
  as a content range. HTTP dates and Base64 decoding are parameters (the \<open>httpdate\<close> and \<open>base64\<close> crates).
\<close>

section \<open>Request headers of object operations\<close>

definition sha256_base64 :: "'d checksum_ext \<Rightarrow> prepared_body \<Rightarrow> string" where
  "sha256_base64 X b = ce_base64 X (pb_sha256 b)"

definition insert_upload_checksum ::
  "'d request_ext \<Rightarrow> checksum_algorithm option \<Rightarrow> prepared_body \<Rightarrow> header_map \<Rightarrow> s3_error + header_map" where
  "insert_upload_checksum R algorithm body m = (case algorithm of
     None \<Rightarrow> Inr m
   | Some Sha256 \<Rightarrow>
       and_then (insert_header R ''x-amz-sdk-checksum-algorithm'' ''SHA256'' m) (\<lambda>m.
       insert_header R ''x-amz-checksum-sha256'' (sha256_base64 (rx_checksum R) body) m)
   | Some _ \<Rightarrow> Inl (unsupported ''the selected upload checksum algorithm is not implemented''))"

text \<open>\<open>http_date\<close> is \<open>format_http_date\<close>: the \<open>httpdate\<close> crate's text of an instant.\<close>

definition insert_conditions ::
  "'d request_ext \<Rightarrow> (offset_date_time \<Rightarrow> string) \<Rightarrow> conditions \<Rightarrow> string \<Rightarrow> header_map \<Rightarrow> s3_error + header_map" where
  "insert_conditions R http_date c pre m =
     and_then (insert_optional_named_header R (pre @ ''if-match'') (if_match c) m) (\<lambda>m.
     and_then (insert_optional_named_header R (pre @ ''if-none-match'') (if_none_match c) m) (\<lambda>m.
     and_then (case if_modified_since c of None \<Rightarrow> Inr m
               | Some t \<Rightarrow> insert_named_header R (pre @ ''if-modified-since'') (http_date t) m) (\<lambda>m.
     case if_unmodified_since c of None \<Rightarrow> Inr m
     | Some t \<Rightarrow> insert_named_header R (pre @ ''if-unmodified-since'') (http_date t) m)))"

fun insert_user_metadata :: "'d request_ext \<Rightarrow> metadata_map \<Rightarrow> header_map \<Rightarrow> s3_error + header_map" where
  "insert_user_metadata R [] m = Inr m"
| "insert_user_metadata R ((name, v) # md) m =
     and_then (insert_named_header R (''x-amz-meta-'' @ name) v m) (\<lambda>m. insert_user_metadata R md m)"

definition optional_query :: "string \<Rightarrow> string option \<Rightarrow> (string \<times> string) list" where
  "optional_query name v = (case v of None \<Rightarrow> [] | Some x \<Rightarrow> [(name, x)])"

definition push_optional_query :: "string \<Rightarrow> string option \<Rightarrow> (string \<times> string) list \<Rightarrow> (string \<times> string) list" where
  "push_optional_query name v query = (case v of None \<Rightarrow> query | Some x \<Rightarrow> query @ [(name, x)])"

definition copy_source_header :: "copy_source \<Rightarrow> string" where
  "copy_source_header s =
     ''/'' @ percent_encode False (cs_bucket s) @ ''/'' @ percent_encode True (key_str (cs_key s)) @
     (case cs_version_id s of None \<Rightarrow> [] | Some v \<Rightarrow> ''?versionId='' @ percent_encode False v)"

section \<open>Response headers of object operations\<close>

definition response_header_value :: "http_ext \<Rightarrow> string \<Rightarrow> s3_error + string" where
  "response_header_value H v = ok_or (invalid_response ''S3 returned a non-text response header'') (hx_to_str H v)"

definition response_header :: "http_ext \<Rightarrow> response_headers \<Rightarrow> string \<Rightarrow> s3_error + string option" where
  "response_header H headers name = map_transpose (response_header_value H) (headers name)"

definition parse_u64_value :: "http_ext \<Rightarrow> string \<Rightarrow> s3_error + nat" where
  "parse_u64_value H v =
     ok_or (invalid_response ''S3 returned an invalid content length'') (Option.bind (hx_to_str H v) parse_u64)"

definition parse_http_date_value :: "http_ext \<Rightarrow> string \<Rightarrow> s3_error + offset_date_time" where
  "parse_http_date_value H v =
     and_then (ok_or (invalid_response ''S3 returned an invalid HTTP date'') (hx_to_str H v)) (\<lambda>text.
     ok_or (invalid_response ''S3 returned an invalid HTTP date'') (hx_parse_http_date H text))"

definition parse_bool_header :: "http_ext \<Rightarrow> response_headers \<Rightarrow> string \<Rightarrow> s3_error + bool option" where
  "parse_bool_header H headers name =
     and_then (response_header H headers name) (\<lambda>v. case v of
       None \<Rightarrow> Inr None
     | Some text \<Rightarrow>
         if text = ''true'' then Inr (Some True) else if text = ''false'' then Inr (Some False)
         else Inl (invalid_response ''S3 returned an invalid boolean response header''))"

definition parse_checksum :: "http_ext \<Rightarrow> response_headers \<Rightarrow> s3_error + checksum" where
  "parse_checksum H headers =
     and_then (response_header H headers ''x-amz-checksum-crc32'') (\<lambda>c32.
     and_then (response_header H headers ''x-amz-checksum-crc32c'') (\<lambda>c32c.
     and_then (response_header H headers ''x-amz-checksum-crc64nvme'') (\<lambda>c64.
     and_then (response_header H headers ''x-amz-checksum-sha1'') (\<lambda>s1.
     and_then (response_header H headers ''x-amz-checksum-sha256'') (\<lambda>s256.
     Inr \<lparr>crc32_value = c32, crc32c_value = c32c, crc64_nvme_value = c64, sha1_value = s1, sha256_value = s256\<rparr>)))))"

text \<open>\<open>decode\<close> is the Base64 decoder.\<close>

definition verified_download_sha256 ::
  "http_ext \<Rightarrow> (string \<Rightarrow> string option) \<Rightarrow> response_headers \<Rightarrow> s3_error + string option" where
  "verified_download_sha256 H decode headers =
     and_then (response_header H headers ''x-amz-checksum-sha256'') (\<lambda>encoded. case encoded of
       None \<Rightarrow> Inr None
     | Some text \<Rightarrow>
         and_then (response_header H headers ''x-amz-checksum-type'') (\<lambda>ty.
         if (case ty of None \<Rightarrow> False | Some t \<Rightarrow> t \<noteq> ''FULL_OBJECT'') then Inr None
         else and_then (ok_or (invalid_response ''S3 returned an invalid base64 SHA-256 checksum'') (decode text)) (\<lambda>digest.
              if length digest = 32 then Inr (Some digest)
              else Inl (invalid_response ''S3 returned a SHA-256 checksum with an invalid length''))))"

definition merge_checksum :: "checksum \<Rightarrow> checksum \<Rightarrow> checksum" where
  "merge_checksum target headers =
     \<lparr>crc32_value = or_else (crc32_value headers) (crc32_value target),
      crc32c_value = or_else (crc32c_value headers) (crc32c_value target),
      crc64_nvme_value = or_else (crc64_nvme_value headers) (crc64_nvme_value target),
      sha1_value = or_else (sha1_value headers) (sha1_value target),
      sha256_value = or_else (sha256_value headers) (sha256_value target)\<rparr>"

definition parse_request_ids :: "http_ext \<Rightarrow> response_headers \<Rightarrow> s3_error + request_ids" where
  "parse_request_ids H headers =
     and_then (response_header H headers ''x-amz-request-id'') (\<lambda>rid.
     and_then (response_header H headers ''x-amz-id-2'') (\<lambda>hid.
     Inr \<lparr>ids_request_id = rid, ids_host_id = hid\<rparr>))"

fun collect_metadata :: "http_ext \<Rightarrow> header_map \<Rightarrow> metadata_map \<Rightarrow> s3_error + metadata_map" where
  "collect_metadata H [] md = Inr md"
| "collect_metadata H ((name, v) # entries) md = (case strip_prefix name ''x-amz-meta-'' of
     None \<Rightarrow> collect_metadata H entries md
   | Some rest \<Rightarrow> and_then (response_header_value H v) (\<lambda>text. collect_metadata H entries (btree_insert rest text md)))"

definition parse_object_metadata :: "http_ext \<Rightarrow> header_map \<Rightarrow> s3_error + object_metadata" where
  "parse_object_metadata H entries =
     (let headers = map_of entries in
      and_then (map_transpose (parse_u64_value H) (headers ''content-length'')) (\<lambda>len.
      and_then (ok_or (invalid_response ''S3 omitted the content-length header'') len) (\<lambda>len.
      and_then (map_transpose (parse_http_date_value H) (headers ''last-modified'')) (\<lambda>modified.
      and_then (collect_metadata H entries []) (\<lambda>md.
      and_then (response_header H headers ''etag'') (\<lambda>tag.
      and_then (response_header H headers ''content-type'') (\<lambda>ct.
      and_then (response_header H headers ''x-amz-version-id'') (\<lambda>version.
      and_then (parse_checksum H headers) (\<lambda>sums.
      and_then (parse_request_ids H headers) (\<lambda>ids.
      Inr \<lparr>om_e_tag = tag, om_content_length = len, om_content_type = ct, om_last_modified = modified,
        om_version_id = version, om_user_metadata = md, om_checksum = sums, om_request_ids = ids\<rparr>))))))))))"

definition invalid_content_range :: s3_error where
  "invalid_content_range = invalid_response ''S3 returned an invalid content-range header''"

definition content_range_of :: "string \<Rightarrow> s3_error + (nat \<times> nat \<times> nat option)" where
  "content_range_of v =
     and_then (ok_or invalid_content_range (strip_prefix v ''bytes '')) (\<lambda>remainder.
     and_then (ok_or invalid_content_range (split_once CHR ''/'' remainder)) (\<lambda>(range, complete).
     and_then (ok_or invalid_content_range (split_once CHR ''-'' range)) (\<lambda>(first, last).
     and_then (ok_or invalid_content_range (parse_u64 first)) (\<lambda>first.
     and_then (ok_or invalid_content_range (parse_u64 last)) (\<lambda>last.
     reject_if (last < first) invalid_content_range
     (if complete = ''*'' then Inr (first, last, None)
      else and_then (ok_or invalid_content_range (parse_u64 complete)) (\<lambda>complete.
        reject_if (complete \<le> last) (invalid_response ''S3 returned an inconsistent content-range header'')
        (Inr (first, last, Some complete)))))))))"

definition parse_content_range :: "http_ext \<Rightarrow> response_headers \<Rightarrow> s3_error + (nat \<times> nat \<times> nat option) option" where
  "parse_content_range H headers =
     and_then (response_header H headers ''content-range'') (map_transpose content_range_of)"

section \<open>Headers of multipart operations\<close>

definition checksum_algorithm_name :: "checksum_algorithm \<Rightarrow> string" where
  "checksum_algorithm_name a = (case a of Crc32 \<Rightarrow> ''CRC32'' | Crc32c \<Rightarrow> ''CRC32C'' | Crc64Nvme \<Rightarrow> ''CRC64NVME''
     | Sha1 \<Rightarrow> ''SHA1'' | Sha256 \<Rightarrow> ''SHA256'')"

fun create_metadata :: "'d request_ext \<Rightarrow> metadata_map \<Rightarrow> header_map \<Rightarrow> s3_error + header_map" where
  "create_metadata R [] m = Inr m"
| "create_metadata R ((name, v) # md) m =
     reject_if (name = []) (configuration ''user metadata names cannot be empty'')
     (and_then (ok_or (configuration ''user metadata name is not a valid HTTP header'') (rx_header_name R (''x-amz-meta-'' @ name))) (\<lambda>n.
      and_then (insert_header R n v m) (\<lambda>m. create_metadata R md m)))"

definition create_headers :: "'d request_ext \<Rightarrow> create_request \<Rightarrow> s3_error + header_map" where
  "create_headers R rq =
     and_then (request_headers (cr_headers rq)) (\<lambda>m.
     and_then (insert_optional_header R ''content-type'' (cr_content_type rq) m) (\<lambda>m.
     and_then (insert_optional_header R ''x-amz-checksum-algorithm'' (map_option checksum_algorithm_name (cr_checksum_algorithm rq)) m) (\<lambda>m.
     and_then (insert_optional_header R ''x-amz-checksum-type'' (map_option checksum_type_str (cr_checksum_type rq)) m) (\<lambda>m.
     create_metadata R (cr_user_metadata rq) m))))"

text \<open>\<open>u8::trailing_zeros\<close>, which is 8 for 0.\<close>

fun trailing_zeros :: "nat \<Rightarrow> nat \<Rightarrow> nat" where
  "trailing_zeros 0 n = 0"
| "trailing_zeros (Suc w) n = (if even n then Suc (trailing_zeros w (n div 2)) else 0)"

definition base64_index :: "char \<Rightarrow> nat option" where
  "base64_index c =
     (if is_ascii_uppercase c then Some (ord c - 65)
      else if is_ascii_lowercase c then Some (ord c - 97 + 26)
      else if is_ascii_digit c then Some (ord c - 48 + 52)
      else if c = CHR ''+'' then Some 62 else if c = CHR ''/'' then Some 63 else None)"

definition base64_char :: "char \<Rightarrow> bool" where
  "base64_char c \<longleftrightarrow> is_ascii_alphanumeric c \<or> c = CHR ''+'' \<or> c = CHR ''/''"

text \<open>\<open>get\<close> out of range is \<open>None\<close>; with digest length 0 there is no last character in either reading of \<open>data_length - 1\<close>.
  The arms marked unreachable for a remainder above 2 and a padding above 2 coincide with the last case.\<close>

definition valid_base64_digest :: "string \<Rightarrow> nat \<Rightarrow> bool" where
  "valid_base64_digest v digest_length =
     (let encoded_length = div_ceil digest_length 3 * 4;
          padding = (case digest_length mod 3 of 0 \<Rightarrow> 0 | Suc 0 \<Rightarrow> 2 | _ \<Rightarrow> 1);
          data_length = encoded_length - padding in
      if length v \<noteq> encoded_length then False
      else if \<not> list_all base64_char (take data_length v) \<or> \<not> list_all (\<lambda>c. c = CHR ''='') (drop data_length v) then False
      else (case (if data_length - 1 < length v then base64_index (v ! (data_length - 1)) else None) of
          None \<Rightarrow> False
        | Some sextet \<Rightarrow>
            if padding = 0 then True else if padding = 1 then 2 \<le> trailing_zeros 8 sextet else 4 \<le> trailing_zeros 8 sextet))"

definition insert_checksum ::
  "'d request_ext \<Rightarrow> string \<Rightarrow> string option \<Rightarrow> nat \<Rightarrow> header_map \<Rightarrow> s3_error + header_map" where
  "insert_checksum R name v n m = (case v of
     None \<Rightarrow> Inr m
   | Some x \<Rightarrow>
       reject_if (\<not> valid_base64_digest x n) (configuration ''checksum is not valid standard base64 for its algorithm'')
       (insert_header R name x m))"

definition checksum_headers :: "'d request_ext \<Rightarrow> checksum \<Rightarrow> header_map \<Rightarrow> s3_error + header_map" where
  "checksum_headers R c headers =
     and_then (request_headers headers) (\<lambda>m.
     and_then (insert_checksum R ''x-amz-checksum-crc32'' (crc32_value c) 4 m) (\<lambda>m.
     and_then (insert_checksum R ''x-amz-checksum-crc32c'' (crc32c_value c) 4 m) (\<lambda>m.
     and_then (insert_checksum R ''x-amz-checksum-crc64nvme'' (crc64_nvme_value c) 8 m) (\<lambda>m.
     and_then (insert_checksum R ''x-amz-checksum-sha1'' (sha1_value c) 20 m) (\<lambda>m.
     insert_checksum R ''x-amz-checksum-sha256'' (sha256_value c) 32 m)))))"

text \<open>The text filter shared by required and diagnostic headers, with its length limit.\<close>

definition bounded_text :: "nat \<Rightarrow> string \<Rightarrow> bool" where
  "bounded_text limit v \<longleftrightarrow> v \<noteq> [] \<and> length v \<le> limit \<and> list_all (\<lambda>c. \<not> is_ascii_control c) v"

definition optional_header :: "http_ext \<Rightarrow> response_headers \<Rightarrow> string \<Rightarrow> s3_error + string option" where
  "optional_header H headers name = map_transpose (\<lambda>v.
     ok_or (invalid_response ''S3 returned an invalid response header'')
       (Option.bind (hx_to_str H v) (\<lambda>text. if bounded_text 2048 text then Some text else None))) (headers name)"

definition required_header :: "http_ext \<Rightarrow> response_headers \<Rightarrow> string \<Rightarrow> string \<Rightarrow> s3_error + string" where
  "required_header H headers name missing =
     and_then (optional_header H headers name) (ok_or (invalid_response missing))"

definition optional_checksum_header :: "http_ext \<Rightarrow> response_headers \<Rightarrow> string \<Rightarrow> nat \<Rightarrow> s3_error + string option" where
  "optional_checksum_header H headers name n =
     and_then (optional_header H headers name) (\<lambda>v.
     reject_if (case v of None \<Rightarrow> False | Some x \<Rightarrow> \<not> valid_base64_digest x n)
       (invalid_response ''S3 returned a malformed checksum header'') (Inr v))"

definition response_checksums :: "http_ext \<Rightarrow> response_headers \<Rightarrow> s3_error + checksum" where
  "response_checksums H headers =
     and_then (optional_checksum_header H headers ''x-amz-checksum-crc32'' 4) (\<lambda>c32.
     and_then (optional_checksum_header H headers ''x-amz-checksum-crc32c'' 4) (\<lambda>c32c.
     and_then (optional_checksum_header H headers ''x-amz-checksum-crc64nvme'' 8) (\<lambda>c64.
     and_then (optional_checksum_header H headers ''x-amz-checksum-sha1'' 20) (\<lambda>s1.
     and_then (optional_checksum_header H headers ''x-amz-checksum-sha256'' 32) (\<lambda>s256.
     Inr \<lparr>crc32_value = c32, crc32c_value = c32c, crc64_nvme_value = c64, sha1_value = s1, sha256_value = s256\<rparr>)))))"

definition diagnostic_header :: "http_ext \<Rightarrow> response_headers \<Rightarrow> string \<Rightarrow> string option" where
  "diagnostic_header H headers name =
     Option.bind (Option.bind (headers name) (hx_to_str H)) (\<lambda>text. if bounded_text 1024 text then Some text else None)"

definition request_ids_of :: "http_ext \<Rightarrow> response_headers \<Rightarrow> request_ids" where
  "request_ids_of H headers = \<lparr>ids_request_id = diagnostic_header H headers ''x-amz-request-id'',
     ids_host_id = diagnostic_header H headers ''x-amz-id-2''\<rparr>"

section \<open>Query strings of multipart operations\<close>

definition create_query :: "(string \<times> string) list" where "create_query = [(''uploads'', [])]"

definition upload_query :: "upload_id \<Rightarrow> (string \<times> string) list" where
  "upload_query uid = [(''uploadId'', upload_id_str uid)]"

definition upload_part_query :: "u16 \<Rightarrow> upload_id \<Rightarrow> (string \<times> string) list" where
  "upload_part_query n uid = [(''partNumber'', to_string (unat n)), (''uploadId'', upload_id_str uid)]"

definition list_parts_query :: "list_parts_request \<Rightarrow> (string \<times> string) list" where
  "list_parts_query rq =
     [(''max-parts'', to_string (unat (page_get (lp_max_parts rq)))), (''uploadId'', upload_id_str (lp_upload_id rq))] @
     (case lp_part_number_marker rq of None \<Rightarrow> [] | Some n \<Rightarrow> [(''part-number-marker'', to_string (unat (part_get n)))])"

definition list_query :: "list_uploads_request \<Rightarrow> s3_error + (string \<times> string) list" where
  "list_query rq =
     reject_if (lu_upload_id_marker rq \<noteq> None \<and> lu_key_marker rq = None)
       (configuration ''an upload-ID marker requires a key marker'')
     (Inr (push_optional_query ''upload-id-marker'' (map_option upload_id_str (lu_upload_id_marker rq))
        (push_optional_query ''prefix'' (lu_prefix rq)
          (push_optional_query ''key-marker'' (lu_key_marker rq)
            (push_optional_query ''delimiter'' (lu_delimiter rq) create_query) @
           [(''max-uploads'', to_string (unat (page_get (lu_max_uploads rq))))]))))"

section \<open>The checksum validator accepts exactly standard Base64\<close>

definition base64_alphabet :: string where
  "base64_alphabet = ''ABCDEFGHIJKLMNOPQRSTUVWXYZabcdefghijklmnopqrstuvwxyz0123456789+/''"

abbreviation b64 :: "nat \<Rightarrow> char" where "b64 i \<equiv> base64_alphabet ! i"

text \<open>RFC 4648, section 4: three bytes become four characters; a rest of one or two bytes is padded.\<close>

fun base64_encode :: "string \<Rightarrow> string" where
  "base64_encode [] = []"
| "base64_encode [x] = [b64 (ord x div 4), b64 (ord x mod 4 * 16), CHR ''='', CHR ''='']"
| "base64_encode [x, y] = [b64 (ord x div 4), b64 (ord x mod 4 * 16 + ord y div 16), b64 (ord y mod 16 * 4), CHR ''='']"
| "base64_encode (x # y # z # s) =
     b64 (ord x div 4) # b64 (ord x mod 4 * 16 + ord y div 16) # b64 (ord y mod 16 * 4 + ord z div 64) # b64 (ord z mod 64) #
     base64_encode s"

lemma b64_index: "i < 64 \<Longrightarrow> base64_index (b64 i) = Some i \<and> base64_char (b64 i)"
proof -
  have "list_all (\<lambda>i. base64_index (b64 i) = Some i \<and> base64_char (b64 i)) [0..<64]" by code_simp
  then show "i < 64 \<Longrightarrow> ?thesis" by (auto simp: list_all_iff)
qed

lemma base64_char_index: "base64_char c \<Longrightarrow> \<exists>i<64. c = b64 i"
proof -
  have a: "base64_alphabet = map char_of ([65..<91] @ [97..<123] @ [48..<58 :: nat]) @ ''+/''" by code_simp
  have l: "length base64_alphabet = 64" by code_simp
  assume "base64_char c"
  then consider "c = CHR ''+''" | "c = CHR ''/''" | "ord c \<in> {65..<91} \<union> ({97..<123} \<union> {48..<58})"
    unfolding base64_char_def byte_simps by fastforce
  then have "c \<in> set base64_alphabet"
  proof cases
    case 3
    then have "char_of (ord c) \<in> char_of ` ({65..<91} \<union> ({97..<123} \<union> {48..<58 :: nat}))" by (rule imageI)
    then show ?thesis unfolding a set_append set_map set_upt by simp
  qed (simp_all add: a)
  then show ?thesis by (metis in_set_conv_nth l)
qed

lemma trailing_zeros_dvd: "k \<le> w \<Longrightarrow> k \<le> trailing_zeros w n \<longleftrightarrow> 2 ^ k dvd n"
proof (induction w arbitrary: k n)
  case (Suc w)
  show ?case
  proof (cases k)
    case (Suc j)
    with Suc.IH[of j "n div 2"] Suc.prems show ?thesis
      by (auto simp: mult.commute elim!: evenE)
  qed simp
qed simp

lemma pad_tests:
  "2 \<le> trailing_zeros 8 n \<longleftrightarrow> n mod 4 = 0" "4 \<le> trailing_zeros 8 n \<longleftrightarrow> n mod 16 = 0"
  using trailing_zeros_dvd[of 2 8 n] trailing_zeros_dvd[of 4 8 n] by (simp_all add: dvd_eq_mod_eq_0)

text \<open>The test by its last group: full groups in front are four characters of the alphabet each.\<close>

lemma base64_char_iff: "base64_char c \<longleftrightarrow> (\<exists>i<64. c = b64 i)"
  using base64_char_index b64_index by blast

lemma list_of_four: "length v = 4 \<Longrightarrow> \<exists>a b c d. v = [a, b, c, d]"
  by (auto simp: numeral_eq_Suc length_Suc_conv)

lemma valid_base64_group:
  "valid_base64_digest [a, b, c, d] 1 \<longleftrightarrow>
     base64_char a \<and> base64_char b \<and> c = CHR ''='' \<and> d = CHR ''='' \<and> the (base64_index b) mod 16 = 0"
  "valid_base64_digest [a, b, c, d] 2 \<longleftrightarrow>
     base64_char a \<and> base64_char b \<and> base64_char c \<and> d = CHR ''='' \<and> the (base64_index c) mod 4 = 0"
  "valid_base64_digest [a, b, c, d] 3 \<longleftrightarrow> base64_char a \<and> base64_char b \<and> base64_char c \<and> base64_char d"
proof -
  have l: "div_ceil 1 3 = 1" "div_ceil 2 3 = 1" "div_ceil 3 3 = 1" "div_ceil (Suc 0) 3 = 1" by (simp_all add: div_ceil_def)
  have m: "(2 :: nat) mod 3 = Suc (Suc 0)" by simp
  have o: "\<exists>x. base64_index c = Some x" if "base64_char c" for c using base64_char_index[OF that] b64_index by blast
  have n: "valid_base64_digest [a, b, c, d] 1 = (base64_char a \<and> base64_char b \<and> c = CHR ''='' \<and> d = CHR ''='' \<and>
      (case base64_index b of None \<Rightarrow> False | Some x \<Rightarrow> x mod 16 = 0))"
    "valid_base64_digest [a, b, c, d] 2 = (base64_char a \<and> base64_char b \<and> base64_char c \<and> d = CHR ''='' \<and>
      (case base64_index c of None \<Rightarrow> False | Some x \<Rightarrow> x mod 4 = 0))"
    "valid_base64_digest [a, b, c, d] 3 = (base64_char a \<and> base64_char b \<and> base64_char c \<and> base64_char d \<and>
      base64_index d \<noteq> None)"
    unfolding valid_base64_digest_def l m Let_def pad_tests by (auto split: option.splits)
  from n o show "valid_base64_digest [a, b, c, d] 1 \<longleftrightarrow>
      base64_char a \<and> base64_char b \<and> c = CHR ''='' \<and> d = CHR ''='' \<and> the (base64_index b) mod 16 = 0"
    "valid_base64_digest [a, b, c, d] 2 \<longleftrightarrow>
      base64_char a \<and> base64_char b \<and> base64_char c \<and> d = CHR ''='' \<and> the (base64_index c) mod 4 = 0"
    "valid_base64_digest [a, b, c, d] 3 \<longleftrightarrow> base64_char a \<and> base64_char b \<and> base64_char c \<and> base64_char d"
    by (fastforce split: option.splits)+
qed

lemma valid_base64_length: "valid_base64_digest v n \<Longrightarrow> length v = div_ceil n 3 * 4"
  by (simp add: valid_base64_digest_def Let_def split: if_splits)

lemma div_ceil_add_3: "div_ceil (n + 3) 3 = div_ceil n 3 + 1"
  by (auto simp: div_ceil_def)

lemma valid_base64_Cons:
  assumes "0 < n"
  shows "valid_base64_digest (a # b # c # d # v) (n + 3) \<longleftrightarrow>
    base64_char a \<and> base64_char b \<and> base64_char c \<and> base64_char d \<and> valid_base64_digest v n"
proof -
  have pos: "0 < div_ceil n 3" using assms by (simp add: div_ceil_pos)
  define p :: nat where "p = (case n mod 3 of 0 \<Rightarrow> 0 | Suc 0 \<Rightarrow> 2 | _ \<Rightarrow> 1)"
  have p: "p \<le> 2" by (simp add: p_def split: nat.splits)
  define D where "D = div_ceil n 3 * 4 - p"
  have D: "1 \<le> D" "(div_ceil n 3 + 1) * 4 - p = Suc (Suc (Suc (Suc D)))" using pos p by (auto simp: D_def)
  have m: "(n + 3) mod 3 = n mod 3" by simp
  show ?thesis
    unfolding valid_base64_digest_def div_ceil_add_3 m Let_def p_def[symmetric] D(2) D_def[symmetric]
    using D(1) by (auto simp: nth_Cons' split: option.splits)
qed

lemma sextets:
  "ord x div 4 < 64" "ord x mod 4 * 16 < 64" "ord x mod 4 * 16 + ord y div 16 < 64"
  "ord y mod 16 * 4 < 64" "ord y mod 16 * 4 + ord z div 64 < 64" "ord z mod 64 < 64"
proof -
  have h: "ord x div 4 < 64" "ord y div 16 < 16" "ord z div 64 < 4" by (simp_all add: less_mult_imp_div_less)
  have l: "ord x mod 4 < 4" "ord y mod 16 < 16" "ord z mod 64 < 64" by simp_all
  from h l show "ord x div 4 < 64" "ord x mod 4 * 16 < 64" "ord x mod 4 * 16 + ord y div 16 < 64"
    "ord y mod 16 * 4 < 64" "ord y mod 16 * 4 + ord z div 64 < 64" "ord z mod 64 < 64" by linarith+
qed

lemma div_mod_pack: "b < n \<Longrightarrow> (a * n + b) div n = a" "b < n \<Longrightarrow> (a * n + b) mod n = b" for a b n :: nat
  by simp_all

lemma b64_facts [simp]: "i < 64 \<Longrightarrow> base64_char (b64 i)" "i < 64 \<Longrightarrow> base64_index (b64 i) = Some i"
  using b64_index by blast+

lemma base64_encode_valid: "d \<noteq> [] \<Longrightarrow> valid_base64_digest (base64_encode d) (length d)"
proof (induction d rule: base64_encode.induct)
  case (2 x)
  have "valid_base64_digest (base64_encode [x]) 1"
    unfolding base64_encode.simps valid_base64_group by (simp add: sextets)
  then show ?case by simp
next
  case (3 x y)
  have "valid_base64_digest (base64_encode [x, y]) 2"
    unfolding base64_encode.simps valid_base64_group by (simp add: sextets)
  then show ?case by (simp add: numeral_2_eq_2)
next
  case (4 x y z s)
  show ?case
  proof (cases "s = []")
    case True
    have "valid_base64_digest (base64_encode [x, y, z]) 3"
      unfolding base64_encode.simps valid_base64_group by (simp add: sextets)
    with True show ?thesis by (simp add: numeral_3_eq_3)
  next
    case False
    with 4 have "valid_base64_digest (base64_encode s) (length s)" by blast
    with False valid_base64_Cons[of "length s"] show ?thesis by (simp add: sextets numeral_3_eq_3)
  qed
qed simp

text \<open>Four sextets are three bytes.\<close>

lemma bytes_of_sextets:
  assumes "i < 64" "j < 64" "k < 64" "l < 64"
  obtains x y z where "ord x div 4 = i" "ord x mod 4 = j div 16" "ord y div 16 = j mod 16" "ord y mod 16 = k div 4"
    "ord z div 64 = k mod 4" "ord z mod 64 = l"
proof -
  let ?x = "i * 4 + j div 16" and ?y = "j mod 16 * 16 + k div 4" and ?z = "k mod 4 * 64 + l"
  have h: "j div 16 < 4" "k div 4 < 16" using assms by (simp_all add: less_mult_imp_div_less)
  have m: "j mod 16 < 16" "k mod 4 < 4" by simp_all
  have o: "?x < 256" "?y < 256" "?z < 256" using h m assms by linarith+
  have b: "ord (char_of n) = n" if "n < 256" for n :: nat using that by simp
  from div_mod_pack[OF h(1)] div_mod_pack[OF h(2)] div_mod_pack[OF assms(4)] show ?thesis
    by (intro that[of "char_of ?x" "char_of ?y" "char_of ?z"]) (simp_all only: b[OF o(1)] b[OF o(2)] b[OF o(3)])
qed

lemma base64_group_decodes:
  "valid_base64_digest [a, b, c, e] 1 \<Longrightarrow> \<exists>x. [a, b, c, e] = base64_encode [x]"
  "valid_base64_digest [a, b, c, e] 2 \<Longrightarrow> \<exists>x y. [a, b, c, e] = base64_encode [x, y]"
  "base64_char a \<and> base64_char b \<and> base64_char c \<and> base64_char e \<Longrightarrow>
     \<exists>x y z. \<forall>s. base64_encode (x # y # z # s) = a # b # c # e # base64_encode s"
proof -
  assume "valid_base64_digest [a, b, c, e] 1"
  then obtain i j where i: "i < 64" "j < 64" "a = b64 i" "b = b64 j" "j mod 16 = 0" "c = CHR ''=''" "e = CHR ''=''"
    unfolding valid_base64_group base64_char_iff by auto
  obtain x where "ord x div 4 = i" "ord x mod 4 = j div 16" using bytes_of_sextets[OF i(1,2,2,2)] by blast
  moreover from i(5) have "j div 16 * 16 = j" by (simp add: dvd_eq_mod_eq_0[symmetric])
  ultimately show "\<exists>x. [a, b, c, e] = base64_encode [x]" using i by (intro exI[of _ x]) simp
next
  assume "valid_base64_digest [a, b, c, e] 2"
  then obtain i j k where i: "i < 64" "j < 64" "k < 64" "a = b64 i" "b = b64 j" "c = b64 k" "k mod 4 = 0" "e = CHR ''=''"
    unfolding valid_base64_group base64_char_iff by auto
  obtain x y where "ord x div 4 = i" "ord x mod 4 = j div 16" "ord y div 16 = j mod 16" "ord y mod 16 = k div 4"
    using bytes_of_sextets[OF i(1,2,3,3)] by blast
  moreover from i(7) have "k div 4 * 4 = k" by (simp add: dvd_eq_mod_eq_0[symmetric])
  ultimately show "\<exists>x y. [a, b, c, e] = base64_encode [x, y]" using i by (intro exI[of _ x] exI[of _ y]) simp
next
  assume "base64_char a \<and> base64_char b \<and> base64_char c \<and> base64_char e"
  then obtain i j k l where i: "i < 64" "j < 64" "k < 64" "l < 64" and v: "a = b64 i" "b = b64 j" "c = b64 k" "e = b64 l"
    unfolding base64_char_iff by blast
  obtain x y z where "ord x div 4 = i" "ord x mod 4 = j div 16" "ord y div 16 = j mod 16" "ord y mod 16 = k div 4"
    "ord z div 64 = k mod 4" "ord z mod 64 = l" using bytes_of_sextets[OF i] by blast
  then show "\<exists>x y z. \<forall>s. base64_encode (x # y # z # s) = a # b # c # e # base64_encode s"
    using v by (intro exI[of _ x] exI[of _ y] exI[of _ z]) simp
qed

lemma four_Cons: "4 \<le> length v \<Longrightarrow> \<exists>a b c d w. v = a # b # c # d # w"
  by (auto simp: Suc_le_length_iff numeral_eq_Suc)

lemma digest_length_cases:
  assumes "0 < (n :: nat)" obtains "n = 1" | "n = 2" | "n = 3" | m where "n = m + 3" "0 < m"
proof (cases "3 < n")
  case True
  then show ?thesis using that(4)[of "n - 3"] by simp
next
  case False
  with assms have "n = 1 \<or> n = 2 \<or> n = 3" by linarith
  with that(1-3) show ?thesis by blast
qed

lemma valid_base64_decodes: "valid_base64_digest v n \<Longrightarrow> 0 < n \<Longrightarrow> \<exists>d. length d = n \<and> v = base64_encode d"
proof (induction n arbitrary: v rule: less_induct)
  case (less n)
  have l: "length v = div_ceil n 3 * 4" "0 < div_ceil n 3" using less.prems by (simp_all add: valid_base64_length div_ceil_pos)
  then obtain a b c e w where v: "v = a # b # c # e # w" using four_Cons[of v] by fastforce
  have one: "w = []" if "div_ceil n 3 = 1" using l(1) that v by simp
  from less.prems(2) show ?case
  proof (cases rule: digest_length_cases)
    case 1
    then have v4: "v = [a, b, c, e]" using one v by (simp add: div_ceil_def)
    with 1 less.prems(1) obtain x where "[a, b, c, e] = base64_encode [x]" using base64_group_decodes(1) by blast
    with v4 1 show ?thesis by (intro exI[of _ "[x]"]) simp
  next
    case 2
    then have v4: "v = [a, b, c, e]" using one v by (simp add: div_ceil_def)
    with 2 less.prems(1) obtain x y where "[a, b, c, e] = base64_encode [x, y]" using base64_group_decodes(2) by blast
    with v4 2 show ?thesis by (intro exI[of _ "[x, y]"]) simp
  next
    case 3
    then have v4: "v = [a, b, c, e]" using one v by (simp add: div_ceil_def)
    with 3 less.prems(1) obtain x y z where "\<forall>s. base64_encode (x # y # z # s) = a # b # c # e # base64_encode s"
      using base64_group_decodes(3) valid_base64_group(3) by blast
    with v4 3 show ?thesis by (intro exI[of _ "[x, y, z]"]) simp
  next
    case (4 m)
    with less.prems(1) v valid_base64_Cons[of m a b c e w] have
      s: "base64_char a \<and> base64_char b \<and> base64_char c \<and> base64_char e" "valid_base64_digest w m" by auto
    from less.IH[of m w] 4 s(2) obtain d where "length d = m" "w = base64_encode d" by auto
    moreover obtain x y z where "\<forall>s. base64_encode (x # y # z # s) = a # b # c # e # base64_encode s"
      using base64_group_decodes(3)[OF s(1)] by blast
    ultimately show ?thesis using v 4 by (intro exI[of _ "x # y # z # d"]) simp
  qed
qed

text \<open>
  Property C25. The checksum validator accepts exactly the standard encodings: for every positive digest length, a text
  passes if and only if it is the padded Base64 encoding (RFC 4648) of some digest of that length, with zero trailing bits.
\<close>

theorem valid_base64_digest_iff:
  assumes "0 < n"
  shows "valid_base64_digest v n \<longleftrightarrow> (\<exists>d. length d = n \<and> v = base64_encode d)"
  using valid_base64_decodes[OF _ assms] base64_encode_valid assms by auto

theorem valid_base64_digest_iff_witness:
  "valid_base64_digest ''AAECAw=='' 4 \<and> \<not> (\<exists>d. length d = 4 \<and> ''AAECAx=='' = base64_encode d)"
proof -
  have "valid_base64_digest ''AAECAw=='' 4" "\<not> valid_base64_digest ''AAECAx=='' 4" by code_simp+
  with valid_base64_digest_iff[of 4 "''AAECAx==''"] show ?thesis by simp
qed

section \<open>Copy sources and content ranges\<close>

lemma copy_part_no_separator: "set (percent_encode False s) \<inter> {CHR ''/'', CHR ''?''} = {}"
  and copy_key_no_query: "CHR ''?'' \<notin> set (percent_encode True s)"
proof -
  have "\<not> is_unreserved CHR ''/''" "\<not> is_unreserved CHR ''?''" "\<not> is_ascii_digit CHR ''/''" "\<not> is_ascii_digit CHR ''?''"
    "\<not> is_ascii_uppercase CHR ''/''" "\<not> is_ascii_uppercase CHR ''?''" by code_simp+
  then show "set (percent_encode False s) \<inter> {CHR ''/'', CHR ''?''} = {}" "CHR ''?'' \<notin> set (percent_encode True s)"
    using copy_part.encode_alphabet[of "CHR ''/''" s] copy_part.encode_alphabet[of "CHR ''?''" s]
      copy_key.encode_alphabet[of "CHR ''?''" s] by auto
qed

lemma version_suffix_inj:
  assumes "k @ (case v of None \<Rightarrow> [] | Some x \<Rightarrow> ''?versionId='' @ f x) = k' @ (case v' of None \<Rightarrow> [] | Some x \<Rightarrow> ''?versionId='' @ f x)"
    and "CHR ''?'' \<notin> set k" and "CHR ''?'' \<notin> set k'" and "\<And>x y. f x = f y \<longleftrightarrow> x = (y :: string)"
  shows "k = k' \<and> v = v'"
proof -
  let ?s = "\<lambda>v. case v of None \<Rightarrow> [] | Some x \<Rightarrow> ''?versionId='' @ f x"
  have q: "takeWhile (\<lambda>c. c \<noteq> CHR ''?'') (k @ ?s v) = k" if "CHR ''?'' \<notin> set k" for k v
    using that by (induction k) (auto split: option.splits)
  have "k = k'" using q[OF assms(2)] q[OF assms(3)] assms(1) by metis
  with assms(1,4) show ?thesis by (auto split: option.splits)
qed

text \<open>
  A copy source names one object version: two sources have the same header only if bucket, key and version
  are the same, whatever characters they contain.
\<close>

lemma copy_source_header_injective: "copy_source_header s = copy_source_header t \<longleftrightarrow> s = t"
proof
  assume "copy_source_header s = copy_source_header t"
  then have e: "percent_encode False (cs_bucket s) @ CHR ''/'' # percent_encode True (key_str (cs_key s)) @
      (case cs_version_id s of None \<Rightarrow> [] | Some v \<Rightarrow> ''?versionId='' @ percent_encode False v) =
    percent_encode False (cs_bucket t) @ CHR ''/'' # percent_encode True (key_str (cs_key t)) @
      (case cs_version_id t of None \<Rightarrow> [] | Some v \<Rightarrow> ''?versionId='' @ percent_encode False v)"
    by (simp add: copy_source_header_def)
  have "split_once CHR ''/'' (percent_encode False b @ CHR ''/'' # r) = Some (percent_encode False b, r)" for b r
    using copy_part_no_separator[of b] by (intro split_once_append) blast
  with e have "percent_encode False (cs_bucket s) = percent_encode False (cs_bucket t)"
    "percent_encode True (key_str (cs_key s)) @ (case cs_version_id s of None \<Rightarrow> [] | Some v \<Rightarrow> ''?versionId='' @ percent_encode False v) =
     percent_encode True (key_str (cs_key t)) @ (case cs_version_id t of None \<Rightarrow> [] | Some v \<Rightarrow> ''?versionId='' @ percent_encode False v)"
    by (metis option.inject prod.inject)+
  moreover from version_suffix_inj[OF this(2) copy_key_no_query copy_key_no_query copy_part.encode_inj]
  have "percent_encode True (key_str (cs_key s)) = percent_encode True (key_str (cs_key t))" "cs_version_id s = cs_version_id t"
    by blast+
  ultimately show "s = t"
    by (simp add: copy_part.encode_inj copy_key.encode_inj object_key.expand)
qed simp

lemma content_range_sound:
  "content_range_of v = Inr (a, b, c) \<Longrightarrow> a \<le> b \<and> (\<forall>n. c = Some n \<longrightarrow> b < n)"
  unfolding content_range_of_def
  by (auto simp: Let_def split: if_splits prod.splits)

lemma to_string_no: "\<not> is_ascii_digit d \<Longrightarrow> d \<notin> set (to_string n)"
  using to_string_digits[of n] by (auto simp: list_all_iff)

definition content_range_text :: "nat \<Rightarrow> nat \<Rightarrow> nat option \<Rightarrow> string" where
  "content_range_text a b c =
     ''bytes '' @ to_string a @ ''-'' @ to_string b @ ''/'' @ (case c of None \<Rightarrow> ''*'' | Some n \<Rightarrow> to_string n)"

text \<open>
  Content ranges are read back and checked: the text of a range with 64-bit numbers is accepted exactly when
  the range is not reversed and lies within the complete length, and then the same three numbers are returned.
\<close>

lemma content_range_round_trip:
  assumes "a \<le> U64_MAX" and "b \<le> U64_MAX" and "case c of None \<Rightarrow> True | Some n \<Rightarrow> n \<le> U64_MAX"
  shows "if a \<le> b \<and> (case c of None \<Rightarrow> True | Some n \<Rightarrow> b < n)
    then content_range_of (content_range_text a b c) = Inr (a, b, c)
    else isl (content_range_of (content_range_text a b c))"
proof -
  let ?c = "case c of None \<Rightarrow> ''*'' | Some n \<Rightarrow> to_string n"
  have nd: "\<not> is_ascii_digit CHR ''/''" "\<not> is_ascii_digit CHR ''-''" "\<not> is_ascii_digit CHR ''*''" by code_simp+
  have "CHR ''/'' \<notin> set (to_string a @ CHR ''-'' # to_string b)" using to_string_no[OF nd(1)] by simp
  then have s1: "split_once CHR ''/'' (to_string a @ CHR ''-'' # to_string b @ CHR ''/'' # r) = Some (to_string a @ CHR ''-'' # to_string b, r)" for r
    using split_once_append[of "CHR ''/''" "to_string a @ CHR ''-'' # to_string b" r] by simp
  have s2: "split_once CHR ''-'' (to_string a @ CHR ''-'' # to_string b) = Some (to_string a, to_string b)"
    using to_string_no[OF nd(2)] by (rule split_once_append)
  have p: "strip_prefix (content_range_text a b c) ''bytes '' = Some (to_string a @ CHR ''-'' # to_string b @ CHR ''/'' # ?c)"
    by (simp add: strip_prefix_Some_iff content_range_text_def)
  have star: "to_string n \<noteq> ''*''" for n using to_string_no[OF nd(3), of n] by auto
  show ?thesis
    using assms unfolding content_range_of_def p
    by (cases c) (simp_all add: s1 s2 parse_u64_to_string star not_le not_less)
qed

lemma content_range_round_trip_witness:
  "content_range_of (content_range_text 2 8 (Some 10)) = Inr (2, 8, Some 10) \<and> isl (content_range_of (content_range_text 2 10 (Some 10)))"
  using content_range_round_trip[of 2 8 "Some 10"] content_range_round_trip[of 2 10 "Some 10"] by simp

end
