(* ===== verification/Download_Stream.thy ===== *)
theory Download_Stream
  imports Stream_Core Operation_Types
begin

text \<open>
  Downloads, \<open>src/stream/download.rs\<close> and \<open>src/client/download.rs\<close>: the response stream that checks
  idle timeout, deadline, length and digest while it is polled, \<open>write_to\<close>, which copies it into a
  writer, and \<open>download_to_path\<close>, which makes the file visible only after \<open>write_to\<close> succeeded. Timers
  are given by the instant they are set to; whether the runtime reports one as elapsed, and what the
  clock reads, are inputs of each poll. File system calls are parameters.
\<close>

section \<open>The response stream\<close>

record 'd response_stream =
  rs_inner :: "poll_event list"
  rs_expected_length :: "nat option"
  rs_expected_sha256 :: "string option"
  rs_sha256 :: "'d option"
  rs_received :: nat
  rs_idle_timeout :: duration
  rs_idle :: nat
  rs_deadline :: "nat option"
  rs_finished :: bool

record poll_input =
  pi_now :: nat
  pi_elapsed :: "nat \<Rightarrow> bool"

definition response_stream_new :: "poll_event list \<Rightarrow> nat option \<Rightarrow> duration \<Rightarrow> nat \<Rightarrow> 'd response_stream" where
  "response_stream_new stream len idle_timeout now = \<lparr>rs_inner = stream, rs_expected_length = len,
     rs_expected_sha256 = None, rs_sha256 = None, rs_received = 0, rs_idle_timeout = idle_timeout,
     rs_idle = now + idle_timeout, rs_deadline = None, rs_finished = False\<rparr>"

definition response_stream_with_deadline ::
  "'d checksum_ext \<Rightarrow> poll_event list \<Rightarrow> nat option \<Rightarrow> string option \<Rightarrow> duration \<Rightarrow> nat \<Rightarrow> nat \<Rightarrow> 'd response_stream" where
  "response_stream_with_deadline X stream len sha idle_timeout deadline now =
     (response_stream_new stream len idle_timeout now)
       \<lparr>rs_expected_sha256 := sha, rs_sha256 := map_option (\<lambda>_. ce_digest_new X) sha,
        rs_deadline := Some deadline\<rparr>"

text \<open>One poll of the inner stream: its event, or the end, and what is left.\<close>

fun poll_inner :: "poll_event list \<Rightarrow> poll_event option \<times> poll_event list" where
  "poll_inner [] = (None, [])"
| "poll_inner (e # es) = (Some e, es)"

definition finish :: "'d response_stream \<Rightarrow> 'd response_stream" where
  "finish s = s\<lparr>rs_finished := True\<rparr>"

definition poll_next :: "'d checksum_ext \<Rightarrow> poll_input \<Rightarrow> 'd response_stream \<Rightarrow> frame_poll \<times> 'd response_stream" where
  "poll_next X i s =
     (if rs_finished s then (FrameEnd, s)
      else if (case rs_deadline s of Some d \<Rightarrow> pi_elapsed i d | None \<Rightarrow> False)
      then (FrameError (timeout PhaseOperation ''operation deadline expired while streaming the response body''), finish s)
      else if pi_elapsed i (rs_idle s)
      then (FrameError (timeout PhaseResponseBody ''download body was idle past its configured timeout''), finish s)
      else case poll_inner (rs_inner s) of
        (Some (PollChunk chunk), rest) \<Rightarrow>
          (let s = s\<lparr>rs_inner := rest\<rparr> in
           if chunk = [] then (FramePending, s)
           else let s = s\<lparr>rs_idle := pi_now i + rs_idle_timeout s\<rparr> in
             case checked_add_u64 (rs_received s) (length chunk) of
               None \<Rightarrow> (FrameError (integrity ''download length overflow''), finish s)
             | Some received \<Rightarrow>
                 (let s = s\<lparr>rs_received := received\<rparr> in
                  if (case rs_expected_length s of Some expected \<Rightarrow> received > expected | None \<Rightarrow> False)
                  then (FrameError (integrity ''download exceeded the declared content length''), finish s)
                  else (FrameData chunk, s\<lparr>rs_sha256 := map_option (\<lambda>h. ce_digest_update X h chunk) (rs_sha256 s)\<rparr>)))
      | (Some (PollError e), rest) \<Rightarrow> (FrameError e, finish (s\<lparr>rs_inner := rest\<rparr>))
      | (Some PollPending, rest) \<Rightarrow> (FramePending, s\<lparr>rs_inner := rest\<rparr>)
      | (None, rest) \<Rightarrow>
          (let s' = finish s in
           if (case rs_expected_length s of Some expected \<Rightarrow> rs_received s \<noteq> expected | None \<Rightarrow> False)
           then (FrameError (integrity ''download ended before the declared content length''), s')
           else case rs_expected_sha256 s of
             Some expected \<Rightarrow>
               (case rs_sha256 s of
                  Some h \<Rightarrow>
                    (if ce_digest_finalize X h = expected then (FrameEnd, s'\<lparr>rs_sha256 := None\<rparr>)
                     else (FrameError (integrity ''download bytes did not match the returned SHA-256 checksum''),
                           s'\<lparr>rs_sha256 := None\<rparr>))
                | None \<Rightarrow> (FrameError (integrity ''SHA-256 state accompanies an expected digest''), s'))
           | None \<Rightarrow> (FrameEnd, s')))"

text \<open>
  The last inner case stands for the \<open>expect\<close> that the hasher is present; the invariant shows that it
  is not reached.
\<close>

definition stream_verified ::
  "'d checksum_ext \<Rightarrow> nat option \<Rightarrow> string option \<Rightarrow> poll_event list \<Rightarrow> string \<Rightarrow> bool" where
  "stream_verified X len sha all del \<longleftrightarrow>
     del = content all \<and> \<not> list_ex faulty all \<and> (\<forall>n. len = Some n \<longrightarrow> length del = n) \<and>
     (\<forall>h. sha = Some h \<longrightarrow> ce_digest_finalize X (hashed X (pieces all)) = h)"

definition stream_inv ::
  "'d checksum_ext \<Rightarrow> nat option \<Rightarrow> string option \<Rightarrow> poll_event list \<Rightarrow> 'd response_stream \<Rightarrow> string \<Rightarrow> bool \<Rightarrow> bool" where
  "stream_inv X len sha all s del err \<longleftrightarrow>
     rs_expected_length s = len \<and> rs_expected_sha256 s = sha \<and>
     (\<forall>n. len = Some n \<longrightarrow> length del \<le> n) \<and> prefix del (content all) \<and>
     (if rs_finished s then \<not> err \<longrightarrow> stream_verified X len sha all del
      else \<not> err \<and> (\<exists>pre. all = pre @ rs_inner s \<and> \<not> list_ex faulty pre \<and> del = content pre \<and>
        rs_received s = length del \<and> rs_sha256 s = map_option (\<lambda>_. hashed X (pieces pre)) sha))"

lemma stream_inv_new:
  "stream_inv X len sha all (response_stream_with_deadline X all len sha idle deadline now) [] False"
  by (auto simp: stream_inv_def response_stream_with_deadline_def response_stream_new_def
      intro!: exI[of _ "[]"])

lemma poll_next_inv:
  assumes "stream_inv X len sha all s del err" and "poll_next X i s = (out, s')"
  shows "stream_inv X len sha all s' (del @ bytes_of out) (err \<or> is_error out)"
proof (cases "rs_finished s")
  case True
  with assms show ?thesis by (auto simp: poll_next_def)
next
  case running: False
  with assms(1) obtain pre where pre: "all = pre @ rs_inner s" "\<not> list_ex faulty pre" "del = content pre"
    "rs_received s = length del" "rs_sha256 s = map_option (\<lambda>_. hashed X (pieces pre)) sha"
    and fix_: "rs_expected_length s = len" "rs_expected_sha256 s = sha" "\<not> err"
      "\<forall>n. len = Some n \<longrightarrow> length del \<le> n"
    by (auto simp: stream_inv_def)
  note known = running pre fix_
  show ?thesis
  proof (cases "(case rs_deadline s of Some d \<Rightarrow> pi_elapsed i d | None \<Rightarrow> False) \<or> pi_elapsed i (rs_idle s)")
    case True
    with assms(2) known show ?thesis
      by (auto simp: poll_next_def stream_inv_def finish_def split: if_splits)
  next
    case quiet: False
    show ?thesis
    proof (cases "rs_inner s")
      case Nil
      with assms(2) known quiet show ?thesis
        by (auto simp: poll_next_def stream_inv_def stream_verified_def finish_def Let_def
            split: if_splits option.splits)
    next
      case (Cons e es)
      show ?thesis
      proof (cases e)
        case (PollError e')
        with assms(2) known quiet Cons show ?thesis
          by (auto simp: poll_next_def stream_inv_def finish_def)
      next
        case PollPending
        with assms(2) known quiet Cons show ?thesis
          by (auto simp: poll_next_def stream_inv_def intro!: exI[of _ "pre @ [PollPending]"])
      next
        case (PollChunk chunk)
        with assms(2) known quiet Cons show ?thesis
          by (auto simp: poll_next_def stream_inv_def finish_def Let_def checked_add_u64_def option.map_comp o_def
              intro!: exI[of _ "pre @ [PollChunk chunk]"] split: if_splits option.splits)
      qed
    qed
  qed
qed

interpretation download: stream_machine "poll_next X" "stream_inv X len sha all"
  for X len sha all
  by unfold_locales (rule poll_next_inv)


section \<open>Copying into a writer\<close>

text \<open>
  A writer is what it holds so far; \<open>write_all\<close> gives the error type name of a failure and what it
  holds afterwards. The poll inputs drive the stream: with no input left the copy is still waiting.
\<close>

record writer_ext =
  we_write_all :: "string \<Rightarrow> string \<Rightarrow> string option \<times> string"
  we_flush :: "string \<Rightarrow> string option"

definition writer_documented :: "writer_ext \<Rightarrow> bool" where
  "writer_documented W \<longleftrightarrow> (\<forall>held chunk held'. we_write_all W held chunk = (None, held') \<longrightarrow> held' = held @ chunk)"

fun write_to_loop ::
  "'d checksum_ext \<Rightarrow> writer_ext \<Rightarrow> poll_input list \<Rightarrow> 'd response_stream \<Rightarrow> nat \<Rightarrow> string
     \<Rightarrow> ((s3_error + nat) \<times> string) option" where
  "write_to_loop X W [] s written held = None"
| "write_to_loop X W (i # inputs) s written held =
     (case poll_next X i s of
        (FramePending, s') \<Rightarrow> write_to_loop X W inputs s' written held
      | (FrameError e, s') \<Rightarrow> Some (Inl e, held)
      | (FrameEnd, s') \<Rightarrow>
          (case we_flush W held of Some e \<Rightarrow> Some (Inl (transport e), held) | None \<Rightarrow> Some (Inr written, held))
      | (FrameData chunk, s') \<Rightarrow>
          (case we_write_all W held chunk of
             (Some e, held') \<Rightarrow> Some (Inl (transport e), held')
           | (None, held') \<Rightarrow>
               (case checked_add_u64 written (length chunk) of
                  None \<Rightarrow> Some (Inl (integrity ''download length overflow''), held')
                | Some written' \<Rightarrow> write_to_loop X W inputs s' written' held')))"

definition write_to ::
  "'d checksum_ext \<Rightarrow> writer_ext \<Rightarrow> poll_input list \<Rightarrow> 'd response_stream \<Rightarrow> string
     \<Rightarrow> ((s3_error + nat) \<times> string) option" where
  "write_to X W inputs s held = write_to_loop X W inputs s 0 held"

lemma write_to_loop_verified:
  assumes "writer_documented W" and "stream_inv X len sha all s held False" and "written = length held"
    and "write_to_loop X W inputs s written held = Some (Inr n, held')" and "rs_finished s \<longrightarrow> stream_verified X len sha all held"
  shows "stream_verified X len sha all held' \<and> n = length held'"
  using assms(2-5)
proof (induction inputs arbitrary: s written held)
  case (Cons i inputs)
  obtain out s' where p: "poll_next X i s = (out, s')" by fastforce
  have inv: "stream_inv X len sha all s' (held @ bytes_of out) (is_error out)"
    using download.step_inv[OF Cons.prems(1) p] by simp
  show ?case
  proof (cases out)
    case FramePending
    with inv Cons.IH[of s' held written] Cons.prems p show ?thesis by (auto simp: stream_inv_def)
  next
    case FrameEnd
    have "rs_finished s'"
      using p FrameEnd by (auto simp: poll_next_def finish_def Let_def split: if_splits option.splits prod.splits poll_event.splits)
    with inv FrameEnd have "stream_verified X len sha all held" by (simp add: stream_inv_def)
    with FrameEnd p Cons.prems show ?thesis by (auto split: option.splits)
  next
    case (FrameError e)
    with p Cons.prems show ?thesis by simp
  next
    case (FrameData chunk)
    with p Cons.prems(3) obtain h' w' where w: "we_write_all W held chunk = (None, h')" "checked_add_u64 written (length chunk) = Some w'"
      "write_to_loop X W inputs s' w' h' = Some (Inr n, held')"
      by (auto split: option.splits prod.splits)
    have h': "h' = held @ chunk" using assms(1) w(1) by (simp add: writer_documented_def)
    have w': "w' = length h'" using w(2) Cons.prems(2) h' by (auto simp: checked_add_u64_def split: if_splits)
    from inv FrameData h' have "stream_inv X len sha all s' h' False" by simp
    from Cons.IH[OF this w' w(3)] this show ?thesis by (simp add: stream_inv_def)
  qed
qed simp

section \<open>Downloading to a path\<close>

text \<open>
  The destination holds its old content, or nothing; \<open>persist\<close> renames the temporary file over it.
  The fields give the error of each file system call, if it fails: an \<open>io::Error\<close> type name, or \<open>None\<close>
  inside for a cancelled blocking task.
\<close>

record file_ext =
  fe_create_temporary :: "string option + unit"
  fe_try_clone :: "string option"
  fe_writer :: writer_ext
  fe_sync_all :: "string option"
  fe_persist :: "string option"

record download_output =
  dl_metadata :: object_metadata
  dl_bytes_written :: nat
  dl_path :: string

definition fail_with :: "string option \<Rightarrow> s3_error + unit" where
  "fail_with e = (case e of None \<Rightarrow> Inr () | Some t \<Rightarrow> Inl (transport t))"

definition persist_download :: "file_ext \<Rightarrow> string \<Rightarrow> string option \<Rightarrow> (s3_error + unit) \<times> string option" where
  "persist_download F temporary dest =
     (case fe_persist F of Some e \<Rightarrow> (Inl (transport e), dest) | None \<Rightarrow> (Inr (), Some temporary))"

text \<open>The result is \<open>None\<close> while the copy waits for input; dropping the future then leaves that state.\<close>

definition download_to_path ::
  "'d checksum_ext \<Rightarrow> file_ext \<Rightarrow> (s3_error + object_metadata \<times> 'd response_stream) \<Rightarrow> poll_input list
     \<Rightarrow> string \<Rightarrow> string option \<Rightarrow> (s3_error + download_output) option \<times> string option" where
  "download_to_path X F got inputs path dest =
     (case fe_create_temporary F of
        Inl None \<Rightarrow> (Some (Inl (cancellation ''temporary download file creation was cancelled'')), dest)
      | Inl (Some e) \<Rightarrow> (Some (Inl (transport e)), dest)
      | Inr _ \<Rightarrow>
        (case fe_try_clone F of Some e \<Rightarrow> (Some (Inl (transport e)), dest)
         | None \<Rightarrow>
           (case got of Inl e \<Rightarrow> (Some (Inl e), dest)
            | Inr (meta, body) \<Rightarrow>
              (case write_to X (fe_writer F) inputs body [] of
                 None \<Rightarrow> (None, dest)
               | Some (Inl e, held) \<Rightarrow> (Some (Inl e), dest)
               | Some (Inr n, held) \<Rightarrow>
                 (case fe_sync_all F of Some e \<Rightarrow> (Some (Inl (transport e)), dest)
                  | None \<Rightarrow>
                    (case persist_download F held dest of
                       (Inl e, dest') \<Rightarrow> (Some (Inl e), dest')
                     | (Inr _, dest') \<Rightarrow>
                       (Some (Inr \<lparr>dl_metadata = meta, dl_bytes_written = n, dl_path = path\<rparr>), dest')))))))"

text \<open>
  Property C6. A finished download is verified: whatever the timers do, the bytes handed out are a
  prefix of what the server sent and never exceed the expected length; if the stream finished without
  an error they are everything the server sent, of the expected length and with the expected SHA-256.
\<close>

theorem download_stream_verified:
  assumes "digest_documented X"
    and "polls (poll_next X) inputs (response_stream_with_deadline X all len sha idle deadline now) = (outs, s)"
  shows "prefix (delivered outs) (content all) \<and> (\<forall>n. len = Some n \<longrightarrow> length (delivered outs) \<le> n) \<and>
    (rs_finished s \<and> \<not> list_ex is_error outs \<longrightarrow>
       delivered outs = content all \<and> (\<forall>n. len = Some n \<longrightarrow> length (delivered outs) = n) \<and>
       (\<forall>h. sha = Some h \<longrightarrow> ce_sha256 X (delivered outs) = h))"
  using download.reachable_inv[OF stream_inv_new assms(2)]
  by (auto simp: stream_inv_def stream_verified_def finalize_hashed[OF assms(1)] content_def split: if_splits)

theorem download_stream_verified_witness:
  "rs_finished (snd (polls (poll_next text_ext) (replicate 3 \<lparr>pi_now = 0, pi_elapsed = (\<lambda>_. False)\<rparr>)
      (response_stream_with_deadline text_ext [PollChunk ''ab'', PollChunk ''c''] (Some 3) (Some ''cba'') 1 9 0))) \<and>
   delivered (fst (polls (poll_next text_ext) (replicate 3 \<lparr>pi_now = 0, pi_elapsed = (\<lambda>_. False)\<rparr>)
      (response_stream_with_deadline text_ext [PollChunk ''ab'', PollChunk ''c''] (Some 3) (Some ''cba'') 1 9 0))) = ''abc''"
proof -
  let ?p = "polls (poll_next text_ext) (replicate 3 \<lparr>pi_now = 0, pi_elapsed = (\<lambda>_. False)\<rparr>)
      (response_stream_with_deadline text_ext [PollChunk ''ab'', PollChunk ''c''] (Some 3) (Some ''cba'') 1 9 0)"
  have "rs_finished (snd ?p) \<and> \<not> list_ex is_error (fst ?p)"
    by (simp add: numeral_3_eq_3 poll_next_def response_stream_with_deadline_def response_stream_new_def
        text_ext_def Let_def checked_add_u64_def finish_def)
  with download_stream_verified[OF text_ext_documented surjective_pairing,
      of "replicate 3 \<lparr>pi_now = 0, pi_elapsed = (\<lambda>_. False)\<rparr>" "[PollChunk ''ab'', PollChunk ''c'']" "Some 3"
        "Some ''cba''" 1 9 0]
  show ?thesis by simp
qed

text \<open>
  Property C28. A download to a path is atomic: the destination changes only when the call succeeds,
  and then it holds everything the server sent, verified against the expected length and digest, and the
  reported count is its length. A failed or abandoned download leaves the destination as it was.
\<close>

theorem download_to_path_atomic:
  assumes "digest_documented X" and "writer_documented (fe_writer F)"
    and "got = Inr (meta, response_stream_with_deadline X all len sha idle deadline now)"
    and "download_to_path X F got inputs path dest = (result, dest')"
  shows "(case result of
      Some (Inr out) \<Rightarrow> dest' = Some (content all) \<and> dl_bytes_written out = length (content all) \<and>
        dl_metadata out = meta \<and> dl_path out = path \<and> (\<forall>n. len = Some n \<longrightarrow> length (content all) = n) \<and>
        (\<forall>h. sha = Some h \<longrightarrow> ce_sha256 X (content all) = h)
    | _ \<Rightarrow> dest' = dest)"
proof (cases "\<exists>out. result = Some (Inr out)")
  case False
  with assms(4) show ?thesis
    by (auto simp: download_to_path_def persist_download_def split: sum.splits option.splits prod.splits)
next
  case True
  let ?s = "response_stream_with_deadline X all len sha idle deadline now"
  from True assms(3,4) obtain n held where w: "write_to X (fe_writer F) inputs ?s [] = Some (Inr n, held)"
    and r: "result = Some (Inr \<lparr>dl_metadata = meta, dl_bytes_written = n, dl_path = path\<rparr>)" "dest' = Some held"
    by (auto simp: download_to_path_def persist_download_def split: sum.splits option.splits prod.splits)
  have "\<not> rs_finished ?s" by (simp add: response_stream_with_deadline_def response_stream_new_def)
  then have "stream_verified X len sha all held \<and> n = length held"
    using write_to_loop_verified[OF assms(2) stream_inv_new _ w[unfolded write_to_def]] by simp
  with r show ?thesis
    by (auto simp: stream_verified_def finalize_hashed[OF assms(1)] content_def)
qed

definition plain_file :: file_ext where
  "plain_file = \<lparr>fe_create_temporary = Inr (), fe_try_clone = None,
     fe_writer = \<lparr>we_write_all = (\<lambda>held chunk. (None, held @ chunk)), we_flush = (\<lambda>_. None)\<rparr>,
     fe_sync_all = None, fe_persist = None\<rparr>"

definition plain_metadata :: object_metadata where
  "plain_metadata = \<lparr>om_e_tag = None, om_content_length = 3, om_content_type = None, om_last_modified = None,
     om_version_id = None, om_user_metadata = [], om_checksum = no_checksum, om_request_ids = no_request_ids\<rparr>"

theorem download_to_path_atomic_witness:
  "writer_documented (fe_writer plain_file) \<and>
   snd (download_to_path text_ext plain_file
      (Inr (plain_metadata, response_stream_with_deadline text_ext [PollChunk ''ab''] (Some 3) None 1 9 0))
      (replicate 3 \<lparr>pi_now = 0, pi_elapsed = (\<lambda>_. False)\<rparr>) ''out'' (Some ''old'')) = Some ''old''"
proof -
  have w: "writer_documented (fe_writer plain_file)" by (simp add: writer_documented_def plain_file_def)
  let ?s = "response_stream_with_deadline text_ext [PollChunk ''ab''] (Some 3) None 1 9 0"
  let ?d = "download_to_path text_ext plain_file (Inr (plain_metadata, ?s))
      (replicate 3 \<lparr>pi_now = 0, pi_elapsed = (\<lambda>_. False)\<rparr>) ''out'' (Some ''old'')"
  have r: "\<exists>e. fst ?d = Some (Inl e)"
    by (simp add: numeral_3_eq_3 download_to_path_def write_to_def plain_file_def poll_next_def
        response_stream_with_deadline_def response_stream_new_def text_ext_def Let_def checked_add_u64_def finish_def)
  then show ?thesis
    using w download_to_path_atomic[OF text_ext_documented w refl surjective_pairing,
        of plain_metadata "[PollChunk ''ab'']" "Some 3" None 1 9 0 "replicate 3 \<lparr>pi_now = 0, pi_elapsed = (\<lambda>_. False)\<rparr>"
          "''out''" "Some ''old''"]
    by auto
qed

end
