(* ===== verification/Operations.thy ===== *)
theory Operations
  imports Operation_Headers Execute Download_Stream
begin

text \<open>
  The object and multipart operations of the client: \<open>src/client/object/operations.rs\<close>,
  \<open>src/client/multipart/operations.rs\<close> and \<open>copy.rs\<close>, over the two entry points of the request loop
  (\<open>send_signed\<close> and \<open>send_signed_collected_xml\<close> of \<open>src/client/request/execute.rs\<close>). An operation maps the world, the
  shared retry quota, the observer's events and what the outside does in each call of the request loop, to its result
  and the next world; \<open>None\<close> means it has not returned yet. An \<open>unreachable!\<close> is a branch that marks the world as panicked,
  and the lemmas show that no operation takes it.
\<close>

section \<open>Operations over the world\<close>

record 'd world =
  w_quota :: retry_quota
  w_trace :: "request_event list"
  w_now :: nat
  w_prepare_elapsed :: bool
  w_calls :: "'d attempt_env list list"
  w_panicked :: bool

type_synonym ('d, 'a) op = "'d world \<Rightarrow> ((s3_error + 'a) \<times> 'd world) option"

definition op_of :: "s3_error + 'a \<Rightarrow> ('d, 'a) op" where "op_of r w = Some (r, w)"

definition op_wait :: "(s3_error + 'a) option \<Rightarrow> ('d, 'a) op" where "op_wait x w = map_option (\<lambda>r. (r, w)) x"

definition op_bind :: "('d, 'a) op \<Rightarrow> ('a \<Rightarrow> ('d, 'b) op) \<Rightarrow> ('d, 'b) op" where
  "op_bind m k w = (case m w of
     None \<Rightarrow> None
   | Some (Inl e, w') \<Rightarrow> Some (Inl e, w')
   | Some (Inr x, w') \<Rightarrow> k x w')"

definition op_panic :: "('d, 'a) op" where
  "op_panic w = Some (Inl (integrity ''unreachable''), w\<lparr>w_panicked := True\<rparr>)"

text \<open>A client with everything outside the repository that its operations call.\<close>

record ('d, 'p, 'o) service =
  sv_client :: "('p, 'o) client"
  sv_request :: "'d request_ext"
  sv_uri :: uri_ext
  sv_http :: http_ext
  sv_xml :: xml_ext
  sv_read_file :: file_reader
  sv_http_date :: "offset_date_time \<Rightarrow> string"
  sv_base64_decode :: "string \<Rightarrow> string option"
  sv_md5 :: "string \<Rightarrow> string"

abbreviation sv_config :: "('d, 'p, 'o) service \<Rightarrow> ('p, 'o) s3_config" where
  "sv_config S \<equiv> cl_config (sv_client S)"

abbreviation sv_xml_limit :: "('d, 'p, 'o) service \<Rightarrow> nat" where
  "sv_xml_limit S \<equiv> cfg_max_xml_response_size (sv_config S)"

definition op_deadline :: "('d, 'p, 'o) service \<Rightarrow> (nat \<Rightarrow> ('d, 'a) op) \<Rightarrow> ('d, 'a) op" where
  "op_deadline S k w = k (deadline_new (w_now w) (cfg_operation_timeout (sv_config S))) w"

definition op_prepare :: "('d, 'p, 'o) service \<Rightarrow> upload_source \<Rightarrow> ('d, prepared_body) op" where
  "op_prepare S src w =
     op_of (prepare_body (rx_checksum (sv_request S)) (sv_read_file S) (w_prepare_elapsed w) src) w"

definition service_errors :: "('d, 'p, 'o) service \<Rightarrow> string \<Rightarrow> nat \<Rightarrow> parsed_s3_error option" where
  "service_errors S body maximum = (case parse_s3_error (sv_xml S) body maximum of Inl _ \<Rightarrow> None | Inr e \<Rightarrow> Some e)"

definition send_with_mode ::
  "('d, 'p, 'o) service \<Rightarrow> string \<Rightarrow> endpoint_url \<Rightarrow> (string \<times> string) list \<Rightarrow> header_map \<Rightarrow> prepared_body option \<Rightarrow> nat
     \<Rightarrow> success_mode \<Rightarrow> ('d, success) op" where
  "send_with_mode S mth target query headers body dl mode w = (case w_calls w of
     [] \<Rightarrow> None
   | envs # calls \<Rightarrow>
       map_option (\<lambda>(r, quota, events). (r, w\<lparr>w_quota := quota, w_trace := w_trace w @ events, w_calls := calls\<rparr>))
         (send_signed_inner (sv_client S) (sv_request S) (sv_uri S) (sv_http S) (service_errors S)
            mth target query headers body dl mode (w_quota w) envs))"

definition send_signed ::
  "('d, 'p, 'o) service \<Rightarrow> string \<Rightarrow> endpoint_url \<Rightarrow> (string \<times> string) list \<Rightarrow> header_map \<Rightarrow> prepared_body option \<Rightarrow> nat
     \<Rightarrow> ('d, http_response) op" where
  "send_signed S mth target query headers body dl =
     op_bind (send_with_mode S mth target query headers body dl Streaming) (\<lambda>s. case s of
       StreamingResponse r \<Rightarrow> op_of (Inr r)
     | CollectedResponse _ _ \<Rightarrow> op_panic)"

definition send_signed_collected_xml ::
  "('d, 'p, 'o) service \<Rightarrow> string \<Rightarrow> endpoint_url \<Rightarrow> (string \<times> string) list \<Rightarrow> header_map \<Rightarrow> prepared_body option \<Rightarrow> nat \<Rightarrow> nat
     \<Rightarrow> (string \<Rightarrow> nat \<Rightarrow> protocol_error + parsed_s3_error option) \<Rightarrow> ('d, response_headers \<times> string) op" where
  "send_signed_collected_xml S mth target query headers body dl maximum embedded =
     op_bind (send_with_mode S mth target query headers body dl (CollectedXml maximum embedded)) (\<lambda>s. case s of
       CollectedResponse h b \<Rightarrow> op_of (Inr (h, b))
     | StreamingResponse _ \<Rightarrow> op_panic)"

definition op_collect :: "('d, 'p, 'o) service \<Rightarrow> nat \<Rightarrow> nat \<Rightarrow> http_response \<Rightarrow> ('d, string) op" where
  "op_collect S maximum dl r = op_wait (collect_response (sv_config S) maximum dl r)"

definition op_drain :: "('d, 'p, 'o) service \<Rightarrow> nat \<Rightarrow> http_response \<Rightarrow> ('d, unit) op" where
  "op_drain S dl r = op_wait (drain_success_response (sv_config S) dl r)"

definition op_target :: "('d, 'p, 'o) service \<Rightarrow> string option \<Rightarrow> ('d, endpoint_url) op" where
  "op_target S key = op_of (operation_target (sv_uri S) (sv_client S) key)"

definition op_protocol :: "protocol_error + 'a \<Rightarrow> ('d, 'a) op" where
  "op_protocol r = op_of (map_err protocol_error_s3 r)"

section \<open>Object operations\<close>

definition put_headers_of :: "('d, 'p, 'o) service \<Rightarrow> 'b put_object_request \<Rightarrow> prepared_body \<Rightarrow> s3_error + header_map" where
  "put_headers_of S rq prepared =
     (let R = sv_request S in
      and_then (request_headers (put_headers rq)) (\<lambda>m.
      and_then (insert_optional_header R ''content-type'' (put_content_type rq) m) (\<lambda>m.
      and_then (insert_conditions R (sv_http_date S) (put_conditions rq) [] m) (\<lambda>m.
      and_then (insert_user_metadata R (put_user_metadata rq) m) (\<lambda>m.
      insert_upload_checksum R (put_checksum_algorithm rq) prepared m)))))"

definition put_output_of :: "http_ext \<Rightarrow> response_headers \<Rightarrow> s3_error + put_object_output" where
  "put_output_of H headers =
     and_then (response_header H headers ''etag'') (\<lambda>tag.
     and_then (response_header H headers ''x-amz-version-id'') (\<lambda>version.
     and_then (parse_checksum H headers) (\<lambda>sums.
     and_then (parse_request_ids H headers) (\<lambda>ids.
     Inr \<lparr>po_e_tag = tag, po_version_id = version, po_checksum = sums, po_request_ids = ids\<rparr>))))"

definition put_object :: "('d, 'p, 'o) service \<Rightarrow> upload_source put_object_request \<Rightarrow> ('d, put_object_output) op" where
  "put_object S rq = op_deadline S (\<lambda>dl.
     op_bind (op_prepare S (put_body rq)) (\<lambda>prepared.
     op_bind (op_of (put_headers_of S rq prepared)) (\<lambda>headers.
     op_bind (op_target S (Some (key_str (put_key rq)))) (\<lambda>target.
     op_bind (send_signed S ''PUT'' target [] headers (Some prepared) dl) (\<lambda>r.
     op_bind (op_collect S (sv_xml_limit S) dl r) (\<lambda>_.
     op_of (put_output_of (sv_http S) (resp_headers r))))))))"

definition get_headers_of ::
  "('d, 'p, 'o) service \<Rightarrow> header_map \<Rightarrow> conditions \<Rightarrow> byte_range option \<Rightarrow> s3_error + header_map" where
  "get_headers_of S headers conds byte_range =
     (let R = sv_request S in
      and_then (request_headers headers) (\<lambda>m.
      and_then (insert_conditions R (sv_http_date S) conds [] m) (\<lambda>m.
      and_then (insert_header R ''x-amz-checksum-mode'' ''ENABLED'' m) (\<lambda>m.
      insert_optional_header R ''range'' (map_option to_header_value byte_range) m))))"

text \<open>\<open>into_data_stream().map_err(classify_response_body_error)\<close>.\<close>

definition body_stream :: "body_event list \<Rightarrow> poll_event list" where
  "body_stream = map (\<lambda>e. case e of
     BodyChunk d \<Rightarrow> PollChunk d
   | BodyFailed type_name \<Rightarrow> PollError (classify_response_body_error type_name)
   | BodyNotReady \<Rightarrow> PollPending)"

definition get_output_of ::
  "('d, 'p, 'o) service \<Rightarrow> nat \<Rightarrow> http_response \<Rightarrow> s3_error + 'd response_stream get_object_output" where
  "get_output_of S dl r =
     (let H = sv_http S; headers = resp_headers r in
      and_then (parse_object_metadata H (resp_entries r)) (\<lambda>md.
      and_then (parse_content_range H headers) (\<lambda>range.
      and_then (verified_download_sha256 H (sv_base64_decode S) headers) (\<lambda>sha.
      and_then (map_transpose (parse_u64_value H) (headers ''content-length'')) (\<lambda>len.
      Inr \<lparr>go_metadata = md,
        go_body = response_stream_with_deadline (rx_checksum (sv_request S)) (body_stream (resp_stream r)) len
          (if range = None then sha else None) (cfg_idle_body_timeout (sv_config S)) dl (resp_now r),
        go_content_range = range\<rparr>)))))"

definition get_object :: "('d, 'p, 'o) service \<Rightarrow> get_object_request \<Rightarrow> ('d, 'd response_stream get_object_output) op" where
  "get_object S rq =
     op_bind (op_of (get_headers_of S (get_headers rq) (get_conditions rq) (get_range rq))) (\<lambda>headers.
     op_bind (op_target S (Some (key_str (get_key rq)))) (\<lambda>target. op_deadline S (\<lambda>dl.
     op_bind (send_signed S ''GET'' target (optional_query ''versionId'' (get_version_id rq)) headers None dl) (\<lambda>r.
     op_of (get_output_of S dl r)))))"

definition head_object :: "('d, 'p, 'o) service \<Rightarrow> head_object_request \<Rightarrow> ('d, object_metadata) op" where
  "head_object S rq =
     op_bind (op_of (get_headers_of S (head_headers rq) (head_conditions rq) None)) (\<lambda>headers.
     op_bind (op_target S (Some (key_str (head_key rq)))) (\<lambda>target. op_deadline S (\<lambda>dl.
     op_bind (send_signed S ''HEAD'' target (optional_query ''versionId'' (head_version_id rq)) headers None dl) (\<lambda>r.
     op_bind (op_of (parse_object_metadata (sv_http S) (resp_entries r))) (\<lambda>md.
     op_bind (op_collect S (sv_xml_limit S) dl r) (\<lambda>_.
     op_of (Inr md)))))))"

definition delete_output_of :: "http_ext \<Rightarrow> response_headers \<Rightarrow> s3_error + delete_object_output" where
  "delete_output_of H headers =
     and_then (parse_bool_header H headers ''x-amz-delete-marker'') (\<lambda>marker.
     and_then (response_header H headers ''x-amz-version-id'') (\<lambda>version.
     and_then (parse_request_ids H headers) (\<lambda>ids.
     Inr \<lparr>do_delete_marker = (case marker of None \<Rightarrow> False | Some b \<Rightarrow> b), do_version_id = version, do_request_ids = ids\<rparr>)))"

definition delete_object :: "('d, 'p, 'o) service \<Rightarrow> delete_object_request \<Rightarrow> ('d, delete_object_output) op" where
  "delete_object S rq =
     op_bind (op_of (and_then (request_headers (del_headers rq)) (\<lambda>m.
       insert_optional_header (sv_request S) ''if-match'' (del_if_match rq) m))) (\<lambda>headers.
     op_bind (op_target S (Some (key_str (del_key rq)))) (\<lambda>target. op_deadline S (\<lambda>dl.
     op_bind (send_signed S ''DELETE'' target (optional_query ''versionId'' (del_version_id rq)) headers None dl) (\<lambda>r.
     op_bind (op_collect S (sv_xml_limit S) dl r) (\<lambda>_.
     op_of (delete_output_of (sv_http S) (resp_headers r)))))))"

definition delete_objects :: "('d, 'p, 'o) service \<Rightarrow> delete_objects_request \<Rightarrow> ('d, delete_objects_output) op" where
  "delete_objects S rq = op_deadline S (\<lambda>dl.
     op_bind (op_protocol (serialize_delete_objects (sv_xml S) rq (sv_xml_limit S))) (\<lambda>xml.
     op_bind (op_prepare S (UploadBytes xml)) (\<lambda>prepared.
     op_bind (op_of (and_then (request_headers (dos_headers rq)) (\<lambda>m.
       and_then (insert_header (sv_request S) ''content-type'' ''application/xml'' m) (\<lambda>m.
       insert_header (sv_request S) ''content-md5'' (ce_base64 (rx_checksum (sv_request S)) (sv_md5 S xml)) m)))) (\<lambda>headers.
     op_bind (op_target S None) (\<lambda>target.
     op_bind (send_signed S ''POST'' target [(''delete'', [])] headers (Some prepared) dl) (\<lambda>r.
     op_bind (op_collect S (sv_xml_limit S) dl r) (\<lambda>body.
     op_bind (op_protocol (parse_delete_objects (sv_xml S) body (sv_xml_limit S))) (\<lambda>out.
     op_bind (op_of (parse_request_ids (sv_http S) (resp_headers r))) (\<lambda>ids.
     op_of (Inr (out\<lparr>doo_request_ids := ids\<rparr>)))))))))))"

definition copy_embedded_error :: "xml_ext \<Rightarrow> string \<Rightarrow> nat \<Rightarrow> protocol_error + parsed_s3_error option" where
  "copy_embedded_error Y body maximum =
     and_then (parse_copy_object Y body maximum) (\<lambda>p. Inr (case p of CopyOk _ \<Rightarrow> None | CopyEmbedded e \<Rightarrow> Some e))"

definition copy_headers_of :: "('d, 'p, 'o) service \<Rightarrow> copy_object_request \<Rightarrow> s3_error + header_map" where
  "copy_headers_of S rq =
     (let R = sv_request S in
      and_then (request_headers (co_headers rq)) (\<lambda>m.
      and_then (insert_header R ''x-amz-copy-source'' (copy_source_header (co_source rq)) m) (\<lambda>m.
      and_then (insert_conditions R (sv_http_date S) (co_source_conditions rq) ''x-amz-copy-source-'' m) (\<lambda>m.
      case co_metadata rq of
        CopyMetadata \<Rightarrow> Inr m
      | ReplaceMetadata ct md \<Rightarrow>
          and_then (insert_optional_header R ''content-type'' ct m) (\<lambda>m.
          and_then (insert_user_metadata R md m) (\<lambda>m.
          insert_header R ''x-amz-metadata-directive'' ''REPLACE'' m))))))"

definition copy_object :: "('d, 'p, 'o) service \<Rightarrow> copy_object_request \<Rightarrow> ('d, copy_object_output) op" where
  "copy_object S rq =
     op_bind (op_of (copy_headers_of S rq)) (\<lambda>headers.
     op_bind (op_target S (Some (key_str (co_destination rq)))) (\<lambda>target. op_deadline S (\<lambda>dl.
     op_bind (send_signed_collected_xml S ''PUT'' target [] headers None dl (sv_xml_limit S) (copy_embedded_error (sv_xml S))) (\<lambda>(h, body).
     op_bind (op_protocol (parse_copy_object (sv_xml S) body (sv_xml_limit S))) (\<lambda>p. case p of
       CopyEmbedded _ \<Rightarrow> op_panic
     | CopyOk out \<Rightarrow> op_of (
         and_then (response_header (sv_http S) h ''x-amz-version-id'') (\<lambda>version.
         and_then (parse_request_ids (sv_http S) h) (\<lambda>ids.
         and_then (parse_checksum (sv_http S) h) (\<lambda>sums.
         Inr (out\<lparr>coo_version_id := version, coo_request_ids := ids, coo_checksum := merge_checksum (coo_checksum out) sums\<rparr>))))))))))"

section \<open>Multipart operations\<close>

definition create_multipart_upload_with_deadline ::
  "('d, 'p, 'o) service \<Rightarrow> create_request \<Rightarrow> nat \<Rightarrow> ('d, create_output) op" where
  "create_multipart_upload_with_deadline S rq dl =
     op_bind (op_target S (Some (key_str (cr_key rq)))) (\<lambda>target.
     op_bind (op_of (create_headers (sv_request S) rq)) (\<lambda>headers.
     op_bind (send_signed S ''POST'' target create_query headers None dl) (\<lambda>r.
     op_bind (op_collect S (sv_xml_limit S) dl r) (\<lambda>body.
     op_bind (op_protocol (parse_create_multipart_upload (sv_xml S) body (sv_xml_limit S))) (\<lambda>out.
     op_of (Inr (out\<lparr>cro_request_ids := request_ids_of (sv_http S) (resp_headers r)\<rparr>)))))))"

definition create_multipart_upload :: "('d, 'p, 'o) service \<Rightarrow> create_request \<Rightarrow> ('d, create_output) op" where
  "create_multipart_upload S rq = op_deadline S (create_multipart_upload_with_deadline S rq)"

definition part_output_of :: "http_ext \<Rightarrow> part_number \<Rightarrow> response_headers \<Rightarrow> s3_error + upload_part_output" where
  "part_output_of H n headers =
     and_then (required_header H headers ''etag'' ''upload-part response has no usable ETag'') (\<lambda>tag.
     and_then (response_checksums H headers) (\<lambda>sums.
     Inr \<lparr>upo_part_number = n, upo_e_tag = tag, upo_checksum = sums, upo_request_ids = request_ids_of H headers\<rparr>))"

definition upload_part_with_deadline ::
  "('d, 'p, 'o) service \<Rightarrow> upload_source upload_part_request \<Rightarrow> nat \<Rightarrow> ('d, upload_part_output) op" where
  "upload_part_with_deadline S rq dl =
     op_bind (op_target S (Some (key_str (up_key rq)))) (\<lambda>target.
     op_bind (op_of (checksum_headers (sv_request S) (up_checksum rq) (up_headers rq))) (\<lambda>headers.
     op_bind (op_prepare S (up_body rq)) (\<lambda>body.
     op_bind (send_signed S ''PUT'' target (upload_part_query (part_get (up_part_number rq)) (up_upload_id rq)) headers (Some body) dl) (\<lambda>r.
     op_bind (op_drain S dl r) (\<lambda>_.
     op_of (part_output_of (sv_http S) (up_part_number rq) (resp_headers r)))))))"

definition upload_part :: "('d, 'p, 'o) service \<Rightarrow> upload_source upload_part_request \<Rightarrow> ('d, upload_part_output) op" where
  "upload_part S rq = op_deadline S (upload_part_with_deadline S rq)"

definition complete_multipart_embedded_error :: "xml_ext \<Rightarrow> string \<Rightarrow> nat \<Rightarrow> protocol_error + parsed_s3_error option" where
  "complete_multipart_embedded_error Y body maximum =
     and_then (parse_complete_multipart_upload Y body maximum) (\<lambda>p. Inr (case p of CompleteOk _ \<Rightarrow> None | CompleteEmbedded e \<Rightarrow> Some e))"

definition complete_multipart_upload_with_deadline ::
  "('d, 'p, 'o) service \<Rightarrow> complete_request \<Rightarrow> nat \<Rightarrow> ('d, complete_output) op" where
  "complete_multipart_upload_with_deadline S rq dl =
     op_bind (op_target S (Some (key_str (cmp_key rq)))) (\<lambda>target.
     op_bind (op_protocol (serialize_complete_multipart_upload (sv_xml S) rq (sv_xml_limit S))) (\<lambda>document.
     op_bind (op_prepare S (UploadBytes document)) (\<lambda>body.
     op_bind (op_of (and_then (request_headers (cmp_headers rq)) (\<lambda>m.
       insert_header (sv_request S) ''content-type'' ''application/xml'' m))) (\<lambda>headers.
     op_bind (send_signed_collected_xml S ''POST'' target (upload_query (cmp_upload_id rq)) headers (Some body) dl (sv_xml_limit S)
         (complete_multipart_embedded_error (sv_xml S))) (\<lambda>(h, answer).
     op_bind (op_of (optional_header (sv_http S) h ''x-amz-version-id'')) (\<lambda>version.
     op_bind (op_protocol (parse_complete_multipart_upload (sv_xml S) answer (sv_xml_limit S))) (\<lambda>p. case p of
       CompleteEmbedded _ \<Rightarrow> op_panic
     | CompleteOk out \<Rightarrow> op_of (Inr (out\<lparr>cmo_version_id := version, cmo_request_ids := request_ids_of (sv_http S) h\<rparr>)))))))))"

definition complete_multipart_upload :: "('d, 'p, 'o) service \<Rightarrow> complete_request \<Rightarrow> ('d, complete_output) op" where
  "complete_multipart_upload S rq = op_deadline S (complete_multipart_upload_with_deadline S rq)"

definition abort_multipart_upload_with_deadline ::
  "('d, 'p, 'o) service \<Rightarrow> abort_request \<Rightarrow> nat \<Rightarrow> ('d, request_ids) op" where
  "abort_multipart_upload_with_deadline S rq dl =
     op_bind (op_target S (Some (key_str (ab_key rq)))) (\<lambda>target.
     op_bind (op_of (request_headers (ab_headers rq))) (\<lambda>headers.
     op_bind (send_signed S ''DELETE'' target (upload_query (ab_upload_id rq)) headers None dl) (\<lambda>r.
     op_bind (op_drain S dl r) (\<lambda>_.
     op_of (Inr (request_ids_of (sv_http S) (resp_headers r)))))))"

definition abort_multipart_upload :: "('d, 'p, 'o) service \<Rightarrow> abort_request \<Rightarrow> ('d, request_ids) op" where
  "abort_multipart_upload S rq = op_deadline S (abort_multipart_upload_with_deadline S rq)"

definition upload_part_copy_embedded_error :: "xml_ext \<Rightarrow> string \<Rightarrow> nat \<Rightarrow> protocol_error + parsed_s3_error option" where
  "upload_part_copy_embedded_error Y body maximum =
     and_then (parse_upload_part_copy Y body maximum) (\<lambda>p. Inr (case p of PartCopyOk _ \<Rightarrow> None | PartCopyEmbedded e \<Rightarrow> Some e))"

definition part_copy_headers_of :: "('d, 'p, 'o) service \<Rightarrow> upload_part_copy_request \<Rightarrow> s3_error + header_map" where
  "part_copy_headers_of S rq =
     (let R = sv_request S in
      and_then (request_headers (upc_headers rq)) (\<lambda>m.
      and_then (insert_header R ''x-amz-copy-source'' (copy_source_header (upc_source rq)) m) (\<lambda>m.
      and_then (insert_optional_header R ''x-amz-copy-source-range'' (map_option copy_range_header_value (upc_source_range rq)) m) (\<lambda>m.
      insert_conditions R (sv_http_date S) (upc_source_conditions rq) ''x-amz-copy-source-'' m))))"

definition upload_part_copy :: "('d, 'p, 'o) service \<Rightarrow> upload_part_copy_request \<Rightarrow> ('d, upload_part_copy_output) op" where
  "upload_part_copy S rq =
     op_bind (op_of (part_copy_headers_of S rq)) (\<lambda>headers.
     op_bind (op_target S (Some (key_str (upc_destination rq)))) (\<lambda>target. op_deadline S (\<lambda>dl.
     op_bind (send_signed_collected_xml S ''PUT'' target (upload_part_query (part_get (upc_part_number rq)) (upc_upload_id rq)) headers None dl
         (sv_xml_limit S) (upload_part_copy_embedded_error (sv_xml S))) (\<lambda>(h, body).
     op_bind (op_protocol (parse_upload_part_copy (sv_xml S) body (sv_xml_limit S))) (\<lambda>p. case p of
       PartCopyEmbedded _ \<Rightarrow> op_panic
     | PartCopyOk res \<Rightarrow> op_of (Inr \<lparr>upco_part_number = upc_part_number rq, upco_e_tag = cpt_e_tag res,
         upco_last_modified = cpt_last_modified res, upco_checksum = cpt_checksum res,
         upco_request_ids = request_ids_of (sv_http S) h\<rparr>))))))"

section \<open>What the request loop hands to an operation\<close>

text \<open>
  The contract between the request loop and the operations: a streaming call gives a response with a success status, a
  collecting call a body within the limit in which the operation's own parser found no error document.
\<close>

fun mode_result :: "success_mode \<Rightarrow> success \<Rightarrow> bool" where
  "mode_result Streaming (StreamingResponse r) \<longleftrightarrow> is_success (resp_status r)"
| "mode_result (CollectedXml maximum embedded) (CollectedResponse h body) \<longleftrightarrow> length body \<le> maximum \<and> embedded body maximum = Inr None"
| "mode_result _ _ \<longleftrightarrow> False"

lemma success_outcome_mode:
  assumes "success_outcome E a r = Succeeded s" and "is_success (resp_status r)"
  shows "mode_result (ex_mode E) s"
  using assms
  by (auto simp: success_outcome_def Let_def collect_response_bounded
      split: success_mode.splits option.splits sum.splits)

lemma attempt_step_mode: "attempt_step E a st = Return (Inr s) st' \<Longrightarrow> mode_result (ex_mode E) s"
proof -
  assume step: "attempt_step E a st = Return (Inr s) st'"
  let ?st = "st\<lparr>ls_quota := ae_others a (ls_quota st)\<rparr>"
  obtain r st1 where sent: "send_attempt E a ?st = (r, st1)" by fastforce
  with step obtain res where res: "r = Inr res" by (cases r) (auto simp: attempt_step_def)
  have "read_outcome E a st1 res = Succeeded s"
    using step sent res
    by (cases "read_outcome E a st1 res")
      (auto simp: attempt_step_def follow_redirect_def handle_failure_def Let_def split: sum.splits prod.splits)
  then obtain x where "is_success (resp_status x)" "success_outcome E a x = Succeeded s"
    by (auto simp: read_outcome_def failure_outcome_def split: sum.splits if_splits option.splits)
  then show ?thesis using success_outcome_mode by blast
qed

lemma send_loop_mode: "send_loop E envs st = Some (Inr s, st') \<Longrightarrow> mode_result (ex_mode E) s"
  by (induction E envs st rule: send_loop.induct) (auto split: attempt_result.splits dest: attempt_step_mode)

lemma send_signed_inner_mode:
  assumes "send_signed_inner cl R U H parse mth target query headers body dl mode quota envs = Some (Inr s, q, t)"
  shows "mode_result mode s"
  using assms unfolding send_signed_inner_def Let_def
  by (auto split: sum.splits dest: send_loop_mode)

section \<open>Reasoning about operations\<close>

text \<open>\<open>yields m P\<close>: whenever \<open>m\<close> returns it has not panicked, and a value it returns satisfies \<open>P\<close>.\<close>

definition yields :: "('d, 'a) op \<Rightarrow> ('a \<Rightarrow> bool) \<Rightarrow> bool" where
  "yields m P \<longleftrightarrow> (\<forall>w r w'. m w = Some (r, w') \<longrightarrow> w_panicked w' = w_panicked w \<and> (\<forall>x. r = Inr x \<longrightarrow> P x))"

lemma yieldsD: "yields m P \<Longrightarrow> m w = Some (Inr x, w') \<Longrightarrow> P x"
  by (auto simp: yields_def)

lemma yields_of: "(\<And>x. r = Inr x \<Longrightarrow> P x) \<Longrightarrow> yields (op_of r) P"
  by (auto simp: yields_def op_of_def)

lemma yields_wait: "(\<And>x. r = Some (Inr x) \<Longrightarrow> P x) \<Longrightarrow> yields (op_wait r) P"
  by (auto simp: yields_def op_wait_def)

lemma yields_bind: "yields m P \<Longrightarrow> (\<And>x. P x \<Longrightarrow> yields (k x) Q) \<Longrightarrow> yields (op_bind m k) Q"
  unfolding yields_def op_bind_def by (fastforce split: option.splits prod.splits sum.splits)

lemma yields_deadline: "(\<And>dl. yields (k dl) P) \<Longrightarrow> yields (op_deadline S k) P"
  by (auto simp: yields_def op_deadline_def)

lemma yields_weaken: "yields m P \<Longrightarrow> (\<And>x. P x \<Longrightarrow> Q x) \<Longrightarrow> yields m Q"
  by (auto simp: yields_def)

lemma yields_prepare: "yields (op_prepare S src) (\<lambda>_. True)"
  by (simp add: yields_def op_prepare_def op_of_def)

lemma yields_send_with_mode: "yields (send_with_mode S mth target query headers body dl mode) (mode_result mode)"
  by (auto simp: yields_def send_with_mode_def split: list.splits dest: send_signed_inner_mode)

lemma yields_send_signed: "yields (send_signed S mth target query headers body dl) (\<lambda>r. is_success (resp_status r))"
  unfolding send_signed_def
  by (rule yields_bind[OF yields_send_with_mode]) (auto split: success.splits intro!: yields_of)

lemma yields_send_collected:
  "yields (send_signed_collected_xml S mth target query headers body dl maximum embedded)
     (\<lambda>(h, b). length b \<le> maximum \<and> embedded b maximum = Inr None)"
  unfolding send_signed_collected_xml_def
  by (rule yields_bind[OF yields_send_with_mode]) (auto split: success.splits intro!: yields_of)

lemma yields_any: "yields (op_of r) (\<lambda>_. True)" "yields (op_target S key) (\<lambda>_. True)" "yields (op_protocol p) (\<lambda>x. p = Inr x)"
  "yields (op_collect S maximum dl resp) (\<lambda>b. length b \<le> maximum)" "yields (op_drain S dl resp) (\<lambda>_. True)"
  by (auto simp: op_target_def op_protocol_def op_collect_def op_drain_def collect_response_bounded intro!: yields_of yields_wait)

lemmas yields_rules = yields_bind[OF yields_any(1)] yields_bind[OF yields_any(2)] yields_bind[OF yields_any(3)]
  yields_bind[OF yields_any(4)] yields_bind[OF yields_any(5)] yields_bind[OF yields_prepare]
  yields_bind[OF yields_send_signed] yields_deadline yields_of

section \<open>Operations never panic\<close>

definition never_panics :: "('d, 'a) op \<Rightarrow> bool" where
  "never_panics m \<longleftrightarrow> (\<forall>w. case m w of None \<Rightarrow> True | Some (r, w') \<Rightarrow> w_panicked w' = w_panicked w)"

lemma yields_never_panics: "yields m P \<Longrightarrow> never_panics m"
  by (auto simp: yields_def never_panics_def split: option.splits)

lemma yields_put_object: "yields (put_object S rq) (\<lambda>_. True)"
  unfolding put_object_def by (intro yields_rules) simp

lemma yields_head_object: "yields (head_object S rq) (\<lambda>_. True)"
  unfolding head_object_def by (intro yields_rules) simp

lemma yields_delete_object: "yields (delete_object S rq) (\<lambda>_. True)"
  unfolding delete_object_def by (intro yields_rules) simp

lemma yields_delete_objects: "yields (delete_objects S rq) (\<lambda>_. True)"
  unfolding delete_objects_def by (intro yields_rules) simp

lemma yields_get_object: "yields (get_object S rq) (\<lambda>out. \<exists>dl r. is_success (resp_status r) \<and> get_output_of S dl r = Inr out)"
  unfolding get_object_def by (intro yields_rules) blast

lemma yields_collected:
  assumes "\<And>h b. length b \<le> maximum \<Longrightarrow> embedded b maximum = Inr None \<Longrightarrow> yields (k h b) P"
  shows "yields (op_bind (send_signed_collected_xml S mth target query headers body dl maximum embedded) (\<lambda>(h, b). k h b)) P"
  by (rule yields_bind[OF yields_send_collected]) (auto intro: assms)

lemma yields_copy_object:
  "yields (copy_object S rq) (\<lambda>out. \<exists>body d. length body \<le> sv_xml_limit S \<and>
     parse_copy_object (sv_xml S) body (sv_xml_limit S) = Inr (CopyOk d) \<and>
     coo_e_tag out = coo_e_tag d \<and> coo_last_modified out = coo_last_modified d)"
  unfolding copy_object_def
proof (intro yields_rules yields_collected, goal_cases)
  case (1 headers target dl h body p)
  then show ?case
    by (auto simp: copy_embedded_error_def split: copy_object_response.splits intro!: yields_of exI[of _ body])
qed

lemma yields_complete:
  "yields (complete_multipart_upload_with_deadline S rq dl) (\<lambda>out. \<exists>body d. length body \<le> sv_xml_limit S \<and>
     parse_complete_multipart_upload (sv_xml S) body (sv_xml_limit S) = Inr (CompleteOk d) \<and>
     cmo_key out = cmo_key d \<and> cmo_e_tag out = cmo_e_tag d \<and> cmo_checksum out = cmo_checksum d)"
  unfolding complete_multipart_upload_with_deadline_def
proof (intro yields_rules yields_collected, goal_cases)
  case (1 target document body headers h answer version p)
  then show ?case
    by (auto simp: complete_multipart_embedded_error_def split: complete_response.splits intro!: yields_of exI[of _ answer])
qed

lemma yields_upload_part_copy:
  "yields (upload_part_copy S rq) (\<lambda>out. \<exists>body d. length body \<le> sv_xml_limit S \<and>
     parse_upload_part_copy (sv_xml S) body (sv_xml_limit S) = Inr (PartCopyOk d) \<and>
     upco_part_number out = upc_part_number rq \<and> upco_e_tag out = cpt_e_tag d \<and> upco_checksum out = cpt_checksum d)"
  unfolding upload_part_copy_def
proof (intro yields_rules yields_collected, goal_cases)
  case (1 headers target dl h body p)
  then show ?case
    by (auto simp: upload_part_copy_embedded_error_def split: upload_part_copy_response.splits intro!: yields_of exI[of _ body])
qed

lemma yields_create: "yields (create_multipart_upload_with_deadline S rq dl) (\<lambda>_. True)"
  unfolding create_multipart_upload_with_deadline_def by (intro yields_rules) simp

lemma yields_abort: "yields (abort_multipart_upload_with_deadline S rq dl) (\<lambda>_. True)"
  unfolding abort_multipart_upload_with_deadline_def by (intro yields_rules) simp

lemma yields_upload_part:
  "yields (upload_part_with_deadline S rq dl) (\<lambda>out. \<exists>headers. part_output_of (sv_http S) (up_part_number rq) headers = Inr out)"
  unfolding upload_part_with_deadline_def by (intro yields_rules) blast


section \<open>What a successful operation means\<close>

lemma parsed_root:
  "parse_copy_object Y body m = Inr (CopyOk co) \<Longrightarrow> root_is_error Y body m = Inr False"
  "parse_complete_multipart_upload Y body m = Inr (CompleteOk cu) \<Longrightarrow> root_is_error Y body m = Inr False"
  "parse_upload_part_copy Y body m = Inr (PartCopyOk cp) \<Longrightarrow> root_is_error Y body m = Inr False"
  unfolding parse_copy_object_def parse_complete_multipart_upload_def parse_upload_part_copy_def
  by (auto split: if_split_asm)

text \<open>
  Property C9. An error inside a 200 response is never a success: whenever a copy, a completion or a part copy returns a
  result, that result was read from a safe document within the configured size whose root is not the error element, and it
  carries the document's entity tag (and the requested part number).
\<close>

theorem xml_success_is_no_error:
  "yields (copy_object S copy) (\<lambda>out. \<exists>body d. safe_document body (sv_xml_limit S) \<and>
       root_is_error (sv_xml S) body (sv_xml_limit S) = Inr False \<and>
       parse_copy_object (sv_xml S) body (sv_xml_limit S) = Inr (CopyOk d) \<and> coo_e_tag out = coo_e_tag d) \<and>
   yields (complete_multipart_upload S complete) (\<lambda>out. \<exists>body d. safe_document body (sv_xml_limit S) \<and>
       root_is_error (sv_xml S) body (sv_xml_limit S) = Inr False \<and>
       parse_complete_multipart_upload (sv_xml S) body (sv_xml_limit S) = Inr (CompleteOk d) \<and>
       cmo_key out = cmo_key d \<and> cmo_e_tag out = cmo_e_tag d \<and> cmo_checksum out = cmo_checksum d) \<and>
   yields (upload_part_copy S part) (\<lambda>out. \<exists>body d. safe_document body (sv_xml_limit S) \<and>
       root_is_error (sv_xml S) body (sv_xml_limit S) = Inr False \<and>
       parse_upload_part_copy (sv_xml S) body (sv_xml_limit S) = Inr (PartCopyOk d) \<and>
       upco_part_number out = upc_part_number part \<and> upco_e_tag out = cpt_e_tag d \<and> upco_checksum out = cpt_checksum d)"
proof (intro conjI)
  show "yields (copy_object S copy) (\<lambda>out. \<exists>body d. safe_document body (sv_xml_limit S) \<and>
       root_is_error (sv_xml S) body (sv_xml_limit S) = Inr False \<and>
       parse_copy_object (sv_xml S) body (sv_xml_limit S) = Inr (CopyOk d) \<and> coo_e_tag out = coo_e_tag d)"
    by (rule yields_weaken[OF yields_copy_object]) (meson parsed_root(1) parsers_safe(5))
  show "yields (complete_multipart_upload S complete) (\<lambda>out. \<exists>body d. safe_document body (sv_xml_limit S) \<and>
       root_is_error (sv_xml S) body (sv_xml_limit S) = Inr False \<and>
       parse_complete_multipart_upload (sv_xml S) body (sv_xml_limit S) = Inr (CompleteOk d) \<and>
       cmo_key out = cmo_key d \<and> cmo_e_tag out = cmo_e_tag d \<and> cmo_checksum out = cmo_checksum d)"
    unfolding complete_multipart_upload_def
    by (rule yields_weaken[OF yields_deadline[OF yields_complete]]) (meson parsed_root(2) parsers_safe(4))
  show "yields (upload_part_copy S part) (\<lambda>out. \<exists>body d. safe_document body (sv_xml_limit S) \<and>
       root_is_error (sv_xml S) body (sv_xml_limit S) = Inr False \<and>
       parse_upload_part_copy (sv_xml S) body (sv_xml_limit S) = Inr (PartCopyOk d) \<and>
       upco_part_number out = upc_part_number part \<and> upco_e_tag out = cpt_e_tag d \<and> upco_checksum out = cpt_checksum d)"
    by (rule yields_weaken[OF yields_upload_part_copy]) (meson parsed_root(3) parsers_safe(6))
qed

text \<open>A download that is read to its end by \<open>write_to\<close> wrote as many bytes as the object's metadata announce.\<close>

definition exact_download :: "'d checksum_ext \<Rightarrow> 'd response_stream get_object_output \<Rightarrow> bool" where
  "exact_download X out \<longleftrightarrow> (\<forall>W inputs. writer_documented W \<longrightarrow>
     (case write_to X W inputs (go_body out) [] of
        Some (Inr n, written) \<Rightarrow> n = om_content_length (go_metadata out) \<and> length written = n
      | _ \<Rightarrow> True))"

lemma get_output_body:
  assumes "get_output_of S dl r = Inr out"
  shows "\<exists>sha. go_body out = response_stream_with_deadline (rx_checksum (sv_request S)) (body_stream (resp_stream r))
    (Some (om_content_length (go_metadata out))) sha (cfg_idle_body_timeout (sv_config S)) dl (resp_now r)"
proof -
  from assms obtain md range sha len where md: "parse_object_metadata (sv_http S) (resp_entries r) = Inr md"
    and len: "map_transpose (parse_u64_value (sv_http S)) (resp_headers r ''content-length'') = Inr len"
    and out: "out = \<lparr>go_metadata = md,
        go_body = response_stream_with_deadline (rx_checksum (sv_request S)) (body_stream (resp_stream r)) len
          (if range = None then sha else None) (cfg_idle_body_timeout (sv_config S)) dl (resp_now r),
        go_content_range = range\<rparr>"
    unfolding get_output_of_def Let_def by auto
  from md obtain n where "map_transpose (parse_u64_value (sv_http S)) (resp_headers r ''content-length'') = Inr (Some n)"
    "om_content_length md = n" unfolding parse_object_metadata_def Let_def by auto
  with len out show ?thesis by auto
qed

lemma write_to_exact:
  assumes "writer_documented W"
    and "write_to X W inputs (response_stream_with_deadline X all (Some len) sha idle dl now) [] = Some (Inr n, written)"
  shows "n = len \<and> length written = n"
proof -
  let ?s = "response_stream_with_deadline X all (Some len) sha idle dl now"
  have "\<not> rs_finished ?s" by (simp add: response_stream_with_deadline_def response_stream_new_def)
  with write_to_loop_verified[OF assms(1) stream_inv_new[of X "Some len" sha all idle dl now], where written = 0] assms(2)
  show ?thesis by (auto simp: write_to_def stream_verified_def)
qed

text \<open>
  Property C27. A download is never silently short or long: the body that \<open>get_object\<close> returns is guarded by the content
  length of the metadata returned with it, so that a copy of the body that succeeds has exactly that many bytes.
\<close>

theorem get_object_download_exact: "yields (get_object S rq) (exact_download (rx_checksum (sv_request S)))"
proof (rule yields_weaken[OF yields_get_object])
  fix out assume "\<exists>dl r. is_success (resp_status r) \<and> get_output_of S dl r = Inr out"
  then obtain dl and r :: http_response where "get_output_of S dl r = Inr out" by blast
  from get_output_body[OF this] obtain sha where g: "go_body out = response_stream_with_deadline (rx_checksum (sv_request S))
    (body_stream (resp_stream r)) (Some (om_content_length (go_metadata out))) sha (cfg_idle_body_timeout (sv_config S)) dl (resp_now r)"
    by blast
  show "exact_download (rx_checksum (sv_request S)) out"
    unfolding exact_download_def g using write_to_exact by (fastforce split: option.splits prod.splits sum.splits)
qed

definition optional_digest :: "string option \<Rightarrow> nat \<Rightarrow> bool" where
  "optional_digest v n \<longleftrightarrow> (case v of None \<Rightarrow> True | Some x \<Rightarrow> valid_base64_digest x n)"

lemma optional_checksum_header_digest: "optional_checksum_header H headers name n = Inr v \<Longrightarrow> optional_digest v n"
  by (auto simp: optional_checksum_header_def optional_digest_def split: if_splits option.splits)

lemma part_output_facts:
  assumes "part_output_of H n headers = Inr out"
  shows "upo_part_number out = n \<and> bounded_text 2048 (upo_e_tag out) \<and>
    optional_digest (crc32_value (upo_checksum out)) 4 \<and> optional_digest (crc32c_value (upo_checksum out)) 4 \<and>
    optional_digest (crc64_nvme_value (upo_checksum out)) 8 \<and> optional_digest (sha1_value (upo_checksum out)) 20 \<and>
    optional_digest (sha256_value (upo_checksum out)) 32"
proof -
  from assms obtain tag sums where t: "required_header H headers ''etag'' ''upload-part response has no usable ETag'' = Inr tag"
    and s: "response_checksums H headers = Inr sums"
    and out: "out = \<lparr>upo_part_number = n, upo_e_tag = tag, upo_checksum = sums, upo_request_ids = request_ids_of H headers\<rparr>"
    unfolding part_output_of_def by auto
  have "bounded_text 2048 tag"
    using t by (auto simp: required_header_def optional_header_def map_transpose_def bind_eq_Some_conv split: option.splits if_splits)
  moreover have "optional_digest (crc32_value sums) 4 \<and> optional_digest (crc32c_value sums) 4 \<and>
    optional_digest (crc64_nvme_value sums) 8 \<and> optional_digest (sha1_value sums) 20 \<and> optional_digest (sha256_value sums) 32"
    using s unfolding response_checksums_def by (auto dest!: optional_checksum_header_digest)
  ultimately show ?thesis by (simp add: out)
qed

text \<open>
  An uploaded part answers for itself: a result of \<open>upload_part\<close> has the part number of the request, a
  non-empty bounded entity tag without control characters, and only checksums that are Base64 digests of the right size.
\<close>

lemma upload_part_result:
  "yields (upload_part_with_deadline S rq dl) (\<lambda>out. upo_part_number out = up_part_number rq \<and>
     bounded_text 2048 (upo_e_tag out) \<and>
     optional_digest (crc32_value (upo_checksum out)) 4 \<and> optional_digest (crc32c_value (upo_checksum out)) 4 \<and>
     optional_digest (crc64_nvme_value (upo_checksum out)) 8 \<and> optional_digest (sha1_value (upo_checksum out)) 20 \<and>
     optional_digest (sha256_value (upo_checksum out)) 32)"
  by (rule yields_weaken[OF yields_upload_part]) (auto dest: part_output_facts)

end
