(* ===== verification/Listing.thy ===== *)
theory Listing
  imports Operations
begin

text \<open>
  Listings: one page of objects, parts or multipart uploads, and the three loops that follow the service's markers up to a
  page limit (\<open>src/client/object/listing.rs\<close>, \<open>src/client/multipart/listing.rs\<close> and \<open>list_multipart_uploads\<close> of
  \<open>src/client/multipart/operations.rs\<close>). The loops share one contract, the locale \<open>pagination\<close>, which is interpreted for
  each of them: a loop succeeds exactly if the pages the service gave form a complete chain within the limit with acceptable
  markers.
\<close>

section \<open>One page\<close>

definition list_objects_query :: "list_objects_request \<Rightarrow> (string \<times> string) list" where
  "list_objects_query rq =
     (let query = [(''list-type'', ''2''), (''max-keys'', to_string (unat (page_get (lo_max_keys rq)))), (''encoding-type'', ''url'')];
          query = push_optional_query ''prefix'' (lo_prefix rq) query;
          query = push_optional_query ''delimiter'' (lo_delimiter rq) query;
          query = push_optional_query ''continuation-token'' (lo_continuation_token rq) query;
          query = push_optional_query ''start-after'' (map_option key_str (lo_start_after rq)) query in
      if lo_fetch_owner rq then query @ [(''fetch-owner'', ''true'')] else query)"

definition list_objects_v2_with_deadline ::
  "('d, 'p, 'o) service \<Rightarrow> nat \<Rightarrow> list_objects_request \<Rightarrow> ('d, list_objects_output) op" where
  "list_objects_v2_with_deadline S dl rq =
     op_bind (op_target S None) (\<lambda>target.
     op_bind (op_of (request_headers (lo_headers rq))) (\<lambda>headers.
     op_bind (send_signed S ''GET'' target (list_objects_query rq) headers None dl) (\<lambda>r.
     op_bind (op_collect S (sv_xml_limit S) dl r) (\<lambda>body.
     op_bind (op_protocol (parse_list_objects_v2 (sv_xml S) body (sv_xml_limit S))) (\<lambda>out.
     op_bind (op_of (parse_request_ids (sv_http S) (resp_headers r))) (\<lambda>ids.
     op_of (Inr (out\<lparr>loo_request_ids := ids\<rparr>))))))))"

definition list_objects_v2 :: "('d, 'p, 'o) service \<Rightarrow> list_objects_request \<Rightarrow> ('d, list_objects_output) op" where
  "list_objects_v2 S rq = op_deadline S (\<lambda>dl. list_objects_v2_with_deadline S dl rq)"

definition list_parts_with_deadline ::
  "('d, 'p, 'o) service \<Rightarrow> nat \<Rightarrow> list_parts_request \<Rightarrow> ('d, list_parts_output) op" where
  "list_parts_with_deadline S dl rq =
     op_bind (op_target S (Some (key_str (lp_key rq)))) (\<lambda>target.
     op_bind (op_of (request_headers (lp_headers rq))) (\<lambda>headers.
     op_bind (send_signed S ''GET'' target (list_parts_query rq) headers None dl) (\<lambda>r.
     op_bind (op_collect S (sv_xml_limit S) dl r) (\<lambda>body.
     op_bind (op_protocol (parse_list_parts (sv_xml S) body (sv_xml_limit S))) (\<lambda>out.
     op_of (Inr (out\<lparr>lpo_request_ids := request_ids_of (sv_http S) (resp_headers r)\<rparr>)))))))"

definition list_parts :: "('d, 'p, 'o) service \<Rightarrow> list_parts_request \<Rightarrow> ('d, list_parts_output) op" where
  "list_parts S rq = op_deadline S (\<lambda>dl. list_parts_with_deadline S dl rq)"

definition list_multipart_uploads_with_deadline ::
  "('d, 'p, 'o) service \<Rightarrow> nat \<Rightarrow> list_uploads_request \<Rightarrow> ('d, list_uploads_output) op" where
  "list_multipart_uploads_with_deadline S dl rq =
     op_bind (op_target S None) (\<lambda>target.
     op_bind (op_of (list_query rq)) (\<lambda>query.
     op_bind (op_of (request_headers (lu_headers rq))) (\<lambda>headers.
     op_bind (send_signed S ''GET'' target query headers None dl) (\<lambda>r.
     op_bind (op_collect S (sv_xml_limit S) dl r) (\<lambda>body.
     op_bind (op_protocol (parse_list_multipart_uploads (sv_xml S) body (sv_xml_limit S))) (\<lambda>out.
     op_of (Inr (out\<lparr>luo_request_ids := request_ids_of (sv_http S) (resp_headers r)\<rparr>))))))))"

definition list_multipart_uploads :: "('d, 'p, 'o) service \<Rightarrow> list_uploads_request \<Rightarrow> ('d, list_uploads_output) op" where
  "list_multipart_uploads S rq = op_deadline S (\<lambda>dl. list_multipart_uploads_with_deadline S dl rq)"

section \<open>All pages\<close>

definition validate_page_bound :: "nat \<Rightarrow> s3_error + unit" where
  "validate_page_bound n = reject_if (n = 0) (configuration ''maximum listing page count must be greater than zero'') (Inr ())"

definition page_limit_error :: "string \<Rightarrow> s3_error" where
  "page_limit_error operation = new_error OversizedResponse (operation @ '' exceeded the configured page limit'') Never"

text \<open>
  The bodies of the three \<open>for\<close> loops. \<open>seen\<close> is the hash set of markers, kept in the order of insertion.
\<close>

primrec list_objects_loop ::
  "('d, 'p, 'o) service \<Rightarrow> nat \<Rightarrow> nat \<Rightarrow> string list \<Rightarrow> list_objects_output list \<Rightarrow> list_objects_request
     \<Rightarrow> ('d, list_objects_output list) op" where
  "list_objects_loop S dl 0 seen pages rq = op_of (Inl (page_limit_error ''listing''))"
| "list_objects_loop S dl (Suc n) seen pages rq =
     op_bind (list_objects_v2_with_deadline S dl rq) (\<lambda>page.
     if \<not> loo_is_truncated page then op_of (Inr (pages @ [page]))
     else case loo_next_continuation_token page of
       None \<Rightarrow> op_of (Inl (invalid_response ''truncated listing response omitted its continuation token''))
     | Some token \<Rightarrow>
         if token \<in> set seen then op_of (Inl (invalid_response ''listing response repeated a continuation token''))
         else list_objects_loop S dl n (seen @ [token]) (pages @ [page])
           (rq\<lparr>lo_continuation_token := Some token, lo_start_after := None\<rparr>))"

definition list_objects_v2_all ::
  "('d, 'p, 'o) service \<Rightarrow> list_objects_request \<Rightarrow> nat \<Rightarrow> ('d, list_objects_output list) op" where
  "list_objects_v2_all S rq maximum_pages =
     (if maximum_pages = 0 then op_of (Inl (configuration ''maximum listing page count must be greater than zero''))
      else op_deadline S (\<lambda>dl.
        list_objects_loop S dl maximum_pages (case lo_continuation_token rq of None \<Rightarrow> [] | Some t \<Rightarrow> [t]) [] rq))"

primrec list_parts_loop ::
  "('d, 'p, 'o) service \<Rightarrow> nat \<Rightarrow> nat \<Rightarrow> u16 list \<Rightarrow> list_parts_output list \<Rightarrow> list_parts_request
     \<Rightarrow> ('d, list_parts_output list) op" where
  "list_parts_loop S dl 0 seen pages rq = op_of (Inl (page_limit_error ''ListParts''))"
| "list_parts_loop S dl (Suc n) seen pages rq =
     op_bind (list_parts_with_deadline S dl rq) (\<lambda>page.
     if \<not> lpo_is_truncated page then op_of (Inr (pages @ [page]))
     else case lpo_next_part_number_marker page of
       None \<Rightarrow> op_of (Inl (invalid_response ''truncated ListParts response omitted its next marker''))
     | Some marker \<Rightarrow>
         if (case lp_part_number_marker rq of None \<Rightarrow> False | Some current \<Rightarrow> marker \<le> current) \<or> part_get marker \<in> set seen
         then op_of (Inl (invalid_response ''ListParts response returned a non-advancing marker''))
         else list_parts_loop S dl n (seen @ [part_get marker]) (pages @ [page]) (rq\<lparr>lp_part_number_marker := Some marker\<rparr>))"

definition list_parts_all ::
  "('d, 'p, 'o) service \<Rightarrow> list_parts_request \<Rightarrow> nat \<Rightarrow> ('d, list_parts_output list) op" where
  "list_parts_all S rq maximum_pages =
     op_bind (op_of (validate_page_bound maximum_pages)) (\<lambda>_. op_deadline S (\<lambda>dl.
     list_parts_loop S dl maximum_pages (case lp_part_number_marker rq of None \<Rightarrow> [] | Some m \<Rightarrow> [part_get m]) [] rq))"

primrec list_uploads_loop ::
  "('d, 'p, 'o) service \<Rightarrow> nat \<Rightarrow> nat \<Rightarrow> (string \<times> upload_id option) list \<Rightarrow> list_uploads_output list \<Rightarrow> list_uploads_request
     \<Rightarrow> ('d, list_uploads_output list) op" where
  "list_uploads_loop S dl 0 seen pages rq = op_of (Inl (page_limit_error ''multipart-upload listing''))"
| "list_uploads_loop S dl (Suc n) seen pages rq =
     op_bind (list_multipart_uploads_with_deadline S dl rq) (\<lambda>page.
     if \<not> luo_is_truncated page then op_of (Inr (pages @ [page]))
     else case luo_next_key_marker page of
       None \<Rightarrow> op_of (Inl (invalid_response ''truncated multipart-upload listing omitted its next key marker''))
     | Some k \<Rightarrow>
         if (k, luo_next_upload_id_marker page) \<in> set seen
         then op_of (Inl (invalid_response ''multipart-upload listing repeated its pagination markers''))
         else list_uploads_loop S dl n (seen @ [(k, luo_next_upload_id_marker page)]) (pages @ [page])
           (rq\<lparr>lu_key_marker := Some k, lu_upload_id_marker := luo_next_upload_id_marker page\<rparr>))"

definition list_multipart_uploads_all ::
  "('d, 'p, 'o) service \<Rightarrow> list_uploads_request \<Rightarrow> nat \<Rightarrow> ('d, list_uploads_output list) op" where
  "list_multipart_uploads_all S rq maximum_pages =
     op_bind (op_of (validate_page_bound maximum_pages)) (\<lambda>_. op_deadline S (\<lambda>dl.
     list_uploads_loop S dl maximum_pages
       (case lu_key_marker rq of None \<Rightarrow> [] | Some k \<Rightarrow> [(k, lu_upload_id_marker rq)]) [] rq))"

section \<open>The contract of pagination\<close>

text \<open>
  \<open>fetched fetch advance rq w ps w'\<close>: the pages \<open>ps\<close> are the answers to \<open>rq\<close> and to the requests that follow from the
  pages before, and the last answer leaves the world \<open>w'\<close>.
\<close>

fun fetched ::
  "('rq \<Rightarrow> ('d, 'page) op) \<Rightarrow> ('page \<Rightarrow> 'rq \<Rightarrow> 'rq) \<Rightarrow> 'rq \<Rightarrow> 'd world \<Rightarrow> 'page list \<Rightarrow> 'd world \<Rightarrow> bool" where
  "fetched fetch advance rq w [] w' \<longleftrightarrow> w' = w"
| "fetched fetch advance rq w (p # ps) w' \<longleftrightarrow>
     (\<exists>w1. fetch rq w = Some (Inr p, w1) \<and> fetched fetch advance (advance p rq) w1 ps w')"

text \<open>Every page but the last is truncated and has a marker; the last one is not truncated.\<close>

definition complete_chain :: "('page \<Rightarrow> bool) \<Rightarrow> ('page \<Rightarrow> 'm option) \<Rightarrow> 'page list \<Rightarrow> bool" where
  "complete_chain truncated marker ps \<longleftrightarrow>
     ps \<noteq> [] \<and> \<not> truncated (last ps) \<and> list_all (\<lambda>p. truncated p \<and> marker p \<noteq> None) (butlast ps)"

definition markers_of :: "('page \<Rightarrow> 'm option) \<Rightarrow> 'page list \<Rightarrow> 'm list" where
  "markers_of marker ps = map (the o marker) (butlast ps)"

lemma complete_chain_Cons:
  "complete_chain t m (p # ps) \<longleftrightarrow> (if ps = [] then \<not> t p else t p \<and> m p \<noteq> None \<and> complete_chain t m ps)"
  by (auto simp: complete_chain_def)

lemma markers_of_Cons: "markers_of m (p # ps) = (if ps = [] then [] else the (m p) # markers_of m ps)"
  by (simp add: markers_of_def)

text \<open>The pages are answers, form a complete chain and continue acceptable markers.\<close>

definition pages_listed ::
  "('rq \<Rightarrow> ('d, 'page) op) \<Rightarrow> ('page \<Rightarrow> bool) \<Rightarrow> ('page \<Rightarrow> 'm option) \<Rightarrow> ('page \<Rightarrow> 'rq \<Rightarrow> 'rq) \<Rightarrow> ('m list \<Rightarrow> bool)
     \<Rightarrow> 'm list \<Rightarrow> 'rq \<Rightarrow> 'd world \<Rightarrow> 'page list \<Rightarrow> 'd world \<Rightarrow> bool" where
  "pages_listed fetch truncated marker advance good seen rq w ps w' \<longleftrightarrow>
     fetched fetch advance rq w ps w' \<and> complete_chain truncated marker ps \<and> good (seen @ markers_of marker ps)"

lemma pages_listed_Nil [simp]: "\<not> pages_listed f t m a g seen rq w [] w'"
  by (simp add: pages_listed_def complete_chain_def)

lemma pages_listed_single: "pages_listed f t m a g seen rq w [p] w' \<longleftrightarrow> f rq w = Some (Inr p, w') \<and> \<not> t p \<and> g seen"
  by (auto simp: pages_listed_def complete_chain_Cons markers_of_Cons)

lemma pages_listed_Cons:
  "qs \<noteq> [] \<Longrightarrow> pages_listed f t m a g seen rq w (p # qs) w' \<longleftrightarrow>
     (\<exists>w1 x. f rq w = Some (Inr p, w1) \<and> t p \<and> m p = Some x \<and> pages_listed f t m a g (seen @ [x]) (a p rq) w1 qs w')"
  by (auto simp: pages_listed_def complete_chain_Cons markers_of_Cons)

locale pagination =
  fixes fetch :: "'rq \<Rightarrow> ('d, 'page) op"
    and truncated :: "'page \<Rightarrow> bool"
    and marker :: "'page \<Rightarrow> 'm option"
    and advance :: "'page \<Rightarrow> 'rq \<Rightarrow> 'rq"
    and refused :: "'rq \<Rightarrow> 'm list \<Rightarrow> 'm \<Rightarrow> bool"
    and good :: "'m list \<Rightarrow> bool"
    and tracks :: "'rq \<Rightarrow> 'm list \<Rightarrow> bool"
    and missing :: s3_error and repeated :: s3_error and exhausted :: s3_error
    and loop :: "nat \<Rightarrow> 'm list \<Rightarrow> 'page list \<Rightarrow> 'rq \<Rightarrow> ('d, 'page list) op"
  assumes loop_0: "loop 0 seen ps rq = op_of (Inl exhausted)"
    and loop_Suc: "loop (Suc n) seen ps rq = op_bind (fetch rq) (\<lambda>page.
      if \<not> truncated page then op_of (Inr (ps @ [page]))
      else case marker page of None \<Rightarrow> op_of (Inl missing)
        | Some m \<Rightarrow> if refused rq seen m then op_of (Inl repeated) else loop n (seen @ [m]) (ps @ [page]) (advance page rq))"
    and tracks_advance: "marker page = Some m \<Longrightarrow> tracks (advance page rq) (seen @ [m])"
    and refused_iff: "tracks rq seen \<Longrightarrow> good seen \<Longrightarrow> refused rq seen m \<longleftrightarrow> \<not> good (seen @ [m])"
    and good_prefix: "good (seen @ ms) \<Longrightarrow> good seen"
begin

abbreviation listed :: "'m list \<Rightarrow> 'rq \<Rightarrow> 'd world \<Rightarrow> 'page list \<Rightarrow> 'd world \<Rightarrow> bool" where
  "listed \<equiv> pages_listed fetch truncated marker advance good"

lemma listed_good: "listed seen rq w qs w' \<Longrightarrow> good seen"
  using good_prefix by (auto simp: pages_listed_def)

lemma listed_step:
  "good seen \<Longrightarrow> (\<exists>qs. out = ps @ qs \<and> length qs \<le> Suc n \<and> listed seen rq w qs w') \<longleftrightarrow>
     (\<exists>p w1. fetch rq w = Some (Inr p, w1) \<and>
        (\<not> truncated p \<and> out = ps @ [p] \<and> w' = w1 \<or>
         truncated p \<and> (\<exists>m. marker p = Some m \<and> good (seen @ [m]) \<and>
           (\<exists>qs. out = (ps @ [p]) @ qs \<and> length qs \<le> n \<and> listed (seen @ [m]) (advance p rq) w1 qs w'))))"
  (is "_ \<Longrightarrow> ?L \<longleftrightarrow> ?R")
proof
  assume good: "good seen"
  {
    assume ?L
    then obtain qs where q: "out = ps @ qs" "length qs \<le> Suc n" "listed seen rq w qs w'" by blast
    then obtain p qs' where "qs = p # qs'" by (cases qs) auto
    with q show ?R using listed_good
      by (cases "qs' = []") (auto simp: pages_listed_single pages_listed_Cons intro!: exI[of _ qs'])
  next
    assume ?R
    then obtain p w1 where p: "fetch rq w = Some (Inr p, w1)" and
      "\<not> truncated p \<and> out = ps @ [p] \<and> w' = w1 \<or> truncated p \<and> (\<exists>m qs. marker p = Some m \<and>
         out = (ps @ [p]) @ qs \<and> length qs \<le> n \<and> listed (seen @ [m]) (advance p rq) w1 qs w')" by blast
    then show ?L
    proof (elim disjE conjE exE)
      assume "\<not> truncated p" "out = ps @ [p]" "w' = w1"
      with p good show ?L by (intro exI[of _ "[p]"]) (simp add: pages_listed_single)
    next
      fix m qs
      assume "truncated p" "marker p = Some m" "out = (ps @ [p]) @ qs" "length qs \<le> n" "listed (seen @ [m]) (advance p rq) w1 qs w'"
      moreover from this(5) have "qs \<noteq> []" by auto
      ultimately show ?L using p by (intro exI[of _ "p # qs"]) (auto simp: pages_listed_Cons)
    qed
  }
qed

lemma loop_Inr_iff:
  "tracks rq seen \<Longrightarrow> good seen \<Longrightarrow>
     loop n seen ps rq w = Some (Inr out, w') \<longleftrightarrow> (\<exists>qs. out = ps @ qs \<and> length qs \<le> n \<and> listed seen rq w qs w')"
proof (induction n arbitrary: seen ps rq w)
  case 0
  then show ?case by (simp add: loop_0 op_of_def)
next
  case (Suc n)
  have more: "loop n (seen @ [m]) (ps @ [p]) (advance p rq) w1 = Some (Inr out, w') \<longleftrightarrow>
      (\<exists>qs. out = (ps @ [p]) @ qs \<and> length qs \<le> n \<and> listed (seen @ [m]) (advance p rq) w1 qs w')"
    if "marker p = Some m" "good (seen @ [m])" for m p w1
    by (rule Suc.IH[OF tracks_advance[OF that(1)] that(2)])
  show ?case
    unfolding listed_step[OF Suc.prems(2)] loop_Suc op_bind_def
    by (auto simp: op_of_def refused_iff[OF Suc.prems] more split: option.splits prod.splits sum.splits if_splits)
qed

end

section \<open>The three listings\<close>

definition next_objects_request :: "list_objects_output \<Rightarrow> list_objects_request \<Rightarrow> list_objects_request" where
  "next_objects_request page rq = rq\<lparr>lo_continuation_token := loo_next_continuation_token page, lo_start_after := None\<rparr>"

definition next_parts_request :: "list_parts_output \<Rightarrow> list_parts_request \<Rightarrow> list_parts_request" where
  "next_parts_request page rq = rq\<lparr>lp_part_number_marker := lpo_next_part_number_marker page\<rparr>"

definition parts_marker :: "list_parts_output \<Rightarrow> u16 option" where
  "parts_marker page = map_option part_get (lpo_next_part_number_marker page)"

definition next_uploads_request :: "list_uploads_output \<Rightarrow> list_uploads_request \<Rightarrow> list_uploads_request" where
  "next_uploads_request page rq =
     rq\<lparr>lu_key_marker := luo_next_key_marker page, lu_upload_id_marker := luo_next_upload_id_marker page\<rparr>"

definition uploads_marker :: "list_uploads_output \<Rightarrow> (string \<times> upload_id option) option" where
  "uploads_marker page = map_option (\<lambda>k. (k, luo_next_upload_id_marker page)) (luo_next_key_marker page)"

lemma op_bind_cong: "(\<And>x. k x = k' x) \<Longrightarrow> op_bind m k = op_bind m k'"
  by presburger

lemma distinct_snoc: "distinct seen \<Longrightarrow> m \<in> set seen \<longleftrightarrow> \<not> distinct (seen @ [m])"
  by simp

interpretation objects: pagination "list_objects_v2_with_deadline S dl" loo_is_truncated loo_next_continuation_token
  next_objects_request "\<lambda>rq seen m. m \<in> set seen" distinct "\<lambda>rq seen. True"
  "invalid_response ''truncated listing response omitted its continuation token''"
  "invalid_response ''listing response repeated a continuation token''" "page_limit_error ''listing''"
  "list_objects_loop S dl" for S dl
  by unfold_locales (auto simp: next_objects_request_def intro!: op_bind_cong split: option.splits)

interpretation uploads: pagination "list_multipart_uploads_with_deadline S dl" luo_is_truncated uploads_marker
  next_uploads_request "\<lambda>rq seen m. m \<in> set seen" distinct "\<lambda>rq seen. True"
  "invalid_response ''truncated multipart-upload listing omitted its next key marker''"
  "invalid_response ''multipart-upload listing repeated its pagination markers''" "page_limit_error ''multipart-upload listing''"
  "list_uploads_loop S dl" for S dl
  by unfold_locales (auto simp: next_uploads_request_def uploads_marker_def intro!: op_bind_cong split: option.splits)

definition parts_tracked :: "list_parts_request \<Rightarrow> u16 list \<Rightarrow> bool" where
  "parts_tracked rq seen \<longleftrightarrow> lp_part_number_marker rq = (if seen = [] then None else Some (PartNumber (last seen)))"

definition parts_refused :: "list_parts_request \<Rightarrow> u16 list \<Rightarrow> u16 \<Rightarrow> bool" where
  "parts_refused rq seen m \<longleftrightarrow>
     (case lp_part_number_marker rq of None \<Rightarrow> False | Some current \<Rightarrow> PartNumber m \<le> current) \<or> m \<in> set seen"

lemma ascending_snoc: "ascending (seen @ [m]) \<longleftrightarrow> ascending seen \<and> (seen = [] \<or> last seen < m)"
proof (induction seen)
  case (Cons x seen)
  then show ?case by (cases "seen = []") (auto, meson last_in_set less_trans)
qed simp

lemma ascending_le_last: "ascending seen \<Longrightarrow> x \<in> set seen \<Longrightarrow> x \<le> last seen"
  by (induction seen) (auto simp: less_imp_le)

lemma parts_refused_iff: "parts_tracked rq seen \<Longrightarrow> ascending seen \<Longrightarrow> parts_refused rq seen m \<longleftrightarrow> \<not> ascending (seen @ [m])"
  unfolding parts_refused_def parts_tracked_def ascending_snoc
  using ascending_le_last[of seen m] by (auto simp: less_eq_part_number_def not_less split: if_splits)

lemma parts_loop_Suc:
  "list_parts_loop S dl (Suc n) seen ps rq = op_bind (list_parts_with_deadline S dl rq) (\<lambda>page.
      if \<not> lpo_is_truncated page then op_of (Inr (ps @ [page]))
      else case parts_marker page of None \<Rightarrow> op_of (Inl (invalid_response ''truncated ListParts response omitted its next marker''))
        | Some m \<Rightarrow> if parts_refused rq seen m then op_of (Inl (invalid_response ''ListParts response returned a non-advancing marker''))
            else list_parts_loop S dl n (seen @ [m]) (ps @ [page]) (next_parts_request page rq))"
  unfolding list_parts_loop.simps
  by (rule op_bind_cong) (simp add: parts_marker_def next_parts_request_def parts_refused_def split: option.splits)

interpretation parts: pagination "list_parts_with_deadline S dl" lpo_is_truncated parts_marker
  next_parts_request parts_refused ascending parts_tracked
  "invalid_response ''truncated ListParts response omitted its next marker''"
  "invalid_response ''ListParts response returned a non-advancing marker''" "page_limit_error ''ListParts''"
  "list_parts_loop S dl" for S dl
proof (unfold_locales, goal_cases)
  case (2 n seen ps rq)
  show ?case by (rule parts_loop_Suc)
next
  case (3 page m rq seen)
  then show ?case by (auto simp: parts_tracked_def next_parts_request_def parts_marker_def)
next
  case (4 rq seen m)
  then show ?case by (rule parts_refused_iff)
qed (simp_all add: sorted_wrt_append)

section \<open>Complete listings\<close>

abbreviation listing_deadline :: "('d, 'p, 'o) service \<Rightarrow> 'd world \<Rightarrow> nat" where
  "listing_deadline S w \<equiv> deadline_new (w_now w) (cfg_operation_timeout (sv_config S))"

text \<open>
  Property C11. Listing all objects is exact: it returns pages if and only if there are at most as many as allowed, they
  are the service's answers to the request and its continuations under one deadline, every page but the last is
  truncated and names a token, the last one is not truncated, and no token occurs twice or equals the one the caller
  started from.
\<close>

theorem list_objects_v2_all_iff:
  "list_objects_v2_all S rq n w = Some (Inr pages, w') \<longleftrightarrow>
     length pages \<le> n \<and>
     fetched (list_objects_v2_with_deadline S (listing_deadline S w)) next_objects_request rq w pages w' \<and>
     complete_chain loo_is_truncated loo_next_continuation_token pages \<and>
     distinct ((case lo_continuation_token rq of None \<Rightarrow> [] | Some t \<Rightarrow> [t]) @ markers_of loo_next_continuation_token pages)"
proof (cases "n = 0")
  case True
  then show ?thesis by (auto simp: list_objects_v2_all_def op_of_def complete_chain_def)
next
  case False
  let ?seen = "case lo_continuation_token rq of None \<Rightarrow> [] | Some t \<Rightarrow> [t]"
  have "distinct ?seen" by (simp split: option.split)
  from objects.loop_Inr_iff[OF TrueI this, of S "listing_deadline S w" n "[]"] False show ?thesis
    by (simp add: list_objects_v2_all_def op_deadline_def pages_listed_def)
qed

text \<open>
  Listing all uploads is exact in the same sense, with the pair of key and upload marker in the place of the
  token.
\<close>

lemma list_multipart_uploads_all_iff:
  "list_multipart_uploads_all S rq n w = Some (Inr pages, w') \<longleftrightarrow>
     length pages \<le> n \<and>
     fetched (list_multipart_uploads_with_deadline S (listing_deadline S w)) next_uploads_request rq w pages w' \<and>
     complete_chain luo_is_truncated uploads_marker pages \<and>
     distinct ((case lu_key_marker rq of None \<Rightarrow> [] | Some k \<Rightarrow> [(k, lu_upload_id_marker rq)]) @ markers_of uploads_marker pages)"
proof (cases "n = 0")
  case True
  then show ?thesis by (auto simp: list_multipart_uploads_all_def validate_page_bound_def op_of_def op_bind_def complete_chain_def)
next
  case False
  let ?seen = "case lu_key_marker rq of None \<Rightarrow> [] | Some k \<Rightarrow> [(k, lu_upload_id_marker rq)]"
  have "distinct ?seen" by (simp split: option.split)
  from uploads.loop_Inr_iff[OF TrueI this, of S "listing_deadline S w" n "[]"] False show ?thesis
    by (simp add: list_multipart_uploads_all_def validate_page_bound_def op_of_def op_bind_def op_deadline_def pages_listed_def)
qed

text \<open>
  Listing all parts is exact and makes progress: as for objects, and the part numbers used as markers
  increase strictly from the caller's marker on.
\<close>

lemma list_parts_all_iff:
  "list_parts_all S rq n w = Some (Inr pages, w') \<longleftrightarrow>
     length pages \<le> n \<and>
     fetched (list_parts_with_deadline S (listing_deadline S w)) next_parts_request rq w pages w' \<and>
     complete_chain lpo_is_truncated parts_marker pages \<and>
     ascending ((case lp_part_number_marker rq of None \<Rightarrow> [] | Some m \<Rightarrow> [part_get m]) @ markers_of parts_marker pages)"
proof (cases "n = 0")
  case True
  then show ?thesis by (auto simp: list_parts_all_def validate_page_bound_def op_of_def op_bind_def complete_chain_def)
next
  case False
  let ?seen = "case lp_part_number_marker rq of None \<Rightarrow> [] | Some m \<Rightarrow> [part_get m]"
  have a: "ascending ?seen" by (simp split: option.split)
  have t: "parts_tracked rq ?seen" by (simp add: parts_tracked_def split: option.split)
  from parts.loop_Inr_iff[OF t a, of S "listing_deadline S w" n "[]"] False show ?thesis
    by (simp add: list_parts_all_def validate_page_bound_def op_of_def op_bind_def op_deadline_def pages_listed_def)
qed

section \<open>Listings never panic\<close>

lemma yields_pages:
  "yields (list_objects_v2_with_deadline S dl rq) (\<lambda>_. True)"
  "yields (list_parts_with_deadline S dl rp) (\<lambda>_. True)"
  "yields (list_multipart_uploads_with_deadline S dl ru) (\<lambda>_. True)"
  unfolding list_objects_v2_with_deadline_def list_parts_with_deadline_def list_multipart_uploads_with_deadline_def
  by (intro yields_rules, simp)+

context pagination
begin

lemma loop_never_panics: "(\<And>rq. yields (fetch rq) (\<lambda>_. True)) \<Longrightarrow> yields (loop n seen ps rq) (\<lambda>_. True)"
proof (induction n arbitrary: seen ps rq)
  case (Suc n)
  then show ?case unfolding loop_Suc
    by (intro yields_bind[OF Suc.prems]) (auto intro!: yields_of split: option.split)
qed (auto simp: loop_0 intro: yields_of)

end

text \<open>
  The listings, one page or all of them, never reach a branch marked as unreachable either.
\<close>

lemma listings_never_panic:
  "never_panics (list_objects_v2_all S ro n) \<and> never_panics (list_parts_all S rp n) \<and> never_panics (list_multipart_uploads_all S ru n)"
proof (intro conjI yields_never_panics)
  show "yields (list_objects_v2_all S ro n) (\<lambda>_. True)"
    unfolding list_objects_v2_all_def
    by (simp add: yields_any(1) yields_deadline[OF objects.loop_never_panics[OF yields_pages(1)]])
  show "yields (list_parts_all S rp n) (\<lambda>_. True)"
    unfolding list_parts_all_def
    by (intro yields_bind[OF yields_any(1)] yields_deadline parts.loop_never_panics[OF yields_pages(2)])
  show "yields (list_multipart_uploads_all S ru n) (\<lambda>_. True)"
    unfolding list_multipart_uploads_all_def
    by (intro yields_bind[OF yields_any(1)] yields_deadline uploads.loop_never_panics[OF yields_pages(3)])
qed

end
