(* ===== verification/Managed_Client.thy ===== *)
theory Managed_Client
  imports Multipart_Upload Listing
begin

text \<open>
  The managed upload on the client's own operations. The locale \<open>upload_service\<close> is what
  \<open>src/client/multipart_upload.rs\<close> relies on: a part's answer has the part's number, and a completion that succeeds is
  sound. It is interpreted with \<open>create_multipart_upload\<close>, \<open>upload_part\<close>, \<open>complete_multipart_upload\<close> and
  \<open>abort_multipart_upload\<close> of \<open>src/client/multipart/operations.rs\<close>, each run in a world of its own, under the transfer
  deadline or, for the abort, the clean-up deadline.
\<close>

section \<open>The interface\<close>

fun with_sender :: "part_sender \<Rightarrow> sched_event \<Rightarrow> sched_event" where
  "with_sender send (PartDone i elapsed _) = PartDone i elapsed send"
| "with_sender send ev = ev"

definition on_service ::
  "(create_request \<Rightarrow> s3_error + create_output) \<Rightarrow> (nat \<Rightarrow> part_sender) \<Rightarrow> (complete_request \<Rightarrow> (s3_error + complete_output) option)
     \<Rightarrow> (abort_request \<Rightarrow> nat \<Rightarrow> s3_error + request_ids) \<Rightarrow> run_env \<Rightarrow> run_env" where
  "on_service create send complete abort R = R\<lparr>re_create := create,
     re_events := map (\<lambda>(k, ev). with_sender (send k) ev) (enumerate 0 (re_events R)),
     re_complete := complete, re_abort := abort\<rparr>"

locale upload_service =
  fixes create :: "create_request \<Rightarrow> s3_error + create_output"
    and send :: "nat \<Rightarrow> part_sender"
    and complete :: "complete_request \<Rightarrow> (s3_error + complete_output) option"
    and abort :: "abort_request \<Rightarrow> nat \<Rightarrow> s3_error + request_ids"
    and sound :: "complete_output \<Rightarrow> bool"
  assumes part_number: "send k rq = Inr out \<Longrightarrow> upo_part_number out = up_part_number rq"
    and completion_sound: "complete rqc = Some (Inr outc) \<Longrightarrow> sound outc"
begin

lemma events_documented: "list_all event_documented (re_events (on_service create send complete abort R))"
proof -
  have s: "sender_documented (send k)" for k using part_number by (auto simp: sender_documented_def)
  have "event_documented (with_sender (send k) ev)" for k ev by (cases ev) (simp_all add: s)
  then show ?thesis by (auto simp: on_service_def list_all_iff)
qed

lemma run_complete:
  assumes "run_multipart_upload X read_file read_exact (on_service create send complete abort R) rq = Some (Inr out, calls)"
    and "0 < mo_concurrency (mr_options rq)"
  shows "sound out \<and> (\<exists>src created completion. prepare_multipart X read_file (mr_source rq) = Inr src \<and>
    create (create_for rq) = Inr created \<and> calls = [CreateCall (create_for rq), CompleteCall completion] \<and>
    cmp_key completion = mr_key rq \<and> cmp_upload_id completion = cro_upload_id created \<and>
    map part_num (cmp_completed_parts completion) =
      [1..<div_ceil (length (source_content src)) (mo_part_size (mr_options rq)) + 1] \<and>
    (\<exists>n. part_count src (mo_part_size (mr_options rq)) = Inr n) \<and>
    (\<forall>part \<in> set (cmp_completed_parts completion).
       part_as_read read_exact (re_events (on_service create send complete abort R)) (context_for rq (cro_upload_id created) src) part))"
proof -
  let ?R = "on_service create send complete abort R"
  have f: "re_create ?R = create" "re_complete ?R = complete" by (simp_all add: on_service_def)
  from managed_upload_complete_facts[OF assms(1) events_documented assms(2)] show ?thesis
    unfolding f using completion_sound by blast
qed

end

text \<open>A part that finished was sent by one of the service's senders.\<close>

lemma on_service_sender:
  "PartDone i elapsed sender \<in> set (re_events (on_service create send complete abort R)) \<Longrightarrow> \<exists>k. sender = send k"
proof -
  assume "PartDone i elapsed sender \<in> set (re_events (on_service create send complete abort R))"
  then obtain k ev where "PartDone i elapsed sender = with_sender (send k) ev" by (auto simp: on_service_def)
  then show ?thesis by (cases ev) auto
qed

lemma no_concurrency_no_success:
  assumes "mo_concurrency (mr_options rq) = 0"
  shows "run_multipart_upload X read_file read_exact R rq \<noteq> Some (Inr out, calls)"
proof
  assume "run_multipart_upload X read_file read_exact R rq = Some (Inr out, calls)"
  then show False
  proof (cases rule: run_cases)
    case (uploaded src n created upload)
    from uploaded(4) have "upload = multipart_upload_new (mr_key rq) (cro_upload_id created)"
      by (simp add: assms upload_parts_loop.simps fill_pending.simps[of 0] sched_start_def context_for_def)
    with uploaded(5) show False
      by (simp add: finish_upload_def complete_request_new_def validate_completed_parts_def multipart_upload_new_def fail_with_abort_def Let_def)
  qed (simp_all add: fail_with_abort_def Let_def)
qed

section \<open>The client's operations\<close>

text \<open>An operation that has not returned when its deadline passes is a timeout.\<close>

definition answer_of :: "((s3_error + 'a) \<times> 'd world) option \<Rightarrow> s3_error + 'a" where
  "answer_of x = (case x of None \<Rightarrow> Inl transfer_timeout | Some (r, _) \<Rightarrow> r)"

lemma answer_of_Inr: "answer_of x = Inr y \<Longrightarrow> \<exists>w'. x = Some (Inr y, w')"
  by (auto simp: answer_of_def split: option.splits)

definition client_sender :: "('d, 'p, 'o) service \<Rightarrow> nat \<Rightarrow> 'd world \<Rightarrow> part_sender" where
  "client_sender S dl w rq = answer_of (upload_part_with_deadline S rq dl w)"

definition client_env ::
  "('d, 'p, 'o) service \<Rightarrow> nat \<Rightarrow> 'd world \<Rightarrow> (nat \<Rightarrow> 'd world) \<Rightarrow> 'd world \<Rightarrow> 'd world \<Rightarrow> run_env \<Rightarrow> run_env" where
  "client_env S dl w_create w_part w_complete w_abort R = on_service
     (\<lambda>rq. answer_of (create_multipart_upload_with_deadline S rq dl w_create))
     (\<lambda>k. client_sender S dl (w_part k))
     (\<lambda>rq. map_option fst (complete_multipart_upload_with_deadline S rq dl w_complete))
     (\<lambda>rq abort_dl. answer_of (abort_multipart_upload_with_deadline S rq abort_dl w_abort)) R"

text \<open>The output was read from a safe document that is not an error document.\<close>

definition sound_completion :: "('d, 'p, 'o) service \<Rightarrow> complete_output \<Rightarrow> bool" where
  "sound_completion S out \<longleftrightarrow> (\<exists>body d. safe_document body (sv_xml_limit S) \<and>
     root_is_error (sv_xml S) body (sv_xml_limit S) = Inr False \<and>
     parse_complete_multipart_upload (sv_xml S) body (sv_xml_limit S) = Inr (CompleteOk d) \<and>
     cmo_key out = cmo_key d \<and> cmo_e_tag out = cmo_e_tag d \<and> cmo_checksum out = cmo_checksum d)"

lemma yields_sound_completion: "yields (complete_multipart_upload_with_deadline S rq dl) (sound_completion S)"
  unfolding sound_completion_def
  by (rule yields_weaken[OF yields_complete]) (meson parsed_root(2) parsers_safe(4))

lemma client_sender_number: "client_sender S dl w rq = Inr out \<Longrightarrow> upo_part_number out = up_part_number rq"
  using yields_upload_part[of S rq dl]
  by (auto simp: client_sender_def answer_of_def yields_def split: option.splits dest!: part_output_facts)

interpretation managed: upload_service
  "\<lambda>rq. answer_of (create_multipart_upload_with_deadline S rq dl w_create)" "\<lambda>k. client_sender S dl (w_part k)"
  "\<lambda>rq. map_option fst (complete_multipart_upload_with_deadline S rq dl w_complete)"
  "\<lambda>rq abort_dl. answer_of (abort_multipart_upload_with_deadline S rq abort_dl w_abort)" "sound_completion S"
  for S dl w_create w_part w_complete w_abort
proof
  fix k rq out
  assume "client_sender S dl (w_part k) rq = Inr out"
  then show "upo_part_number out = up_part_number rq" by (rule client_sender_number)
next
  fix rqc outc
  assume "map_option fst (complete_multipart_upload_with_deadline S rqc dl w_complete) = Some (Inr outc)"
  then obtain w' where "complete_multipart_upload_with_deadline S rqc dl w_complete = Some (Inr outc, w')" by auto
  then show "sound_completion S outc" by (rule yieldsD[OF yields_sound_completion])
qed

end
