(* ===== verification/Client_Program.thy ===== *)
theory Client_Program
  imports Managed_Client
begin

text \<open>
  Programs that use the client: the artifact store, the examples and the measuring tool. A program maps the world of the client's
  operations to its result (\<open>None\<close> while it has not returned), the log of what it did so far, and the next world, so
  that what was sent is known even if the program fails or its future is dropped. Errors and log entries are those of the program.
\<close>

section \<open>Sequencing\<close>

type_synonym ('e, 'c, 'd, 'a) logged_op = "'d world \<Rightarrow> ('e + 'a) option \<times> 'c list \<times> 'd world"

definition st_of :: "'e + 'a \<Rightarrow> ('e, 'c, 'd, 'a) logged_op" where
  "st_of r w = (Some r, [], w)"

definition st_bind ::
  "('e, 'c, 'd, 'a) logged_op \<Rightarrow> ('a \<Rightarrow> ('e, 'c, 'd, 'b) logged_op) \<Rightarrow> ('e, 'c, 'd, 'b) logged_op" where
  "st_bind m k w = (case m w of
     (None, calls, w') \<Rightarrow> (None, calls, w')
   | (Some (Inl e), calls, w') \<Rightarrow> (Some (Inl e), calls, w')
   | (Some (Inr x), calls, w') \<Rightarrow> (case k x w' of (r, calls', w'') \<Rightarrow> (r, calls @ calls', w'')))"

text \<open>Awaiting one operation of the client, which gives the program its result to inspect.\<close>

definition st_call :: "((s3_error + 'a) option \<Rightarrow> 'c) \<Rightarrow> ('d, 'a) op \<Rightarrow> ('e, 'c, 'd, s3_error + 'a) logged_op" where
  "st_call logged m w = (case m w of
     None \<Rightarrow> (None, [logged None], w)
   | Some (r, w') \<Rightarrow> (Some (Inr r), [logged (Some r)], w'))"

lemma st_bind_Inr:
  "st_bind m k w = (Some (Inr y), calls, w') \<longleftrightarrow>
     (\<exists>x c1 w1 c2. m w = (Some (Inr x), c1, w1) \<and> k x w1 = (Some (Inr y), c2, w') \<and> calls = c1 @ c2)"
  by (auto simp: st_bind_def split: prod.split option.split sum.split)

lemma st_of_Inr [simp]: "st_of r w = (Some (Inr y), calls, w') \<longleftrightarrow> r = Inr y \<and> calls = [] \<and> w' = w"
  by (auto simp: st_of_def)

lemma map_err_Inr_iff: "map_err f r = Inr x \<longleftrightarrow> r = Inr x"
  by (cases r) simp_all

lemma st_bind_Inr_of: "st_bind (st_of (Inr x)) k w = k x w"
  by (simp add: st_bind_def st_of_def)

lemma st_call_Inr:
  "st_call logged m w = (Some (Inr r), calls, w') \<longleftrightarrow> m w = Some (r, w') \<and> calls = [logged (Some r)]"
  by (auto simp: st_call_def split: option.split)

section \<open>What a program does at most\<close>

text \<open>\<open>st_within m P\<close>: whether or not it has returned, everything \<open>m\<close> did satisfies \<open>P\<close>.\<close>

definition st_within :: "('e, 'c, 'd, 'a) logged_op \<Rightarrow> ('c \<Rightarrow> bool) \<Rightarrow> bool" where
  "st_within m P \<longleftrightarrow> (\<forall>w. list_all P (fst (snd (m w))))"

lemma st_within_of: "st_within (st_of r) P"
  by (simp add: st_within_def st_of_def)

lemma st_within_call: "(\<And>r. P (logged r)) \<Longrightarrow> st_within (st_call logged m) P"
  by (simp add: st_within_def st_call_def split: option.split)

lemma st_within_bind: "st_within m P \<Longrightarrow> (\<And>x. st_within (k x) P) \<Longrightarrow> st_within (st_bind m k) P"
  unfolding st_within_def st_bind_def by (simp split: prod.split option.split sum.split) (metis fst_conv snd_conv)

lemma st_within_result: "(\<And>x. r = Inr x \<Longrightarrow> st_within (k x) P) \<Longrightarrow> st_within (st_bind (st_of r) k) P"
  by (cases r) (simp_all add: st_within_def st_bind_def st_of_def split: prod.split)

section \<open>Calls of the client\<close>

text \<open>A call with what it was answered, \<open>None\<close> while it is not answered; a managed upload with the calls it made itself.\<close>

datatype client_call =
    CallPut "upload_source put_object_request" "(s3_error + put_object_output) option"
  | CallHead head_object_request "(s3_error + object_metadata) option"
  | CallGet get_object_request
  | CallDelete delete_object_request "(s3_error + delete_object_output) option"
  | CallList list_objects_request "(s3_error + list_objects_output list) option"
  | CallListPage list_objects_request "(s3_error + list_objects_output) option"
  | CallCopy copy_object_request "(s3_error + copy_object_output) option"
  | CallDeleteBatch delete_objects_request "(s3_error + delete_objects_output) option"
  | CallListUploads list_uploads_request "(s3_error + list_uploads_output) option"
  | CallAbort abort_request "(s3_error + request_ids) option"
  | CallUpload managed_request "remote_call list"

text \<open>The objects a call names.\<close>

fun call_keys :: "client_call \<Rightarrow> object_key list" where
  "call_keys (CallPut rq _) = [put_key rq]"
| "call_keys (CallHead rq _) = [head_key rq]"
| "call_keys (CallGet rq) = [get_key rq]"
| "call_keys (CallDelete rq _) = [del_key rq]"
| "call_keys (CallDeleteBatch rq _) = map doi_key (dos_objects rq)"
| "call_keys (CallUpload rq _) = [mr_key rq]"
| "call_keys (CallAbort rq _) = [ab_key rq]"
| "call_keys (CallCopy rq _) = [cs_key (co_source rq), co_destination rq]"
| "call_keys (CallList rq _) = []"
| "call_keys (CallListPage rq _) = []"
| "call_keys (CallListUploads rq _) = []"

text \<open>
  The objects a program may have left behind, read off its calls: whatever it put, copied to or uploaded, answered or not, until a deletion
  of it is answered with success. A batch deletion in quiet mode lists only what failed, so an empty error list confirms all its keys.
\<close>

fun left_step :: "client_call \<Rightarrow> object_key set \<Rightarrow> object_key set" where
  "left_step (CallPut rq _) K = insert (put_key rq) K"
| "left_step (CallCopy rq _) K = insert (co_destination rq) K"
| "left_step (CallUpload rq _) K = insert (mr_key rq) K"
| "left_step (CallDelete rq (Some (Inr _))) K = K - {del_key rq}"
| "left_step (CallDeleteBatch rq (Some (Inr out))) K = (if doo_errors out = [] then K - doi_key ` set (dos_objects rq) else K)"
| "left_step _ K = K"

definition left_behind :: "client_call list \<Rightarrow> object_key set" where
  "left_behind calls = fold left_step calls {}"

text \<open>The default requests, before a field is set.\<close>

definition default_list_objects_request :: list_objects_request where
  "default_list_objects_request = \<lparr>lo_prefix = None, lo_delimiter = None, lo_continuation_token = None, lo_start_after = None,
     lo_max_keys = default_page_size, lo_fetch_owner = False, lo_headers = []\<rparr>"

definition default_list_uploads_request :: list_uploads_request where
  "default_list_uploads_request = \<lparr>lu_prefix = None, lu_delimiter = None, lu_key_marker = None, lu_upload_id_marker = None,
     lu_max_uploads = default_page_size, lu_headers = []\<rparr>"

section \<open>Managed uploads\<close>

text \<open>
  The worlds in which the requests of a managed upload run, whether the runtime is missing or the worker panics, whether a deadline can be
  represented, and whether the caller's token is cancelled before the upload's result is there.
\<close>

record 'd upload_world =
  uw_representable :: "duration \<Rightarrow> bool"
  uw_now :: nat
  uw_no_runtime :: "string option"
  uw_worker_panicked :: "string option"
  uw_create :: "'d world"
  uw_part :: "nat \<Rightarrow> 'd world"
  uw_complete :: "'d world"
  uw_abort :: "'d world"
  uw_run :: run_env
  uw_read_exact :: "string \<Rightarrow> nat \<Rightarrow> nat \<Rightarrow> string + string"
  uw_token_first :: bool

definition upload_managed ::
  "('d, 'p, 'o) service \<Rightarrow> 'd upload_world \<Rightarrow> managed_request \<Rightarrow> ((s3_error + complete_output) \<times> remote_call list) option" where
  "upload_managed S U rq =
     multipart_upload_task (uw_no_runtime U) (uw_worker_panicked U) (rx_checksum (sv_request S)) (sv_read_file S) (uw_read_exact U)
       (client_env S (deadline_new (uw_now U) (mo_transfer_timeout (mr_options rq)))
          (uw_create U) (uw_part U) (uw_complete U) (uw_abort U) (uw_run U)) rq"

definition st_upload ::
  "(client_call \<Rightarrow> 'c) \<Rightarrow> ('d, 'p, 'o) service \<Rightarrow> 'd upload_world \<Rightarrow> managed_request \<Rightarrow> ('e, 'c, 'd, s3_error + complete_output) logged_op" where
  "st_upload logged S U rq w = (case upload_managed S U rq of
     None \<Rightarrow> (None, [logged (CallUpload rq [])], w)
   | Some (r, remote) \<Rightarrow> (Some (Inr r), [logged (CallUpload rq remote)], w))"

text \<open>The request of one part, as the client sent it in one of the worlds of the upload's parts: its body, its number, and the tag it was answered with.\<close>

abbreviation upload_deadline :: "'d upload_world \<Rightarrow> managed_request \<Rightarrow> nat" where
  "upload_deadline U rq \<equiv> deadline_new (uw_now U) (mo_transfer_timeout (mr_options rq))"

definition part_uploaded ::
  "('d, 'p, 'o) service \<Rightarrow> 'd upload_world \<Rightarrow> managed_request \<Rightarrow> upload_id \<Rightarrow> string \<Rightarrow> completed_part \<Rightarrow> bool" where
  "part_uploaded S U rq uid body part \<longleftrightarrow> (\<exists>k prq out w'.
     upload_part_with_deadline S prq (upload_deadline U rq) (uw_part U k) = Some (Inr out, w') \<and>
     up_key prq = mr_key rq \<and> up_upload_id prq = uid \<and> up_part_number prq = cp_part_number part \<and> up_body prq = UploadBytes body \<and>
     upo_e_tag out = cp_e_tag part)"

text \<open>
  A managed upload that succeeds created one upload, uploaded every part of its source to it with the bytes read for that part, and completed it
  with the answers to those parts, in order.
\<close>

definition complete_upload :: "('d, 'p, 'o) service \<Rightarrow> 'd upload_world \<Rightarrow> managed_request \<Rightarrow> remote_call list \<Rightarrow> bool" where
  "complete_upload S U rq remote \<longleftrightarrow> (\<exists>src uid completion.
     prepare_multipart (rx_checksum (sv_request S)) (sv_read_file S) (mr_source rq) = Inr src \<and>
     remote = [CreateCall (create_for rq), CompleteCall completion] \<and> cmp_key completion = mr_key rq \<and> cmp_upload_id completion = uid \<and>
     map part_num (cmp_completed_parts completion) =
       [1..<div_ceil (length (source_content src)) (mo_part_size (mr_options rq)) + 1] \<and>
     (\<exists>n. part_count src (mo_part_size (mr_options rq)) = Inr n) \<and>
     (\<forall>part \<in> set (cmp_completed_parts completion). \<exists>body.
        read_part (uw_read_exact U) src (mo_part_size (mr_options rq)) (part_get (cp_part_number part)) = Inr body \<and>
        part_uploaded S U rq uid body part))"

lemma sent_part_uploaded:
  assumes "sent_part (re_events (client_env S (upload_deadline U rq) (uw_create U) (uw_part U) (uw_complete U) (uw_abort U) (uw_run U)))
    (mr_key rq) uid body part"
  shows "part_uploaded S U rq uid body part"
proof -
  from assms obtain i elapsed send prq out where
    s: "PartDone i elapsed send \<in> set (re_events (client_env S (upload_deadline U rq) (uw_create U) (uw_part U) (uw_complete U) (uw_abort U) (uw_run U)))"
      "send prq = Inr out" and f: "up_key prq = mr_key rq" "up_upload_id prq = uid" "up_part_number prq = cp_part_number part"
      "up_body prq = UploadBytes body" "upo_e_tag out = cp_e_tag part" unfolding sent_part_def by blast
  from on_service_sender[OF s(1)[unfolded client_env_def]] obtain k where "send = client_sender S (upload_deadline U rq) (uw_part U k)" by blast
  with s(2) have "answer_of (upload_part_with_deadline S prq (upload_deadline U rq) (uw_part U k)) = Inr out" by (simp add: client_sender_def)
  from answer_of_Inr[OF this] f show ?thesis unfolding part_uploaded_def by blast
qed

lemma upload_managed_Inr:
  assumes "upload_managed S U rq = Some (Inr out, remote)"
  shows "complete_upload S U rq remote"
proof -
  have run: "run_multipart_upload (rx_checksum (sv_request S)) (sv_read_file S) (uw_read_exact U)
      (client_env S (upload_deadline U rq) (uw_create U) (uw_part U) (uw_complete U) (uw_abort U) (uw_run U)) rq = Some (Inr out, remote)"
    using assms by (auto simp: upload_managed_def multipart_upload_task_def split: option.splits)
  then have "0 < mo_concurrency (mr_options rq)" using no_concurrency_no_success by blast
  from managed.run_complete[OF run[unfolded client_env_def] this, folded client_env_def] obtain src completion and created :: create_output where
    f: "prepare_multipart (rx_checksum (sv_request S)) (sv_read_file S) (mr_source rq) = Inr src"
      "remote = [CreateCall (create_for rq), CompleteCall completion]" "cmp_key completion = mr_key rq"
      "cmp_upload_id completion = cro_upload_id created"
      "map part_num (cmp_completed_parts completion) = [1..<div_ceil (length (source_content src)) (mo_part_size (mr_options rq)) + 1]"
      "\<exists>n. part_count src (mo_part_size (mr_options rq)) = Inr n"
    and p: "\<forall>part \<in> set (cmp_completed_parts completion). part_as_read (uw_read_exact U)
      (re_events (client_env S (upload_deadline U rq) (uw_create U) (uw_part U) (uw_complete U) (uw_abort U) (uw_run U)))
      (context_for rq (cro_upload_id created) src) part" by blast
  have "\<exists>body. read_part (uw_read_exact U) src (mo_part_size (mr_options rq)) (part_get (cp_part_number part)) = Inr body \<and>
      part_uploaded S U rq (cro_upload_id created) body part" if "part \<in> set (cmp_completed_parts completion)" for part
    using p that sent_part_uploaded[of S U rq "cro_upload_id created" _ part] by (auto simp: part_as_read_def context_for_def)
  with f show ?thesis unfolding complete_upload_def by blast
qed

text \<open>With a file that reads back as documented, the bodies of the parts are the source.\<close>

lemma complete_upload_content:
  assumes "complete_upload S U rq remote" and "read_exact_documented (uw_read_exact U)"
    and "prepare_multipart (rx_checksum (sv_request S)) (sv_read_file S) (mr_source rq) = Inr src" and "0 < mo_part_size (mr_options rq)"
  shows "\<exists>completion bodies. remote = [CreateCall (create_for rq), CompleteCall completion] \<and> cmp_key completion = mr_key rq \<and>
    map part_num (cmp_completed_parts completion) = [1..<length bodies + 1] \<and>
    list_all2 (part_uploaded S U rq (cmp_upload_id completion)) bodies (cmp_completed_parts completion) \<and> concat bodies = source_content src"
proof -
  let ?psize = "mo_part_size (mr_options rq)" and ?b = "source_content src"
  obtain n where cnt: "part_count src ?psize = Inr n" using assms(1,3) by (auto simp: complete_upload_def)
  have ok: "source_ok src" by (rule prepared_multipart_ok[OF assms(3) cnt])
  note n = part_count_Inr[OF ok cnt]
  from assms(1,3) obtain completion where c: "remote = [CreateCall (create_for rq), CompleteCall completion]" "cmp_key completion = mr_key rq"
    "map part_num (cmp_completed_parts completion) = [1..<unat n + 1]"
    and p: "\<forall>part \<in> set (cmp_completed_parts completion). \<exists>body. read_part (uw_read_exact U) src ?psize (part_get (cp_part_number part)) = Inr body \<and>
        part_uploaded S U rq (cmp_upload_id completion) body part"
    unfolding complete_upload_def n(1) by auto
  let ?bodies = "map (\<lambda>part. slice ?b ?psize (part_num part - 1)) (cmp_completed_parts completion)"
  have "part_uploaded S U rq (cmp_upload_id completion) (slice ?b ?psize (part_num part - 1)) part"
    if "part \<in> set (cmp_completed_parts completion)" for part
  proof -
    have "part_num part \<in> set (map part_num (cmp_completed_parts completion))" using that by simp
    then have "1 \<le> part_num part" "part_num part \<le> unat n" unfolding c(3) by auto
    from read_part_slice[OF ok assms(2) cnt assms(4) this] p that show ?thesis by auto
  qed
  then have "list_all2 (part_uploaded S U rq (cmp_upload_id completion)) ?bodies (cmp_completed_parts completion)"
    by (auto simp: list_all2_map1 list_all2_same)
  moreover have "?bodies = map (slice ?b ?psize) [0..<unat n]" using slices_by_number[OF c(3)] by (simp add: comp_def)
  then have "concat ?bodies = ?b" using part_count_pos(2)[OF ok cnt assms(4)] by (simp add: concat_slices)
  moreover have "length ?bodies = unat n" using arg_cong[OF c(3), of length] by simp
  ultimately show ?thesis using c by (intro exI[of _ completion] exI[of _ ?bodies]) simp
qed

lemma st_upload_Inr:
  "st_upload logged S U rq w = (Some (Inr (Inr out)), calls, w') \<Longrightarrow>
     \<exists>remote. calls = [logged (CallUpload rq remote)] \<and> complete_upload S U rq remote"
  by (auto simp: st_upload_def split: option.splits dest: upload_managed_Inr)

lemma st_within_upload: "(\<And>remote. P (logged (CallUpload rq remote))) \<Longrightarrow> st_within (st_upload logged S U rq) P"
  by (simp add: st_within_def st_upload_def split: option.split prod.split)

end
