(* ===== verification/Artifact_Store.thy ===== *)
theory Artifact_Store
  imports Client_Program
begin

text \<open>
  The content-addressed artifact store of \<open>examples/artifact_store.rs\<close>, an application on top of the client: publication of
  a payload and its manifest, existence check, verified download, deletion, garbage collection, verified file upload with
  cancellation and deadline, and clean-up of stale multipart uploads. An operation of the store maps the world of the
  client's operations to its result (\<open>None\<close> while it has not returned), the calls it made to the client with what they were
  answered (\<open>None\<close> while unanswered), and the next world, so that what was sent is known even if the caller drops the future.
\<close>

section \<open>Errors, digests and keys\<close>

datatype artifact_error =
    ArtifactS3 s3_error
  | ArtifactKey object_key_error
  | ArtifactIo string
  | InvalidDigest
  | DigestMismatch
  | ArtifactCancelled
  | DeadlineExceeded
  | ListingPageLimit
  | MissingEnvironment string

datatype content_digest = ContentDigest (digest_str: string)

definition LISTING_PAGE_LIMIT :: nat where "LISTING_PAGE_LIMIT = 10000"
definition DELETE_BATCH_LIMIT :: nat where "DELETE_BATCH_LIMIT = 1000"

definition is_ascii_hexdigit :: "char \<Rightarrow> bool" where
  "is_ascii_hexdigit c \<longleftrightarrow> is_ascii_digit c \<or> (97 \<le> ord c \<and> ord c \<le> 102) \<or> (65 \<le> ord c \<and> ord c \<le> 70)"

definition content_digest_new :: "string \<Rightarrow> artifact_error + content_digest" where
  "content_digest_new v =
     reject_if (length v \<noteq> 64 \<or> \<not> list_all is_ascii_hexdigit v) InvalidDigest
     (Inr (ContentDigest (str_to_ascii_lowercase v)))"

definition hex_sha256 :: "'d checksum_ext \<Rightarrow> string \<Rightarrow> string" where
  "hex_sha256 X bytes = hex_encode (ce_sha256 X bytes)"

definition content_digest_of :: "'d checksum_ext \<Rightarrow> string \<Rightarrow> content_digest" where
  "content_digest_of X bytes = ContentDigest (hex_sha256 X bytes)"

definition verify_bytes :: "'d checksum_ext \<Rightarrow> content_digest \<Rightarrow> string \<Rightarrow> artifact_error + unit" where
  "verify_bytes X expected bytes = (if content_digest_of X bytes = expected then Inr () else Inl DigestMismatch)"

record ('d, 'p, 'o) artifact_store =
  ars_service :: "('d, 'p, 'o) service"
  ars_prefix :: string

abbreviation ars_checksum :: "('d, 'p, 'o) artifact_store \<Rightarrow> 'd checksum_ext" where
  "ars_checksum A \<equiv> rx_checksum (sv_request (ars_service A))"

definition artifact_store_new :: "('d, 'p, 'o) service \<Rightarrow> string \<Rightarrow> ('d, 'p, 'o) artifact_store" where
  "artifact_store_new S tenant =
     \<lparr>ars_service = S, ars_prefix = ''tenants/'' @ hex_sha256 (rx_checksum (sv_request S)) tenant @ ''/''\<rparr>"

definition blob_prefix :: "('d, 'p, 'o) artifact_store \<Rightarrow> string" where
  "blob_prefix A = ars_prefix A @ ''blobs/sha256/''"

definition blob_key :: "('d, 'p, 'o) artifact_store \<Rightarrow> content_digest \<Rightarrow> object_key_error + object_key" where
  "blob_key A d = object_key_new (ars_prefix A @ ''blobs/sha256/'' @ digest_str d)"

definition manifest_key :: "('d, 'p, 'o) artifact_store \<Rightarrow> content_digest \<Rightarrow> object_key_error + object_key" where
  "manifest_key A d = object_key_new (ars_prefix A @ ''manifests/'' @ digest_str d @ ''.json'')"

section \<open>Operations of the store\<close>

type_synonym ('d, 'a) store_op = "(artifact_error, client_call, 'd, 'a) logged_op"

text \<open>The \<open>?\<close> on a result of the client and on a key.\<close>

definition st_try :: "s3_error + 'a \<Rightarrow> ('d, 'a) store_op" where
  "st_try r = st_of (map_err ArtifactS3 r)"

definition st_key :: "object_key_error + object_key \<Rightarrow> ('d, object_key) store_op" where
  "st_key r = st_of (map_err ArtifactKey r)"

section \<open>Publication\<close>

record publication =
  pub_blob_created :: bool
  pub_manifest_created :: bool

definition immutable_request :: "object_key \<Rightarrow> string \<Rightarrow> string \<Rightarrow> upload_source put_object_request" where
  "immutable_request key body ct =
     (let rq = put_object_request_new key (byte_stream_from_bytes body) in
      rq\<lparr>put_content_type := Some ct, put_conditions := (put_conditions rq)\<lparr>if_none_match := Some ''*''\<rparr>\<rparr>)"

definition put_immutable :: "('d, 'p, 'o) artifact_store \<Rightarrow> object_key \<Rightarrow> string \<Rightarrow> string \<Rightarrow> ('d, bool) store_op" where
  "put_immutable A key body ct =
     (let rq = immutable_request key body ct in
      st_bind (st_call (CallPut rq) (put_object (ars_service A) rq)) (\<lambda>r. st_of (case r of
        Inr _ \<Rightarrow> Inr True
      | Inl e \<Rightarrow> if error_category_of e = Precondition then Inr False else Inl (ArtifactS3 e))))"

definition publish_manifest_last ::
  "('d, 'p, 'o) artifact_store \<Rightarrow> content_digest \<Rightarrow> string \<Rightarrow> content_digest \<Rightarrow> string \<Rightarrow> ('d, publication) store_op" where
  "publish_manifest_last A blob_digest blob manifest_digest manifest =
     st_bind (st_of (verify_bytes (ars_checksum A) blob_digest blob)) (\<lambda>_.
     st_bind (st_of (verify_bytes (ars_checksum A) manifest_digest manifest)) (\<lambda>_.
     st_bind (st_key (blob_key A blob_digest)) (\<lambda>key.
     st_bind (put_immutable A key blob ''application/octet-stream'') (\<lambda>blob_created.
     st_bind (st_key (manifest_key A manifest_digest)) (\<lambda>mkey.
     st_bind (put_immutable A mkey manifest ''application/json'') (\<lambda>manifest_created.
     st_of (Inr \<lparr>pub_blob_created = blob_created, pub_manifest_created = manifest_created\<rparr>)))))))"

section \<open>Existence, download and deletion\<close>

definition blob_exists :: "('d, 'p, 'o) artifact_store \<Rightarrow> content_digest \<Rightarrow> ('d, bool) store_op" where
  "blob_exists A d =
     st_bind (st_key (blob_key A d)) (\<lambda>key.
     let rq = head_object_request_new key in
     st_bind (st_call (CallHead rq) (head_object (ars_service A) rq)) (\<lambda>r. st_of (case r of
       Inr _ \<Rightarrow> Inr True
     | Inl e \<Rightarrow> if error_category_of e = NotFound then Inr False else Inl (ArtifactS3 e))))"

definition delete_blob :: "('d, 'p, 'o) artifact_store \<Rightarrow> content_digest \<Rightarrow> ('d, unit) store_op" where
  "delete_blob A d =
     st_bind (st_key (blob_key A d)) (\<lambda>key.
     let rq = delete_object_request_new key in
     st_bind (st_call (CallDelete rq) (delete_object (ars_service A) rq)) (\<lambda>r.
     st_bind (st_try r) (\<lambda>_. st_of (Inr ()))))"

text \<open>
  The loop over the chunks of the body, with the writer's errors as \<open>Io\<close>. A chunk's length fits in \<open>u64\<close>, so the
  conversion has no branch.
\<close>

fun verified_loop ::
  "'d checksum_ext \<Rightarrow> writer_ext \<Rightarrow> content_digest \<Rightarrow> poll_input list \<Rightarrow> 'd response_stream \<Rightarrow> 'd \<Rightarrow> nat \<Rightarrow> string
     \<Rightarrow> (artifact_error + nat) option \<times> string" where
  "verified_loop X W d [] s hasher written out = (None, out)"
| "verified_loop X W d (i # inputs) s hasher written out =
     (case poll_next X i s of
        (FramePending, s') \<Rightarrow> verified_loop X W d inputs s' hasher written out
      | (FrameError e, s') \<Rightarrow> (Some (Inl (ArtifactS3 e)), out)
      | (FrameEnd, s') \<Rightarrow>
          (case we_flush W out of
             Some e \<Rightarrow> (Some (Inl (ArtifactIo e)), out)
           | None \<Rightarrow>
               if hex_encode (ce_digest_finalize X hasher) \<noteq> digest_str d then (Some (Inl DigestMismatch), out)
               else (Some (Inr written), out))
      | (FrameData chunk, s') \<Rightarrow>
          (case we_write_all W out chunk of
             (Some e, out') \<Rightarrow> (Some (Inl (ArtifactIo e)), out')
           | (None, out') \<Rightarrow>
               (case checked_add_u64 written (length chunk) of
                  None \<Rightarrow> (Some (Inl (ArtifactS3 (integrity ''download length overflow''))), out')
                | Some written' \<Rightarrow>
                    verified_loop X W d inputs s' (ce_digest_update X hasher chunk) written' out')))"

definition download_verified ::
  "('d, 'p, 'o) artifact_store \<Rightarrow> content_digest \<Rightarrow> writer_ext \<Rightarrow> poll_input list \<Rightarrow> string \<Rightarrow> 'd world
     \<Rightarrow> ((artifact_error + nat) option \<times> string) \<times> client_call list \<times> 'd world" where
  "download_verified A d W inputs out w =
     (case st_bind (st_key (blob_key A d)) (\<lambda>key.
             let rq = get_object_request_new key in
             st_bind (st_call (\<lambda>_. CallGet rq) (get_object (ars_service A) rq)) st_try) w of
        (None, calls, w') \<Rightarrow> ((None, out), calls, w')
      | (Some (Inl e), calls, w') \<Rightarrow> ((Some (Inl e), out), calls, w')
      | (Some (Inr got), calls, w') \<Rightarrow>
          (verified_loop (ars_checksum A) W d inputs (go_body got) (ce_digest_new (ars_checksum A)) 0 out, calls, w'))"

section \<open>Garbage collection\<close>

definition delete_objects_error_display :: "delete_objects_error \<Rightarrow> string" where
  "delete_objects_error_display e = (case e of
     BatchEmpty \<Rightarrow> ''a multi-object delete request cannot be empty''
   | BatchTooMany actual maximum \<Rightarrow>
       ''multi-object delete has '' @ to_string actual @ '' entries; the maximum is '' @ to_string maximum)"

text \<open>One listed object is garbage if its key is the prefix and a digest outside the live set; other keys are skipped.\<close>

definition is_garbage :: "string \<Rightarrow> content_digest set \<Rightarrow> listed_object \<Rightarrow> bool" where
  "is_garbage pre live obj = (case strip_prefix (key_str (lob_key obj)) pre of
     None \<Rightarrow> False
   | Some suffix_text \<Rightarrow> (case content_digest_new suffix_text of Inl _ \<Rightarrow> False | Inr d \<Rightarrow> d \<notin> live))"

definition garbage_of :: "string \<Rightarrow> content_digest set \<Rightarrow> list_objects_output list \<Rightarrow> delete_object_identifier list" where
  "garbage_of pre live pages =
     map (\<lambda>obj. delete_object_identifier_new (lob_key obj)) (filter (is_garbage pre live) (concat (map loo_objects pages)))"

fun delete_batches ::
  "('d, 'p, 'o) artifact_store \<Rightarrow> delete_object_identifier list list \<Rightarrow> nat \<Rightarrow> ('d, nat) store_op" where
  "delete_batches A [] deleted = st_of (Inr deleted)"
| "delete_batches A (batch # batches) deleted =
     st_bind (st_of (map_err (\<lambda>e. ArtifactS3 (configuration (delete_objects_error_display e))) (delete_objects_request_new batch))) (\<lambda>rq.
     st_bind (st_call (CallDeleteBatch rq) (delete_objects (ars_service A) rq)) (\<lambda>r.
     st_bind (st_try r) (\<lambda>out.
     if doo_errors out \<noteq> []
     then st_of (Inl (ArtifactS3 (invalid_response ''S3 reported one or more per-object deletion failures'')))
     else st_bind (st_of (ok_or (ArtifactS3 (integrity ''deleted object count overflow''))
            (checked_add_u64 deleted (length (doo_deleted out))))) (delete_batches A batches))))"

definition collect_unreferenced :: "('d, 'p, 'o) artifact_store \<Rightarrow> content_digest set \<Rightarrow> ('d, nat) store_op" where
  "collect_unreferenced A live =
     (let pre = blob_prefix A; rq = default_list_objects_request\<lparr>lo_prefix := Some pre\<rparr> in
      st_bind (st_call (CallList rq) (list_objects_v2_all (ars_service A) rq LISTING_PAGE_LIMIT)) (\<lambda>r.
      st_bind (st_try r) (\<lambda>pages.
      delete_batches A (chunks DELETE_BATCH_LIMIT (garbage_of pre live pages)) 0)))"

section \<open>Stale multipart uploads\<close>

definition is_stale :: "offset_date_time \<Rightarrow> upload_entry \<Rightarrow> bool" where
  "is_stale cutoff u = (case ue_initiated u of None \<Rightarrow> False | Some t \<Rightarrow> t \<le> cutoff)"

fun abort_uploads :: "('d, 'p, 'o) artifact_store \<Rightarrow> upload_entry list \<Rightarrow> nat \<Rightarrow> ('d, nat) store_op" where
  "abort_uploads A [] aborted = st_of (Inr aborted)"
| "abort_uploads A (u # us) aborted =
     (let rq = abort_request_new (ue_key u) (ue_upload_id u) in
      st_bind (st_call (CallAbort rq) (abort_multipart_upload (ars_service A) rq)) (\<lambda>r.
      st_bind (st_try r) (\<lambda>_.
      st_bind (st_of (ok_or (ArtifactS3 (integrity ''aborted upload count overflow'')) (checked_add_u64 aborted 1)))
        (abort_uploads A us))))"

fun abort_stale_loop ::
  "('d, 'p, 'o) artifact_store \<Rightarrow> offset_date_time \<Rightarrow> nat \<Rightarrow> list_uploads_request \<Rightarrow> nat \<Rightarrow> ('d, nat) store_op" where
  "abort_stale_loop A cutoff 0 rq aborted = st_of (Inl ListingPageLimit)"
| "abort_stale_loop A cutoff (Suc n) rq aborted =
     st_bind (st_call (CallListUploads rq) (list_multipart_uploads (ars_service A) rq)) (\<lambda>r.
     st_bind (st_try r) (\<lambda>page.
     st_bind (abort_uploads A (filter (is_stale cutoff) (luo_uploads page)) aborted) (\<lambda>aborted'.
     if \<not> luo_is_truncated page then st_of (Inr aborted')
     else let rq' = rq\<lparr>lu_key_marker := luo_next_key_marker page, lu_upload_id_marker := luo_next_upload_id_marker page\<rparr> in
       if lu_key_marker rq' = None \<or> lu_upload_id_marker rq' = None
       then st_of (Inl (ArtifactS3 (invalid_response ''truncated multipart listing omitted a required next marker'')))
       else abort_stale_loop A cutoff n rq' aborted')))"

definition abort_stale_multipart :: "('d, 'p, 'o) artifact_store \<Rightarrow> offset_date_time \<Rightarrow> nat \<Rightarrow> ('d, nat) store_op" where
  "abort_stale_multipart A cutoff maximum_pages =
     (if maximum_pages = 0 then st_of (Inl ListingPageLimit)
      else abort_stale_loop A cutoff maximum_pages (default_list_uploads_request\<lparr>lu_prefix := Some (blob_prefix A)\<rparr>) 0)"

section \<open>Uploading a verified file\<close>

text \<open>
  What the file system does while the file is copied into a temporary file: failures by their text, and the reads, each of at
  most \<open>COPY_BUFFER_SIZE\<close> bytes, where no bytes is the end of the file. The copy is the concatenation of what was read.
\<close>

record snapshot_env =
  sn_open :: "string option"
  sn_create :: "string option"
  sn_reopen :: "string option"
  sn_reads :: "(string + string) list"
  sn_write :: "string \<Rightarrow> string option"
  sn_flush :: "string option"
  sn_path :: string

definition io_check :: "string option \<Rightarrow> artifact_error + unit" where
  "io_check e = (case e of None \<Rightarrow> Inr () | Some t \<Rightarrow> Inl (ArtifactIo t))"

fun copy_loop :: "'d checksum_ext \<Rightarrow> (string \<Rightarrow> string option) \<Rightarrow> (string + string) list \<Rightarrow> 'd \<Rightarrow> string
    \<Rightarrow> (artifact_error + 'd \<times> string) option" where
  "copy_loop X write_all [] hasher out = None"
| "copy_loop X write_all (Inl e # reads) hasher out = Some (Inl (ArtifactIo e))"
| "copy_loop X write_all (Inr chunk # reads) hasher out =
     (if chunk = [] then Some (Inr (hasher, out))
      else case write_all chunk of
        Some e \<Rightarrow> Some (Inl (ArtifactIo e))
      | None \<Rightarrow> copy_loop X write_all reads (ce_digest_update X hasher chunk) (out @ chunk))"

definition snapshot_verified ::
  "'d checksum_ext \<Rightarrow> snapshot_env \<Rightarrow> content_digest \<Rightarrow> (artifact_error + string) option" where
  "snapshot_verified X N expected =
     (case and_then (io_check (sn_open N)) (\<lambda>_. and_then (io_check (sn_create N)) (\<lambda>_. io_check (sn_reopen N))) of
        Inl e \<Rightarrow> Some (Inl e)
      | Inr _ \<Rightarrow> map_option (\<lambda>r.
          and_then r (\<lambda>(hasher, out).
          and_then (io_check (sn_flush N)) (\<lambda>_.
          if hex_encode (ce_digest_finalize X hasher) \<noteq> digest_str expected then Inl DigestMismatch else Inr out)))
          (copy_loop X (sn_write N) (sn_reads N) (ce_digest_new X) []))"

definition upload_request ::
  "('d, 'p, 'o) artifact_store \<Rightarrow> content_digest \<Rightarrow> string \<Rightarrow> multipart_options \<Rightarrow> object_key_error + managed_request" where
  "upload_request A d path opts =
     and_then (blob_key A d) (\<lambda>key. Inr (managed_with_options opts (managed_from_path key path)))"

text \<open>
  The \<open>select!\<close>: the upload's result, with the deadline's timeout renamed, or the cancellation. When the caller's token fires first the
  store returns while the upload's own task is still cancelling, so the log names the upload and none of the requests that task makes.
\<close>

definition await_upload ::
  "('d, 'p, 'o) artifact_store \<Rightarrow> 'd upload_world \<Rightarrow> managed_request \<Rightarrow> ('d, unit) store_op" where
  "await_upload A U rq w =
     (if uw_token_first U then (Some (Inl ArtifactCancelled), [CallUpload rq []], w)
      else case upload_managed (ars_service A) U rq of
        None \<Rightarrow> (None, [CallUpload rq []], w)
      | Some (result, calls) \<Rightarrow>
          (Some (case result of
             Inl e \<Rightarrow> if timeout_phase (details e) = Some PhaseOperation then Inl DeadlineExceeded else Inl (ArtifactS3 e)
           | Inr _ \<Rightarrow> Inr ()), [CallUpload rq calls], w))"

definition upload_file_until ::
  "('d, 'p, 'o) artifact_store \<Rightarrow> content_digest \<Rightarrow> snapshot_env \<Rightarrow> duration \<Rightarrow> 'd upload_world \<Rightarrow> ('d, unit) store_op" where
  "upload_file_until A d N limit U =
     st_bind (blob_exists A d) (\<lambda>present.
     if present then st_of (Inr ())
     else st_bind (\<lambda>w. (snapshot_verified (ars_checksum A) N d, [], w)) (\<lambda>_.
       st_bind (st_try (with_transfer_timeout (uw_representable U) limit default_multipart_options)) (\<lambda>opts.
       st_bind (st_of (map_err ArtifactKey (upload_request A d (sn_path N) opts))) (\<lambda>rq.
       await_upload A U rq))))"

section \<open>The client from the environment\<close>

definition required_env :: "(string \<Rightarrow> string option) \<Rightarrow> string \<Rightarrow> artifact_error + string" where
  "required_env vars name = ok_or (MissingEnvironment name) (vars name)"

definition environment_builder ::
  "endpoint \<Rightarrow> string \<Rightarrow> credentials \<Rightarrow> endpoint \<Rightarrow> string \<Rightarrow> string \<Rightarrow> (credentials, 'o) s3_config_builder" where
  "environment_builder aws version creds ep region bucket =
     (let b = builder_credentials_provider creds (builder_addressing_style Path (builder_bucket bucket
            (builder_region region (builder_endpoint ep (default_builder aws version creds))))) in
      if \<not> is_https ep then allow_http_for_local_testing b else b)"

definition client_from_environment ::
  "config_ext \<Rightarrow> endpoint \<Rightarrow> string \<Rightarrow> (string \<Rightarrow> string option) \<Rightarrow> retry_quota list
     \<Rightarrow> (artifact_error + (credentials, 'o) client) \<times> retry_quota list" where
  "client_from_environment C aws version vars quotas =
     (let region = (case vars ''S3_REGION'' of None \<Rightarrow> ''us-east-1'' | Some r \<Rightarrow> r) in
      case and_then (map_err ArtifactS3 (case vars ''S3_ENDPOINT'' of
              None \<Rightarrow> for_aws_region (cx_uri C) region | Some url \<Rightarrow> endpoint_new (cx_uri C) url)) (\<lambda>ep.
           and_then (required_env vars ''S3_ACCESS_KEY_ID'') (\<lambda>akid.
           and_then (required_env vars ''S3_SECRET_ACCESS_KEY'') (\<lambda>sec.
           and_then (map_err ArtifactS3 (credentials_new akid sec (vars ''S3_SESSION_TOKEN''))) (\<lambda>creds.
           and_then (required_env vars ''S3_BUCKET'') (\<lambda>bucket.
           map_err ArtifactS3 (build C (environment_builder aws version creds ep region bucket))))))) of
        Inl e \<Rightarrow> (Inl e, quotas)
      | Inr cfg \<Rightarrow> (case client_new C cfg quotas of (r, quotas') \<Rightarrow> (map_err ArtifactS3 r, quotas')))"

section \<open>Publication order\<close>

text \<open>The service stored the object, or refused because it was already there.\<close>

definition durable :: "(s3_error + 'a) option \<Rightarrow> bool" where
  "durable r = (case r of None \<Rightarrow> False | Some (Inr _) \<Rightarrow> True | Some (Inl e) \<Rightarrow> error_category_of e = Precondition)"

definition created :: "(s3_error + 'a) option \<Rightarrow> bool" where
  "created r = (case r of Some (Inr _) \<Rightarrow> True | _ \<Rightarrow> False)"

lemma put_immutable_run:
  assumes "put_immutable A key body ct w = (r, calls, w')"
  obtains res where "calls = [CallPut (immutable_request key body ct) res]"
    and "\<And>c. r = Some (Inr c) \<Longrightarrow> durable res \<and> c = created res"
  using assms
  by (auto simp: put_immutable_def Let_def st_bind_def st_call_def st_of_def durable_def created_def
      split: option.splits sum.splits if_splits)

lemma verify_bytes_Inr: "verify_bytes X d bytes = Inr x \<longleftrightarrow> hex_sha256 X bytes = digest_str d"
  by (cases d) (auto simp: verify_bytes_def content_digest_of_def)

text \<open>
  The two creations of a publication, field by field: the object's key from the tenant's prefix and the digest, a body with that digest, and the
  condition that refuses to replace an object that is there.
\<close>

definition creates_only :: "string \<Rightarrow> string \<Rightarrow> string \<Rightarrow> upload_source put_object_request \<Rightarrow> bool" where
  "creates_only key body ct rq \<longleftrightarrow> key_str (put_key rq) = key \<and> put_body rq = UploadBytes body \<and> put_content_type rq = Some ct \<and>
     if_none_match (put_conditions rq) = Some ''*''"

definition blob_put :: "('d, 'p, 'o) artifact_store \<Rightarrow> content_digest \<Rightarrow> string \<Rightarrow> (s3_error + put_object_output) option \<Rightarrow> client_call \<Rightarrow> bool" where
  "blob_put A d body r call \<longleftrightarrow> hex_sha256 (ars_checksum A) body = digest_str d \<and>
     (\<exists>rq. call = CallPut rq r \<and> creates_only (ars_prefix A @ ''blobs/sha256/'' @ digest_str d) body ''application/octet-stream'' rq)"

definition manifest_put :: "('d, 'p, 'o) artifact_store \<Rightarrow> content_digest \<Rightarrow> string \<Rightarrow> (s3_error + put_object_output) option \<Rightarrow> client_call \<Rightarrow> bool" where
  "manifest_put A d body r call \<longleftrightarrow> hex_sha256 (ars_checksum A) body = digest_str d \<and>
     (\<exists>rq. call = CallPut rq r \<and> creates_only (ars_prefix A @ ''manifests/'' @ digest_str d @ ''.json'') body ''application/json'' rq)"

lemma object_key_new_Inr: "object_key_new v = Inr key \<Longrightarrow> key_str key = v"
  by (auto simp: object_key_new_def split: if_splits)

lemma immutable_creates_only: "object_key_new v = Inr key \<Longrightarrow> creates_only v body ct (immutable_request key body ct)"
  by (simp add: creates_only_def immutable_request_def byte_stream_from_bytes_def put_object_request_new_def no_conditions_def Let_def object_key_new_Inr)

lemma publish_run:
  assumes run: "publish_manifest_last A blob_digest blob manifest_digest manifest w = (r, calls, w')" and sent: "calls \<noteq> []"
  obtains rb c1 where "blob_put A blob_digest blob rb c1" and "hex_sha256 (ars_checksum A) manifest = digest_str manifest_digest"
    and "calls = [c1] \<and> (\<forall>pub. r \<noteq> Some (Inr pub)) \<or> durable rb \<and> (\<exists>rm c2. manifest_put A manifest_digest manifest rm c2 \<and> calls = [c1, c2] \<and>
      (\<forall>pub. r = Some (Inr pub) \<longrightarrow> durable rm \<and> pub = \<lparr>pub_blob_created = created rb, pub_manifest_created = created rm\<rparr>))"
proof -
  let ?X = "ars_checksum A"
  from run sent obtain key where v: "verify_bytes ?X blob_digest blob = Inr ()" "verify_bytes ?X manifest_digest manifest = Inr ()"
    "blob_key A blob_digest = Inr key"
    by (cases "blob_key A blob_digest") (auto simp: publish_manifest_last_def st_bind_def st_of_def st_key_def verify_bytes_def split: if_splits)
  obtain r1 calls1 w1 where p1: "put_immutable A key blob ''application/octet-stream'' w = (r1, calls1, w1)" by (rule prod_cases3)
  from put_immutable_run[OF p1] obtain rb where rb: "calls1 = [CallPut (immutable_request key blob ''application/octet-stream'') rb]"
    "\<And>c. r1 = Some (Inr c) \<Longrightarrow> durable rb \<and> c = created rb" by blast
  let ?c1 = "CallPut (immutable_request key blob ''application/octet-stream'') rb"
  have b: "blob_put A blob_digest blob rb ?c1" "hex_sha256 ?X manifest = digest_str manifest_digest"
    using v by (auto simp: blob_put_def verify_bytes_Inr blob_key_def intro: immutable_creates_only)
  show ?thesis
  proof (cases "\<exists>c mkey. r1 = Some (Inr c) \<and> manifest_key A manifest_digest = Inr mkey")
    case True
    then obtain c mkey where c: "r1 = Some (Inr c)" and mkey: "manifest_key A manifest_digest = Inr mkey" by blast
    obtain r2 calls2 w2 where p2: "put_immutable A mkey manifest ''application/json'' w1 = (r2, calls2, w2)" by (rule prod_cases3)
    from put_immutable_run[OF p2] obtain rm where rm: "calls2 = [CallPut (immutable_request mkey manifest ''application/json'') rm]"
      "\<And>c. r2 = Some (Inr c) \<Longrightarrow> durable rm \<and> c = created rm" by blast
    have m: "manifest_put A manifest_digest manifest rm (CallPut (immutable_request mkey manifest ''application/json'') rm)"
      using b mkey by (auto simp: manifest_put_def manifest_key_def intro: immutable_creates_only)
    show ?thesis using run b m rb rm v c mkey p1 p2 by (intro that[OF b]; cases r2; cases "the r2")
      (auto simp: publish_manifest_last_def st_bind_def st_of_def st_key_def)
  next
    case False
    with run b rb v p1 show ?thesis by (intro that[OF b]; cases r1; cases "the r1"; cases "manifest_key A manifest_digest")
      (auto simp: publish_manifest_last_def st_bind_def st_of_def st_key_def)
  qed
qed

lemma publish_silent:
  assumes "publish_manifest_last A blob_digest blob manifest_digest manifest w = (r, [], w')"
  shows "r \<noteq> Some (Inr pub)"
  using assms by (auto simp: publish_manifest_last_def st_bind_def st_of_def st_key_def verify_bytes_def
      split: sum.splits option.splits prod.splits if_splits elim!: put_immutable_run)

text \<open>
  Property C12. A manifest is published last. Whether or not the publication returned, the calls it made are none, the
  creation of the payload under its digest, or that followed by the creation of the manifest, and the manifest is only sent
  once the payload's creation was answered with success or with the refusal that it is already there; nothing is sent unless both
  bodies have the digests they are published under, and neither creation can overwrite an object. When the publication succeeds, both objects are
  there and the two flags say which of them this call created.
\<close>

theorem manifest_published_last:
  "case publish_manifest_last A blob_digest blob manifest_digest manifest w of (r, calls, w') \<Rightarrow>
     (calls = [] \<or> (\<exists>rb c1. blob_put A blob_digest blob rb c1 \<and> hex_sha256 (ars_checksum A) manifest = digest_str manifest_digest \<and>
        (calls = [c1] \<or> durable rb \<and> (\<exists>rm c2. manifest_put A manifest_digest manifest rm c2 \<and> calls = [c1, c2])))) \<and>
     (case r of Some (Inr pub) \<Rightarrow>
        (\<exists>rb c1 rm c2. calls = [c1, c2] \<and> blob_put A blob_digest blob rb c1 \<and> manifest_put A manifest_digest manifest rm c2 \<and>
           durable rb \<and> durable rm \<and> pub = \<lparr>pub_blob_created = created rb, pub_manifest_created = created rm\<rparr>)
      | _ \<Rightarrow> True)"
proof -
  obtain r calls w' where run: "publish_manifest_last A blob_digest blob manifest_digest manifest w = (r, calls, w')" by (rule prod_cases3)
  show ?thesis
  proof (cases "calls = []")
    case True
    with run publish_silent[of A blob_digest blob manifest_digest manifest w r w'] show ?thesis by (auto split: option.split sum.split)
  next
    case False
    show ?thesis unfolding run prod.case
      by (rule publish_run[OF run False]) (fastforce split: option.split sum.split)
  qed
qed

section \<open>What garbage collection deletes\<close>

abbreviation batch_call :: "delete_objects_request \<times> (s3_error + delete_objects_output) option \<Rightarrow> client_call" where
  "batch_call b \<equiv> CallDeleteBatch (fst b) (snd b)"

text \<open>A batch that was answered, without a failure for one of its objects, and how many objects the answer reports as deleted.\<close>

definition deleted_count :: "(s3_error + delete_objects_output) option \<Rightarrow> nat option" where
  "deleted_count r = (case r of Some (Inr out) \<Rightarrow> if doo_errors out = [] then Some (length (doo_deleted out)) else None | _ \<Rightarrow> None)"

lemma chunks_sizes: "0 < n \<Longrightarrow> list_all (\<lambda>c. c \<noteq> [] \<and> length c \<le> n) (chunks n xs)"
  by (induction n xs rule: chunks.induct) (subst chunks.simps, auto)

lemma delete_objects_request_new_batch:
  "batch \<noteq> [] \<Longrightarrow> length batch \<le> 1000 \<Longrightarrow>
     delete_objects_request_new batch = Inr \<lparr>dos_objects = batch, dos_quiet = False, dos_headers = []\<rparr>"
  by (simp add: delete_objects_request_new_def MAX_DELETE_OBJECTS_def)

lemma delete_batches_run:
  assumes "list_all (\<lambda>b. b \<noteq> [] \<and> length b \<le> 1000) batches" and "delete_batches A batches n w = (r, calls, w')"
  shows "\<exists>log. calls = map batch_call log \<and> prefix (map (\<lambda>b. dos_objects (fst b)) log) batches \<and>
    (\<forall>m. r = Some (Inr m) \<longrightarrow> map (\<lambda>b. dos_objects (fst b)) log = batches \<and>
       list_all (\<lambda>b. deleted_count (snd b) \<noteq> None) log \<and> m = n + (\<Sum>b\<leftarrow>log. the (deleted_count (snd b))))"
  using assms
proof (induction batches arbitrary: n w r calls w')
  case Nil
  then show ?case by (auto simp: st_of_def)
next
  case (Cons batch batches)
  let ?rq = "\<lparr>dos_objects = batch, dos_quiet = False, dos_headers = []\<rparr>"
  have new: "delete_objects_request_new batch = Inr ?rq" using Cons.prems(1) by (simp add: delete_objects_request_new_batch)
  show ?case
  proof (cases "\<exists>out w1 n'. delete_objects (ars_service A) ?rq w = Some (Inr out, w1) \<and> doo_errors out = [] \<and>
      checked_add_u64 n (length (doo_deleted out)) = Some n'")
    case True
    then obtain out w1 n' where ok: "delete_objects (ars_service A) ?rq w = Some (Inr out, w1)" "doo_errors out = []"
      "checked_add_u64 n (length (doo_deleted out)) = Some n'" by blast
    obtain r2 calls2 w2 where rest: "delete_batches A batches n' w1 = (r2, calls2, w2)" by (rule prod_cases3)
    have "list_all (\<lambda>b. b \<noteq> [] \<and> length b \<le> 1000) batches" using Cons.prems(1) by simp
    from Cons.IH[OF this rest] obtain log where log: "calls2 = map batch_call log"
      "prefix (map (\<lambda>b. dos_objects (fst b)) log) batches"
      "\<forall>m. r2 = Some (Inr m) \<longrightarrow> map (\<lambda>b. dos_objects (fst b)) log = batches \<and>
         list_all (\<lambda>b. deleted_count (snd b) \<noteq> None) log \<and> m = n' + (\<Sum>b\<leftarrow>log. the (deleted_count (snd b)))" by blast
    from Cons.prems(2) ok rest new have "calls = batch_call (?rq, Some (Inr out)) # calls2" "r = r2"
      by (auto simp: st_bind_def st_of_def st_call_def st_try_def)
    moreover have "n' = n + length (doo_deleted out)" using ok(3) by (auto simp: checked_add_u64_def split: if_splits)
    moreover have "deleted_count (Some (Inr out)) = Some (length (doo_deleted out))" using ok(2) by (simp add: deleted_count_def)
    ultimately show ?thesis using log by (intro exI[of _ "(?rq, Some (Inr out)) # log"]) (simp add: add.assoc)
  next
    case False
    with Cons.prems(2) new show ?thesis
      by (intro exI[of _ "[(?rq, map_option fst (delete_objects (ars_service A) ?rq w))]"])
        (auto simp: st_bind_def st_of_def st_call_def st_try_def split: option.splits sum.splits if_splits)
  qed
qed

lemma is_garbageD:
  assumes "is_garbage pre live obj"
  shows "\<exists>hex d. key_str (lob_key obj) = pre @ hex \<and> content_digest_new hex = Inr d \<and> d \<notin> live"
proof -
  from assms obtain hex d where "strip_prefix (key_str (lob_key obj)) pre = Some hex" "content_digest_new hex = Inr d" "d \<notin> live"
    by (auto simp: is_garbage_def split: option.splits sum.splits)
  then show ?thesis unfolding strip_prefix_Some_iff by blast
qed

text \<open>
  What is garbage, said without the code: the key is the prefix followed by 64 hexadecimal digits which, in lower case, are no live digest.
\<close>

definition unreferenced :: "string \<Rightarrow> content_digest set \<Rightarrow> object_key \<Rightarrow> bool" where
  "unreferenced pre live key \<longleftrightarrow> (\<exists>hex. key_str key = pre @ hex \<and> length hex = 64 \<and> set hex \<subseteq> set ''0123456789abcdefABCDEF'' \<and>
     ContentDigest (str_to_ascii_lowercase hex) \<notin> live)"

lemma hexdigit_chars: "map char_of ([48 :: nat..<58] @ [97..<103] @ [65..<71]) = ''0123456789abcdefABCDEF''"
  by code_simp

lemma hexdigit_iff: "is_ascii_hexdigit c \<longleftrightarrow> c \<in> set ''0123456789abcdefABCDEF''"
proof
  assume "is_ascii_hexdigit c"
  then have "of_char c \<in> set ([48 :: nat..<58] @ [97..<103] @ [65..<71])"
    unfolding is_ascii_hexdigit_def is_ascii_digit_def set_append set_upt by auto
  then have "char_of (of_char c :: nat) \<in> char_of ` set ([48 :: nat..<58] @ [97..<103] @ [65..<71])" by (rule imageI)
  then show "c \<in> set ''0123456789abcdefABCDEF''" by (simp only: char_of_char set_map[symmetric] hexdigit_chars)
qed (auto simp: is_ascii_hexdigit_def is_ascii_digit_def)

lemma content_digest_new_Inr_iff:
  "content_digest_new hex = Inr d \<longleftrightarrow>
     length hex = 64 \<and> set hex \<subseteq> set ''0123456789abcdefABCDEF'' \<and> d = ContentDigest (str_to_ascii_lowercase hex)"
proof -
  have "list_all is_ascii_hexdigit hex \<longleftrightarrow> set hex \<subseteq> set ''0123456789abcdefABCDEF''"
    unfolding list_all_iff hexdigit_iff by blast
  then show ?thesis by (auto simp: content_digest_new_def simp del: list.set)
qed

lemma is_garbage_iff: "is_garbage pre live obj \<longleftrightarrow> unreferenced pre live (lob_key obj)"
proof -
  have "is_garbage pre live obj \<longleftrightarrow> (\<exists>hex d. strip_prefix (key_str (lob_key obj)) pre = Some hex \<and> content_digest_new hex = Inr d \<and> d \<notin> live)"
    by (auto simp: is_garbage_def split: option.splits sum.splits)
  then show ?thesis unfolding strip_prefix_Some_iff content_digest_new_Inr_iff unreferenced_def by blast
qed

lemma garbage_of_keys:
  "garbage_of pre live pages =
     map delete_object_identifier_new (filter (unreferenced pre live) (map lob_key (concat (map loo_objects pages))))"
proof -
  have "is_garbage pre live = (\<lambda>obj. unreferenced pre live (lob_key obj))" by (rule ext) (rule is_garbage_iff)
  then show ?thesis by (simp add: garbage_of_def filter_map comp_def)
qed

lemma garbage_is_unreferenced:
  assumes "i \<in> set (garbage_of pre live pages)"
  shows "\<exists>hex d. key_str (doi_key i) = pre @ hex \<and> content_digest_new hex = Inr d \<and> d \<notin> live"
  using assms by (auto simp: garbage_of_def delete_object_identifier_new_def dest: is_garbageD)

lemma garbage_batches_run:
  assumes run: "delete_batches A (chunks DELETE_BATCH_LIMIT g) 0 w = (r, calls, w')"
  shows "\<exists>log. calls = map batch_call log \<and>
    list_all (\<lambda>b. dos_objects (fst b) \<noteq> [] \<and> length (dos_objects (fst b)) \<le> 1000) log \<and>
    prefix (concat (map (\<lambda>b. dos_objects (fst b)) log)) g \<and>
    (\<forall>m. r = Some (Inr m) \<longrightarrow> concat (map (\<lambda>b. dos_objects (fst b)) log) = g \<and>
       list_all (\<lambda>b. deleted_count (snd b) \<noteq> None) log \<and> m = (\<Sum>b\<leftarrow>log. the (deleted_count (snd b))))"
proof -
  let ?bs = "chunks DELETE_BATCH_LIMIT g"
  have bs: "list_all (\<lambda>b. b \<noteq> [] \<and> length b \<le> 1000) ?bs" "concat ?bs = g"
    using chunks_sizes[of DELETE_BATCH_LIMIT g] concat_chunks[of DELETE_BATCH_LIMIT g] by (simp_all add: DELETE_BATCH_LIMIT_def)
  from delete_batches_run[OF bs(1) run] obtain log where log: "calls = map batch_call log"
    "prefix (map (\<lambda>b. dos_objects (fst b)) log) ?bs"
    "\<forall>m. r = Some (Inr m) \<longrightarrow> map (\<lambda>b. dos_objects (fst b)) log = ?bs \<and>
       list_all (\<lambda>b. deleted_count (snd b) \<noteq> None) log \<and> m = 0 + (\<Sum>b\<leftarrow>log. the (deleted_count (snd b)))" by blast
  from log(2) obtain rest where rest: "?bs = map (\<lambda>b. dos_objects (fst b)) log @ rest" by (auto simp: prefix_def)
  have "prefix (concat (map (\<lambda>b. dos_objects (fst b)) log)) (concat ?bs)" unfolding rest by simp
  moreover have "list_all (\<lambda>b. dos_objects (fst b) \<noteq> [] \<and> length (dos_objects (fst b)) \<le> 1000) log"
    using bs(1) unfolding rest by (simp add: list_all_iff)
  ultimately show ?thesis unfolding bs(2) using log(1,3) bs(2) by (intro exI[of _ log]) simp
qed

text \<open>The keys a collection must delete, in the order of the listing.\<close>

definition unreferenced_listed :: "string \<Rightarrow> content_digest set \<Rightarrow> list_objects_output list \<Rightarrow> delete_object_identifier list" where
  "unreferenced_listed pre live pages =
     map delete_object_identifier_new (filter (unreferenced pre live) (map lob_key (concat (map loo_objects pages))))"

lemma collect_run:
  obtains (unlisted) r res w' where
      "collect_unreferenced A live w = (r, [CallList (default_list_objects_request\<lparr>lo_prefix := Some (ars_prefix A @ ''blobs/sha256/'')\<rparr>) res], w')"
      and "\<And>n. r \<noteq> Some (Inr n)" and "\<And>pages. res \<noteq> Some (Inr pages)"
    | (listed) r pages calls w1 w' where "collect_unreferenced A live w =
        (r, CallList (default_list_objects_request\<lparr>lo_prefix := Some (ars_prefix A @ ''blobs/sha256/'')\<rparr>) (Some (Inr pages)) # calls, w')"
      and "delete_batches A (chunks DELETE_BATCH_LIMIT (unreferenced_listed (ars_prefix A @ ''blobs/sha256/'') live pages)) 0 w1 = (r, calls, w')"
proof -
  let ?rq = "default_list_objects_request\<lparr>lo_prefix := Some (ars_prefix A @ ''blobs/sha256/'')\<rparr>"
  note defs = collect_unreferenced_def blob_prefix_def Let_def st_bind_def st_call_def st_try_def st_of_def
  show ?thesis
  proof (cases "list_objects_v2_all (ars_service A) ?rq LISTING_PAGE_LIMIT w")
    case None
    then show ?thesis by (intro unlisted[of None None w]) (simp_all add: defs)
  next
    case (Some x)
    then obtain res w1 where x: "list_objects_v2_all (ars_service A) ?rq LISTING_PAGE_LIMIT w = Some (res, w1)" by (cases x) auto
    show ?thesis
    proof (cases res)
      case (Inl e)
      with x show ?thesis by (intro unlisted[of "Some (Inl (ArtifactS3 e))" "Some (Inl e)" w1]) (simp_all add: defs)
    next
      case (Inr pages)
      obtain r calls w' where run: "delete_batches A (chunks DELETE_BATCH_LIMIT
          (unreferenced_listed (ars_prefix A @ ''blobs/sha256/'') live pages)) 0 w1 = (r, calls, w')" by (rule prod_cases3)
      with x Inr show ?thesis by (intro listed[OF _ run]) (simp add: defs garbage_of_keys unreferenced_listed_def)
    qed
  qed
qed


section \<open>What clean-up aborts\<close>

definition abort_of :: "upload_entry \<Rightarrow> abort_request" where
  "abort_of u = abort_request_new (ue_key u) (ue_upload_id u)"

definition aborts_of :: "client_call list \<Rightarrow> abort_request list" where
  "aborts_of calls = concat (map (\<lambda>c. case c of CallAbort rq _ \<Rightarrow> [rq] | _ \<Rightarrow> []) calls)"

definition listed_stale :: "offset_date_time \<Rightarrow> client_call list \<Rightarrow> abort_request list" where
  "listed_stale cutoff calls = concat (map (\<lambda>c. case c of
     CallListUploads _ (Some (Inr page)) \<Rightarrow> map abort_of (filter (is_stale cutoff) (luo_uploads page)) | _ \<Rightarrow> []) calls)"

definition listings_of :: "client_call list \<Rightarrow> list_uploads_request list" where
  "listings_of calls = concat (map (\<lambda>c. case c of CallListUploads rq _ \<Rightarrow> [rq] | _ \<Rightarrow> []) calls)"

lemma log_views [simp]:
  "aborts_of [] = []" "listed_stale t [] = []" "listings_of [] = []"
  "aborts_of (CallAbort rq x # calls) = rq # aborts_of calls" "listed_stale t (CallAbort rq x # calls) = listed_stale t calls"
  "listings_of (CallAbort rq x # calls) = listings_of calls"
  "aborts_of (CallListUploads lrq y # calls) = aborts_of calls" "listings_of (CallListUploads lrq y # calls) = lrq # listings_of calls"
  "listed_stale t (CallListUploads lrq (Some (Inr page)) # calls) =
     map abort_of (filter (is_stale t) (luo_uploads page)) @ listed_stale t calls"
  "listed_stale t (CallListUploads lrq (Some (Inl e)) # calls) = listed_stale t calls"
  "listed_stale t (CallListUploads lrq None # calls) = listed_stale t calls"
  "aborts_of (calls @ calls') = aborts_of calls @ aborts_of calls'"
  "listed_stale t (calls @ calls') = listed_stale t calls @ listed_stale t calls'"
  "listings_of (calls @ calls') = listings_of calls @ listings_of calls'"
  by (simp_all add: aborts_of_def listed_stale_def listings_of_def)

lemma abort_uploads_run:
  assumes "abort_uploads A us n w = (r, calls, w')"
  shows "prefix (aborts_of calls) (map abort_of us) \<and> listed_stale t calls = [] \<and> listings_of calls = [] \<and>
    (\<forall>m. r = Some (Inr m) \<longrightarrow> aborts_of calls = map abort_of us \<and> m = n + length us)"
  using assms
proof (induction us arbitrary: n w r calls w')
  case Nil
  then show ?case by (auto simp: st_of_def)
next
  case (Cons u us)
  let ?rq = "abort_request_new (ue_key u) (ue_upload_id u)"
  show ?case
  proof (cases "\<exists>x w1. abort_multipart_upload (ars_service A) ?rq w = Some (Inr x, w1) \<and> checked_add_u64 n 1 = Some (n + 1)")
    case True
    then obtain x w1 where ok: "abort_multipart_upload (ars_service A) ?rq w = Some (Inr x, w1)" "checked_add_u64 n 1 = Some (n + 1)" by blast
    obtain r2 calls2 w2 where rest: "abort_uploads A us (n + 1) w1 = (r2, calls2, w2)" by (rule prod_cases3)
    from Cons.prems ok rest have "calls = CallAbort ?rq (Some (Inr x)) # calls2" "r = r2"
      by (simp_all add: Let_def st_bind_def st_call_def st_try_def st_of_def)
    with Cons.IH[OF rest] show ?thesis by (auto simp: abort_of_def)
  next
    case False
    with Cons.prems show ?thesis
      by (auto simp: Let_def st_bind_def st_call_def st_try_def st_of_def abort_of_def checked_add_u64_def
          split: option.splits sum.splits if_splits)
  qed
qed

lemma abort_stale_loop_run:
  assumes "abort_stale_loop A cutoff k rq n w = (r, calls, w')"
  shows "prefix (aborts_of calls) (listed_stale cutoff calls) \<and> length (listings_of calls) \<le> k \<and>
    list_all (\<lambda>q. lu_prefix q = lu_prefix rq) (listings_of calls) \<and>
    (\<forall>m. r = Some (Inr m) \<longrightarrow> aborts_of calls = listed_stale cutoff calls \<and> m = n + length (listed_stale cutoff calls))"
  using assms
proof (induction k arbitrary: rq n w r calls w')
  case 0
  then show ?case by (auto simp: st_of_def)
next
  case (Suc k)
  show ?case
  proof (cases "\<exists>page w1. list_multipart_uploads (ars_service A) rq w = Some (Inr page, w1)")
    case False
    with Suc.prems show ?thesis
      by (auto simp: st_bind_def st_call_def st_try_def st_of_def split: option.splits sum.splits)
  next
    case True
    then obtain page w1 where page: "list_multipart_uploads (ars_service A) rq w = Some (Inr page, w1)" by blast
    let ?us = "filter (is_stale cutoff) (luo_uploads page)"
    obtain r1 calls1 w2 where ab: "abort_uploads A ?us n w1 = (r1, calls1, w2)" by (rule prod_cases3)
    note a = abort_uploads_run[OF ab, of cutoff]
    let ?rq = "rq\<lparr>lu_key_marker := luo_next_key_marker page, lu_upload_id_marker := luo_next_upload_id_marker page\<rparr>"
    show ?thesis
    proof (cases "\<exists>n'. r1 = Some (Inr n') \<and> luo_is_truncated page \<and> lu_key_marker ?rq \<noteq> None \<and> lu_upload_id_marker ?rq \<noteq> None")
      case True
      then obtain n' where n': "r1 = Some (Inr n')" and more: "luo_is_truncated page" "lu_key_marker ?rq \<noteq> None" "lu_upload_id_marker ?rq \<noteq> None"
        by blast
      obtain r2 calls2 w3 where rest: "abort_stale_loop A cutoff k ?rq n' w2 = (r2, calls2, w3)" by (rule prod_cases3)
      have "calls = CallListUploads rq (Some (Inr page)) # calls1 @ calls2" "r = r2"
        using Suc.prems page ab n' more rest by (auto simp: Let_def st_bind_def st_call_def st_try_def st_of_def)
      moreover have "aborts_of calls1 = map abort_of ?us" "n' = n + length ?us" using a n' by simp_all
      ultimately show ?thesis using a Suc.IH[OF rest] by (simp add: add.assoc)
    next
      case False
      with Suc.prems page ab have "calls = CallListUploads rq (Some (Inr page)) # calls1 \<and> (\<forall>m. r = Some (Inr m) \<longrightarrow> r1 = Some (Inr m))"
        by (auto simp: Let_def st_bind_def st_call_def st_try_def st_of_def split: option.splits sum.splits if_splits)
      with a show ?thesis by auto
    qed
  qed
qed

text \<open>
  Cleaning up stale uploads aborts exactly what the listing reports as stale: it asks for at most the given
  number of pages, each time for the tenant's payload prefix; the uploads it aborts are, in the order of the pages and each
  once, an initial piece of the listed uploads that report an initiation time at or before the cutoff; when it returns a
  count, all of them have been aborted and the count is their number.
\<close>

lemma stale_uploads_aborted:
  "case abort_stale_multipart A cutoff maximum_pages w of (r, calls, w') \<Rightarrow>
     length (listings_of calls) \<le> maximum_pages \<and> list_all (\<lambda>q. lu_prefix q = Some (blob_prefix A)) (listings_of calls) \<and>
     prefix (aborts_of calls) (listed_stale cutoff calls) \<and>
     (case r of Some (Inr n) \<Rightarrow> aborts_of calls = listed_stale cutoff calls \<and> n = length (listed_stale cutoff calls) | _ \<Rightarrow> True)"
proof -
  obtain r calls w' where run: "abort_stale_loop A cutoff maximum_pages
      (default_list_uploads_request\<lparr>lu_prefix := Some (blob_prefix A)\<rparr>) 0 w = (r, calls, w')" by (rule prod_cases3)
  show ?thesis
  proof (cases "maximum_pages = 0")
    case True
    then show ?thesis by (simp add: abort_stale_multipart_def st_of_def)
  next
    case False
    then have eq: "abort_stale_multipart A cutoff maximum_pages w = (r, calls, w')" using run by (simp add: abort_stale_multipart_def)
    show ?thesis unfolding eq prod.case using abort_stale_loop_run[OF run] by (simp split: option.split sum.split)
  qed
qed

section \<open>Verified content\<close>

lemma hashed_snoc: "ce_digest_update X (hashed X ps) p = hashed X (ps @ [p])"
  by simp

lemma verified_loop_content:
  assumes "digest_documented X" and "writer_documented W"
    and "verified_loop X W d inputs s (hashed X ps) (length (concat ps)) (out @ concat ps) = (Some (Inr n), out')"
  shows "\<exists>bytes. out' = out @ bytes \<and> n = length bytes \<and> hex_sha256 X bytes = digest_str d"
  using assms(3)
proof (induction inputs arbitrary: s ps)
  case (Cons i inputs)
  obtain f s' where p: "poll_next X i s = (f, s')" by fastforce
  show ?case
  proof (cases f)
    case FramePending
    with Cons.IH[of s' ps] Cons.prems p show ?thesis by simp
  next
    case FrameEnd
    with Cons.prems p have "hex_encode (ce_digest_finalize X (hashed X ps)) = digest_str d" "out' = out @ concat ps" "n = length (concat ps)"
      by (auto split: option.splits if_splits)
    then show ?thesis using finalize_hashed[OF assms(1), of ps] by (intro exI[of _ "concat ps"]) (simp add: hex_sha256_def)
  next
    case (FrameError e)
    with Cons.prems p show ?thesis by simp
  next
    case (FrameData chunk)
    with Cons.prems p obtain out1 m where w: "we_write_all W (out @ concat ps) chunk = (None, out1)"
      "checked_add_u64 (length (concat ps)) (length chunk) = Some m"
      "verified_loop X W d inputs s' (ce_digest_update X (hashed X ps) chunk) m out1 = (Some (Inr n), out')"
      by (auto split: option.splits prod.splits)
    have "out1 = out @ concat (ps @ [chunk])" using assms(2)[unfolded writer_documented_def, rule_format, OF w(1)] by simp
    moreover have "m = length (concat (ps @ [chunk]))" using w(2) by (auto simp: checked_add_u64_def split: if_splits)
    ultimately show ?thesis using Cons.IH[of s' "ps @ [chunk]"] w(3) by (simp only: hashed_snoc)
  qed
qed simp

text \<open>
  A verified download that succeeds has appended to the writer exactly some bytes whose SHA-256 is the digest asked
  for, and returns their number; the only object it read is the tenant's payload of that digest.
\<close>

lemma download_has_the_digest:
  assumes "digest_documented (ars_checksum A)" and "writer_documented W"
  shows "case download_verified A d W inputs out w of ((r, out'), calls, w') \<Rightarrow>
    (calls = [] \<or> (\<exists>key. blob_key A d = Inr key \<and> calls = [CallGet (get_object_request_new key)])) \<and>
    (case r of
       Some (Inr n) \<Rightarrow> (\<exists>bytes. out' = out @ bytes \<and> n = length bytes \<and> hex_sha256 (ars_checksum A) bytes = digest_str d)
     | _ \<Rightarrow> True)"
proof -
  let ?X = "ars_checksum A" and ?get = "st_bind (st_key (blob_key A d)) (\<lambda>key. let rq = get_object_request_new key in
    st_bind (st_call (\<lambda>_. CallGet rq) (get_object (ars_service A) rq)) st_try)"
  obtain r calls w' where run: "?get w = (r, calls, w')" by (rule prod_cases3)
  have calls: "calls = [] \<or> (\<exists>key. blob_key A d = Inr key \<and> calls = [CallGet (get_object_request_new key)])"
    using run by (cases "blob_key A d"; cases "get_object (ars_service A) (get_object_request_new (projr (blob_key A d))) w")
      (auto simp: st_bind_def st_key_def st_of_def st_call_def st_try_def Let_def split: sum.splits)
  show ?thesis
  proof (cases "\<exists>got. r = Some (Inr got)")
    case True
    then obtain got where got: "r = Some (Inr got)" ..
    obtain r2 out2 where v: "verified_loop ?X W d inputs (go_body got) (ce_digest_new ?X) 0 out = (r2, out2)" by fastforce
    have eq: "download_verified A d W inputs out w = ((r2, out2), calls, w')"
      using run got v by (simp add: download_verified_def)
    have "\<exists>bytes. out2 = out @ bytes \<and> n = length bytes \<and> hex_sha256 ?X bytes = digest_str d" if "r2 = Some (Inr n)" for n
      using verified_loop_content[OF assms, of d inputs "go_body got" "[]" out n out2] v that by simp
    then show ?thesis unfolding eq prod.case using calls by (simp split: option.split sum.split)
  next
    case False
    then obtain r2 where eq: "download_verified A d W inputs out w = ((r2, out), calls, w')" and "\<not> (\<exists>n. r2 = Some (Inr n))"
      using run by (cases r; cases "the r") (auto simp: download_verified_def)
    then show ?thesis unfolding eq prod.case using calls by (simp split: option.split sum.split)
  qed
qed

lemma download_has_the_digest_witness:
  "digest_documented text_ext \<and> writer_documented (fe_writer plain_file) \<and>
   (\<forall>S w. case download_verified \<lparr>ars_service = S\<lparr>sv_request := (sv_request S)\<lparr>rx_checksum := text_ext\<rparr>\<rparr>, ars_prefix = ''t/''\<rparr>
       (ContentDigest ''61'') (fe_writer plain_file) (replicate 3 \<lparr>pi_now = 0, pi_elapsed = (\<lambda>_. False)\<rparr>) [] w of ((r, out'), calls, w') \<Rightarrow>
     (case r of Some (Inr n) \<Rightarrow> n = length out' \<and> hex_sha256 text_ext out' = ''61'' | _ \<Rightarrow> True))"
proof -
  have f: "writer_documented (fe_writer plain_file)" by (simp add: writer_documented_def plain_file_def)
  show ?thesis
  proof (intro conjI allI)
    fix S :: "(string, 'p, 'o) service" and w
    let ?A = "\<lparr>ars_service = S\<lparr>sv_request := (sv_request S)\<lparr>rx_checksum := text_ext\<rparr>\<rparr>, ars_prefix = ''t/''\<rparr>"
    have X: "ars_checksum ?A = text_ext" by simp
    show "case download_verified ?A (ContentDigest ''61'') (fe_writer plain_file)
        (replicate 3 \<lparr>pi_now = 0, pi_elapsed = (\<lambda>_. False)\<rparr>) [] w of ((r, out'), calls, w') \<Rightarrow>
      (case r of Some (Inr n) \<Rightarrow> n = length out' \<and> hex_sha256 text_ext out' = ''61'' | _ \<Rightarrow> True)"
      using download_has_the_digest[where A = ?A and W = "fe_writer plain_file" and d = "ContentDigest ''61''"
          and inputs = "replicate 3 \<lparr>pi_now = 0, pi_elapsed = (\<lambda>_. False)\<rparr>" and out = "[]" and w = w, unfolded X,
          OF text_ext_documented f]
      by (auto simp del: replicate.simps split: option.splits sum.splits prod.splits)
  qed (fact text_ext_documented f)+
qed

section \<open>Tenant isolation\<close>

text \<open>The operations of a store, in any sequence, and the calls they make.\<close>

datatype 'd store_action =
    Publish content_digest string content_digest string
  | CheckExists content_digest
  | Download content_digest writer_ext "poll_input list" string
  | DeleteBlob content_digest
  | CollectGarbage "content_digest set"
  | UploadFile content_digest snapshot_env duration "'d upload_world"
  | AbortStale offset_date_time nat

fun run_action :: "('d, 'p, 'o) artifact_store \<Rightarrow> 'd store_action \<Rightarrow> 'd world \<Rightarrow> client_call list \<times> 'd world" where
  "run_action A (Publish bd b md m) w = snd (publish_manifest_last A bd b md m w)"
| "run_action A (CheckExists d) w = snd (blob_exists A d w)"
| "run_action A (Download d W inputs out) w = snd (download_verified A d W inputs out w)"
| "run_action A (DeleteBlob d) w = snd (delete_blob A d w)"
| "run_action A (CollectGarbage live) w = snd (collect_unreferenced A live w)"
| "run_action A (UploadFile d N limit U) w = snd (upload_file_until A d N limit U w)"
| "run_action A (AbortStale cutoff pages) w = snd (abort_stale_multipart A cutoff pages w)"

fun run_actions :: "('d, 'p, 'o) artifact_store \<Rightarrow> 'd store_action list \<Rightarrow> 'd world \<Rightarrow> client_call list" where
  "run_actions A [] w = []"
| "run_actions A (a # as) w = (case run_action A a w of (calls, w') \<Rightarrow> calls @ run_actions A as w')"

text \<open>
  A key a store may name: it has the tenant's prefix, or the service itself listed it as an upload under the tenant's
  payload prefix.
\<close>

definition listed_upload :: "('d, 'p, 'o) artifact_store \<Rightarrow> client_call list \<Rightarrow> object_key \<Rightarrow> bool" where
  "listed_upload A calls key \<longleftrightarrow> list_ex (\<lambda>c. case c of
     CallListUploads rq (Some (Inr page)) \<Rightarrow> lu_prefix rq = Some (blob_prefix A) \<and> list_ex (\<lambda>u. ue_key u = key) (luo_uploads page)
   | _ \<Rightarrow> False) calls"

definition own_key :: "('d, 'p, 'o) artifact_store \<Rightarrow> object_key \<Rightarrow> bool" where
  "own_key A key \<longleftrightarrow> starts_with (key_str key) (ars_prefix A)"

lemma st_within_question: "st_within (st_try r') P" "st_within (st_key r'') P"
  by (simp_all add: st_try_def st_key_def st_within_of)

lemma st_within_key: "(\<And>x. r = Inr x \<Longrightarrow> st_within (k x) P) \<Longrightarrow> st_within (st_bind (st_key r) k) P"
  unfolding st_key_def by (rule st_within_result) (cases r, simp_all)

lemma st_within_try: "(\<And>x. r = Inr x \<Longrightarrow> st_within (k x) P) \<Longrightarrow> st_within (st_bind (st_try r) k) P"
  unfolding st_try_def by (rule st_within_result) (cases r, simp_all)

lemmas within_rules = st_within_of st_within_question st_within_call st_within_key st_within_try st_within_bind

definition names_own :: "('d, 'p, 'o) artifact_store \<Rightarrow> client_call \<Rightarrow> bool" where
  "names_own A c \<longleftrightarrow> list_all (own_key A) (call_keys c)"

lemma own_keys: "blob_key A d = Inr key \<Longrightarrow> own_key A key" "manifest_key A d = Inr key \<Longrightarrow> own_key A key"
  by (auto simp: own_key_def blob_key_def manifest_key_def dest!: object_key_new_Inr)

lemma put_immutable_own: "own_key A key \<Longrightarrow> st_within (put_immutable A key body ct) (names_own A)"
  unfolding put_immutable_def Let_def
  by (intro within_rules) (simp add: names_own_def immutable_request_def put_object_request_new_def Let_def)

lemma publish_own: "st_within (publish_manifest_last A bd b md m) (names_own A)"
  unfolding publish_manifest_last_def by (intro within_rules put_immutable_own) (auto intro: own_keys)

lemma exists_own: "st_within (blob_exists A d) (names_own A)"
  unfolding blob_exists_def Let_def
  by (intro within_rules) (auto simp: names_own_def head_object_request_new_def intro: own_keys)

lemma delete_own: "st_within (delete_blob A d) (names_own A)"
  unfolding delete_blob_def Let_def
  by (intro within_rules) (auto simp: names_own_def delete_object_request_new_def intro: own_keys)

lemma delete_batches_own:
  "list_all (list_all (\<lambda>i. own_key A (doi_key i))) batches \<Longrightarrow> st_within (delete_batches A batches n) (names_own A)"
proof (induction batches arbitrary: n)
  case (Cons batch batches)
  have "names_own A (CallDeleteBatch rq r)" if "delete_objects_request_new batch = Inr rq" for rq r
    using that Cons.prems by (auto simp: names_own_def delete_objects_request_new_def list_all_iff split: if_splits)
  then show ?case using Cons
    by (auto intro!: st_within_result st_within_bind st_within_call st_within_try st_within_of)
qed (simp add: st_within_of)

lemma collect_own: "st_within (collect_unreferenced A live) (names_own A)"
proof -
  have "list_all (list_all (\<lambda>i. own_key A (doi_key i))) (chunks DELETE_BATCH_LIMIT (garbage_of (blob_prefix A) live pages))" for pages
    using garbage_is_unreferenced[of _ "blob_prefix A" live pages]
      concat_chunks[of DELETE_BATCH_LIMIT "garbage_of (blob_prefix A) live pages", THEN arg_cong[where f = set]]
    by (fastforce simp: list_all_iff own_key_def blob_prefix_def DELETE_BATCH_LIMIT_def)
  then show ?thesis unfolding collect_unreferenced_def Let_def
    by (intro within_rules delete_batches_own) (simp_all add: names_own_def)
qed

lemma upload_own: "st_within (upload_file_until A d N limit U) (names_own A)"
proof -
  have "st_within (await_upload A U rq) (names_own A)" if "upload_request A d path opts = Inr rq" for path opts rq
    using that own_keys(1)[of A d]
    by (cases "blob_key A d") (auto simp: st_within_def await_upload_def names_own_def upload_request_def managed_with_options_def
        managed_from_path_def split: option.split sum.split prod.split)
  moreover have "st_within (\<lambda>w. (x, [], w)) (names_own A)" for x by (simp add: st_within_def)
  ultimately show ?thesis unfolding upload_file_until_def
    by (auto intro!: st_within_bind exists_own st_within_of st_within_try st_within_result)
qed

lemma download_own: "list_all (names_own A) (fst (snd (download_verified A d W inputs out w)))"
proof -
  have "st_within (st_bind (st_key (blob_key A d)) (\<lambda>key. let rq = get_object_request_new key in
      st_bind (st_call (\<lambda>_. CallGet rq) (get_object (ars_service A) rq)) st_try)) (names_own A)"
    unfolding Let_def by (intro within_rules) (auto simp: names_own_def get_object_request_new_def intro: own_keys)
  then show ?thesis unfolding st_within_def download_verified_def
    by (auto split: prod.split option.split sum.split dest: spec[of _ w])
qed

definition is_cleanup_call :: "client_call \<Rightarrow> bool" where
  "is_cleanup_call c = (case c of CallAbort _ _ \<Rightarrow> True | CallListUploads _ _ \<Rightarrow> True | _ \<Rightarrow> False)"

lemma abort_uploads_cleanup: "st_within (abort_uploads A us n) is_cleanup_call"
  by (induction us arbitrary: n)
    (auto simp: Let_def is_cleanup_call_def intro!: st_within_bind st_within_call st_within_try st_within_result st_within_of)

lemma abort_loop_cleanup: "st_within (abort_stale_loop A cutoff k rq n) is_cleanup_call"
  by (induction k arbitrary: rq n)
    (auto simp: Let_def is_cleanup_call_def intro!: st_within_bind st_within_call st_within_try st_within_of abort_uploads_cleanup)

lemma aborted_key_listed:
  assumes run: "abort_stale_multipart A cutoff pages w = (r, calls, w')" and c: "c \<in> set calls" "key \<in> set (call_keys c)"
  shows "listed_upload A calls key"
proof -
  have "pages \<noteq> 0" using run c(1) by (cases "pages = 0") (auto simp: abort_stale_multipart_def st_of_def)
  with run have run: "abort_stale_loop A cutoff pages (default_list_uploads_request\<lparr>lu_prefix := Some (blob_prefix A)\<rparr>) 0 w = (r, calls, w')"
    by (simp add: abort_stale_multipart_def)
  note facts = abort_stale_loop_run[OF run]
  have "is_cleanup_call c" using abort_loop_cleanup run c(1) unfolding st_within_def by (metis fst_conv list_all_iff snd_conv)
  with c(2) obtain rq x where rq: "c = CallAbort rq x" "ab_key rq = key" by (cases c) (auto simp: is_cleanup_call_def)
  with c(1) have "rq \<in> set (aborts_of calls)" by (force simp: aborts_of_def)
  then have "rq \<in> set (listed_stale cutoff calls)" using facts set_mono_prefix by blast
  then obtain lrq page u where u: "CallListUploads lrq (Some (Inr page)) \<in> set calls" "u \<in> set (luo_uploads page)" "rq = abort_of u"
    by (auto simp: listed_stale_def split: client_call.splits option.splits sum.splits)
  have "lrq \<in> set (listings_of calls)" using u(1) by (force simp: listings_of_def)
  then have "lu_prefix lrq = Some (blob_prefix A)" using facts by (auto simp: list_all_iff)
  with u rq(2) show ?thesis
    by (auto simp: listed_upload_def list_ex_iff abort_of_def abort_request_new_def intro!: bexI[OF _ u(1)])
qed

lemma run_action_keys:
  assumes "run_action A a w = (calls, w')" and "c \<in> set calls" and "key \<in> set (call_keys c)"
  shows "own_key A key \<or> listed_upload A calls key"
proof (cases a)
  case (AbortStale cutoff pages)
  with assms aborted_key_listed[of A cutoff pages w _ calls w' c key] show ?thesis
    by (cases "abort_stale_multipart A cutoff pages w") auto
next
  case (Publish bd b md m)
  then show ?thesis using assms publish_own[of A bd b md m, unfolded st_within_def, rule_format, of w]
    by (auto simp: names_own_def list_all_iff)
next
  case (CheckExists d)
  then show ?thesis using assms exists_own[of A d, unfolded st_within_def, rule_format, of w] by (auto simp: names_own_def list_all_iff)
next
  case (Download d W inputs out)
  then show ?thesis using assms download_own[of A d W inputs out w] by (auto simp: names_own_def list_all_iff)
next
  case (DeleteBlob d)
  then show ?thesis using assms delete_own[of A d, unfolded st_within_def, rule_format, of w] by (auto simp: names_own_def list_all_iff)
next
  case (CollectGarbage live)
  then show ?thesis using assms collect_own[of A live, unfolded st_within_def, rule_format, of w] by (auto simp: names_own_def list_all_iff)
next
  case (UploadFile d N limit U)
  then show ?thesis using assms upload_own[of A d N limit U, unfolded st_within_def, rule_format, of w] by (auto simp: names_own_def list_all_iff)
qed

lemma run_actions_keys:
  "c \<in> set (run_actions A as w) \<Longrightarrow> key \<in> set (call_keys c) \<Longrightarrow> own_key A key \<or> listed_upload A (run_actions A as w) key"
proof (induction as arbitrary: w)
  case (Cons a as)
  obtain calls w' where run: "run_action A a w = (calls, w')" by fastforce
  from Cons.prems run consider "c \<in> set calls" | "c \<in> set (run_actions A as w')" by auto
  then show ?case
  proof cases
    case 1
    from run_action_keys[OF run this Cons.prems(2)] run show ?thesis by (auto simp: listed_upload_def)
  next
    case 2
    from Cons.IH[OF this Cons.prems(2)] run show ?thesis by (auto simp: listed_upload_def)
  qed
qed simp

lemma hex_encode_length: "length (hex_encode s) = 2 * length s"
  by (induction s rule: hex_encode.induct) simp_all

lemma tenant_prefixes_disjoint:
  assumes "length (ce_sha256 X t1) = length (ce_sha256 X t2)" and "hex_sha256 X t1 \<noteq> hex_sha256 X t2"
    and "starts_with k (''tenants/'' @ hex_sha256 X t1 @ ''/'')"
  shows "\<not> starts_with k (''tenants/'' @ hex_sha256 X t2 @ ''/'')"
proof
  let ?h = "hex_sha256 X"
  assume "starts_with k (''tenants/'' @ ?h t2 @ ''/'')"
  with assms(3) obtain a b where "k = ''tenants/'' @ ?h t1 @ ''/'' @ a" "k = ''tenants/'' @ ?h t2 @ ''/'' @ b"
    unfolding starts_with_iff by fastforce
  moreover have "length (?h t1) = length (?h t2)" using assms(1) by (simp add: hex_sha256_def hex_encode_length)
  ultimately show False using assms(2) by simp
qed

text \<open>
  Property C15. Tenants are isolated. Whatever sequence of operations a tenant's store runs, and whatever the service
  answers, every object a call names (created, read, looked up, deleted one by one or in a batch, or uploaded) lies under that tenant's
  prefix and under no other tenant's whose identifier has a different digest; the one exception are multipart uploads that the service
  itself listed for the tenant's payload prefix, which clean-up aborts.
\<close>

theorem tenants_isolated:
  assumes "length (ce_sha256 (rx_checksum (sv_request S)) t1) = length (ce_sha256 (rx_checksum (sv_request S)) t2)"
    and "hex_sha256 (rx_checksum (sv_request S)) t1 \<noteq> hex_sha256 (rx_checksum (sv_request S)) t2"
    and "c \<in> set (run_actions (artifact_store_new S t1) actions w)" and "key \<in> set (call_keys c)"
  shows "own_key (artifact_store_new S t1) key \<and> \<not> own_key (artifact_store_new S t2) key \<or>
    listed_upload (artifact_store_new S t1) (run_actions (artifact_store_new S t1) actions w) key"
  using run_actions_keys[OF assms(3,4)] tenant_prefixes_disjoint[OF assms(1,2), of "key_str key"]
  by (auto simp: own_key_def artifact_store_new_def)

lemma exists_calls:
  assumes "blob_key A d = Inr key"
  shows "\<exists>res. run_actions A [CheckExists d] w = [CallHead (head_object_request_new key) res]"
  using assms by (auto simp: blob_exists_def st_bind_def st_key_def st_of_def st_call_def Let_def split: option.split sum.split prod.split)

theorem tenants_isolated_witness:
  "\<forall>S w. \<exists>c key. c \<in> set (run_actions (artifact_store_new (S\<lparr>sv_request := (sv_request S)\<lparr>rx_checksum := text_ext\<rparr>\<rparr>) ''a'')
       [CheckExists (ContentDigest ''ff'')] w) \<and> key \<in> set (call_keys c) \<and>
     own_key (artifact_store_new (S\<lparr>sv_request := (sv_request S)\<lparr>rx_checksum := text_ext\<rparr>\<rparr>) ''a'') key \<and>
     \<not> own_key (artifact_store_new (S\<lparr>sv_request := (sv_request S)\<lparr>rx_checksum := text_ext\<rparr>\<rparr>) ''b'') key"
proof (intro allI)
  fix S :: "(string, 'p, 'o) service" and w
  let ?S = "S\<lparr>sv_request := (sv_request S)\<lparr>rx_checksum := text_ext\<rparr>\<rparr>"
  let ?A = "artifact_store_new ?S ''a''" and ?key = "ObjectKey ''tenants/61/blobs/sha256/ff''"
  have h: "hex_sha256 text_ext ''a'' = ''61''" "hex_sha256 text_ext ''b'' = ''62''"
    by (simp_all add: hex_sha256_def text_ext_def)
  have key: "blob_key ?A (ContentDigest ''ff'') = Inr ?key"
    by (simp add: blob_key_def artifact_store_new_def h object_key_new_def MAX_OBJECT_KEY_BYTES_def)
  from exists_calls[OF key] obtain res where calls: "run_actions ?A [CheckExists (ContentDigest ''ff'')] w =
    [CallHead (head_object_request_new ?key) res]" by blast
  let ?c = "CallHead (head_object_request_new ?key) res"
  have k: "?key \<in> set (call_keys ?c)" by (simp add: head_object_request_new_def)
  have "own_key ?A ?key \<and> \<not> own_key (artifact_store_new ?S ''b'') ?key \<or>
      listed_upload ?A (run_actions ?A [CheckExists (ContentDigest ''ff'')] w) ?key"
  proof (rule tenants_isolated[where c = ?c])
    show "length (ce_sha256 (rx_checksum (sv_request ?S)) ''a'') = length (ce_sha256 (rx_checksum (sv_request ?S)) ''b'')"
      by (simp add: text_ext_def)
    show "hex_sha256 (rx_checksum (sv_request ?S)) ''a'' \<noteq> hex_sha256 (rx_checksum (sv_request ?S)) ''b''" by (simp add: h)
  qed (simp_all only: calls k list.set_intros)
  moreover have "\<not> listed_upload ?A (run_actions ?A [CheckExists (ContentDigest ''ff'')] w) ?key"
    unfolding calls by (simp add: listed_upload_def)
  ultimately show "\<exists>c key. c \<in> set (run_actions ?A [CheckExists (ContentDigest ''ff'')] w) \<and> key \<in> set (call_keys c) \<and>
      own_key ?A key \<and> \<not> own_key (artifact_store_new ?S ''b'') key"
    using calls k by (metis list.set_intros(1))
qed

section \<open>Uploaded files\<close>

lemma copy_loop_pieces:
  "copy_loop X f reads (hashed X ps) (concat ps) = Some (Inr (h, out)) \<Longrightarrow> \<exists>qs. h = hashed X qs \<and> out = concat qs"
proof (induction reads arbitrary: ps)
  case (Cons x reads)
  show ?case
  proof (cases x)
    case (Inl e)
    with Cons.prems show ?thesis by simp
  next
    case (Inr chunk)
    with Cons.prems Cons.IH[of "ps @ [chunk]"] show ?thesis by (auto split: if_splits option.splits)
  qed
qed simp

lemma snapshot_verified_digest:
  assumes "digest_documented X" and "snapshot_verified X N d = Some (Inr bytes)"
  shows "hex_sha256 X bytes = digest_str d"
proof -
  from assms(2) obtain h where "copy_loop X (sn_write N) (sn_reads N) (ce_digest_new X) [] = Some (Inr (h, bytes))"
    and eq: "hex_encode (ce_digest_finalize X h) = digest_str d"
    by (auto simp: snapshot_verified_def io_check_def split: sum.splits option.splits if_splits prod.splits)
  with copy_loop_pieces[of X "sn_write N" "sn_reads N" "[]" h bytes] obtain qs where "h = hashed X qs" "bytes = concat qs" by auto
  then show ?thesis using eq finalize_hashed[OF assms(1), of qs] by (simp add: hex_sha256_def)
qed

lemma blob_exists_Inr:
  assumes "blob_exists A d w = (Some (Inr present), calls, w')"
  obtains key res where "blob_key A d = Inr key" and "calls = [CallHead (head_object_request_new key) (Some res)]"
    and "present \<longleftrightarrow> (\<exists>md. res = Inr md)" and "\<And>e. res = Inl e \<Longrightarrow> error_category_of e = NotFound"
  using assms
  by (cases "blob_key A d") (auto simp: blob_exists_def st_bind_def st_key_def st_of_def st_call_def Let_def
      split: option.splits sum.splits prod.splits if_splits)

lemma await_upload_Inr:
  assumes "await_upload A U rq w = (Some (Inr u), calls, w')"
  obtains out remote where "upload_managed (ars_service A) U rq = Some (Inr out, remote)" and "calls = [CallUpload rq remote]"
  using assms by (auto simp: await_upload_def split: if_splits option.splits sum.splits prod.splits)

lemma snapshot_loop_content:
  "snapshot_loop X cs len hs out = Inr (l, h, out') \<Longrightarrow> [] \<notin> set cs \<Longrightarrow> out' = out @ concat cs"
proof (induction X cs len hs out rule: snapshot_loop.induct)
  case (2 X buffer reads len hasher out)
  from 2(2,3) obtain len' where "checked_add_u64 len (length buffer) = Some len'"
    "snapshot_loop X reads len' (map_option (\<lambda>h. ce_digest_update X h buffer) hasher) (out @ buffer) = Inr (l, h, out')"
    by (auto simp: ok_or_def and_then_def split: option.splits)
  with 2(1)[of len'] 2(3) show ?case by auto
qed simp

lemma prepared_file_content:
  assumes "read_file path = Inr (True, pieces_read)" and "[] \<notin> set pieces_read" and "prepare_multipart X read_file (SourceFile path) = Inr src"
  shows "source_content src = concat pieces_read"
  using assms snapshot_loop_content[of X pieces_read 0 None "[]"]
  by (auto simp: prepare_multipart_def snapshot_create_def source_content_def and_then_def split: sum.splits if_splits prod.splits)

text \<open>A temporary file reads back as what was written to it.\<close>

definition snapshot_reads_back :: "('d, 'p, 'o) artifact_store \<Rightarrow> snapshot_env \<Rightarrow> content_digest \<Rightarrow> bool" where
  "snapshot_reads_back A N d \<longleftrightarrow> (\<forall>bytes. snapshot_verified (ars_checksum A) N d = Some (Inr bytes) \<longrightarrow>
     (\<exists>ps. sv_read_file (ars_service A) (sn_path N) = Inr (True, ps) \<and> [] \<notin> set ps \<and> concat ps = bytes))"

text \<open>
  A managed upload to the key under the deadline that uploaded parts to one upload and completed it with their answers under the numbers 1, 2, \<open>\<dots>\<close> in
  order, and whose bodies, put together in that order, have the digest.
\<close>

definition sent_payload ::
  "('d, 'p, 'o) artifact_store \<Rightarrow> 'd upload_world \<Rightarrow> content_digest \<Rightarrow> duration \<Rightarrow> object_key \<Rightarrow> client_call \<Rightarrow> bool" where
  "sent_payload A U d limit key call \<longleftrightarrow> (\<exists>rq completion bodies.
     call = CallUpload rq [CreateCall (create_for rq), CompleteCall completion] \<and>
     mr_key rq = key \<and> cmp_key completion = key \<and> mo_transfer_timeout (mr_options rq) = limit \<and>
     map part_num (cmp_completed_parts completion) = [1..<length bodies + 1] \<and>
     list_all2 (part_uploaded (ars_service A) U rq (cmp_upload_id completion)) bodies (cmp_completed_parts completion) \<and>
     hex_sha256 (ars_checksum A) (concat bodies) = digest_str d)"

lemma sent_file_payload:
  assumes X: "digest_documented (ars_checksum A)" and rb: "snapshot_reads_back A N d" and ex: "read_exact_documented (uw_read_exact U)"
    and bytes: "snapshot_verified (ars_checksum A) N d = Some (Inr bytes)"
    and rq: "upload_request A d (sn_path N) opts = Inr rq" and key: "blob_key A d = Inr key" and psize: "0 < mo_part_size opts"
    and up: "await_upload A U rq w = (Some (Inr u), calls, w')"
  shows "\<exists>call. calls = [call] \<and> sent_payload A U d (mo_transfer_timeout opts) key call"
proof -
  let ?S = "ars_service A"
  from up obtain out remote where m: "upload_managed ?S U rq = Some (Inr out, remote)" and calls: "calls = [CallUpload rq remote]"
    by (rule await_upload_Inr)
  note done_upload = upload_managed_Inr[OF m]
  from done_upload obtain src where src: "prepare_multipart (ars_checksum A) (sv_read_file ?S) (mr_source rq) = Inr src"
    unfolding complete_upload_def by blast
  have r: "mr_key rq = key" "mr_options rq = opts" "mr_source rq = SourceFile (sn_path N)"
    using rq key by (auto simp: upload_request_def managed_with_options_def managed_from_path_def)
  from rb bytes obtain ps where ps: "sv_read_file ?S (sn_path N) = Inr (True, ps)" "[] \<notin> set ps" "concat ps = bytes"
    unfolding snapshot_reads_back_def by blast
  have "source_content src = bytes" using prepared_file_content[OF ps(1,2) src[unfolded r(3)]] ps(3) by simp
  moreover from complete_upload_content[OF done_upload ex src] psize obtain completion bodies where
    "remote = [CreateCall (create_for rq), CompleteCall completion]" "cmp_key completion = mr_key rq"
    "map part_num (cmp_completed_parts completion) = [1..<length bodies + 1]"
    "list_all2 (part_uploaded ?S U rq (cmp_upload_id completion)) bodies (cmp_completed_parts completion)" "concat bodies = source_content src"
    unfolding r(2) by blast
  ultimately show ?thesis unfolding sent_payload_def calls using r snapshot_verified_digest[OF X bytes] by metis
qed

lemma default_part_size: "0 < mo_part_size default_multipart_options"
  using default_multipart_options_eq
  by (auto simp: multipart_options_new_def dest!: arg_cong[where f = mo_part_size] split: if_splits)

lemma upload_missing_Inr:
  assumes "blob_exists A d w = (Some (Inr False), calls1, w1)" and "upload_file_until A d N limit U w = (Some (Inr u), calls, w')"
  obtains bytes opts rq calls2 where "snapshot_verified (ars_checksum A) N d = Some (Inr bytes)" and "mo_transfer_timeout opts = limit"
    and "0 < mo_part_size opts" and "upload_request A d (sn_path N) opts = Inr rq" and "await_upload A U rq w1 = (Some (Inr u), calls2, w')" and "calls = calls1 @ calls2"
proof -
  obtain bytes where "snapshot_verified (ars_checksum A) N d = Some (Inr bytes)"
    using assms by (auto simp: upload_file_until_def st_bind_def split: option.splits sum.splits prod.splits)
  moreover obtain opts where "with_transfer_timeout (uw_representable U) limit default_multipart_options = Inr opts"
    using assms calculation by (auto simp: upload_file_until_def st_bind_def st_try_def st_of_def split: option.splits sum.splits prod.splits)
  moreover obtain rq where "upload_request A d (sn_path N) opts = Inr rq"
    using assms calculation by (cases "upload_request A d (sn_path N) opts")
      (auto simp: upload_file_until_def st_bind_def st_try_def st_of_def split: prod.splits)
  moreover obtain r2 calls2 w2 where "await_upload A U rq w1 = (r2, calls2, w2)" by (rule prod_cases3)
  ultimately show ?thesis using that[of bytes opts rq calls2] assms
    by (auto simp: upload_file_until_def st_bind_def st_try_def st_of_def with_transfer_timeout_def and_then_def default_part_size
        split: prod.splits option.splits sum.splits if_splits)
qed

lemma uploaded_file_facts:
  assumes "digest_documented (ars_checksum A)" and "snapshot_reads_back A N d" and "read_exact_documented (uw_read_exact U)"
    and run: "upload_file_until A d N limit U w = (Some (Inr u), calls, w')"
  shows "\<exists>key. blob_key A d = Inr key \<and>
    ((\<exists>md. calls = [CallHead (head_object_request_new key) (Some (Inr md))]) \<or>
     (\<exists>e call. calls = [CallHead (head_object_request_new key) (Some (Inl e)), call] \<and>
        error_category_of e = NotFound \<and> sent_payload A U d limit key call))"
proof -
  obtain r1 calls1 w1 where ex: "blob_exists A d w = (r1, calls1, w1)" by (rule prod_cases3)
  from run ex obtain present where p: "r1 = Some (Inr present)"
    by (auto simp: upload_file_until_def st_bind_def split: option.splits sum.splits)
  from ex[unfolded p] obtain key res where k: "blob_key A d = Inr key"
    "calls1 = [CallHead (head_object_request_new key) (Some res)]" "present \<longleftrightarrow> (\<exists>md. res = Inr md)"
    "\<And>e. res = Inl e \<Longrightarrow> error_category_of e = NotFound" by (rule blob_exists_Inr) blast
  show ?thesis
  proof (cases res)
    case found: (Inr md)
    with k run ex p have "calls = calls1" by (simp add: upload_file_until_def st_bind_def st_of_def)
    then show ?thesis using k found by blast
  next
    case missing: (Inl e)
    with k(3) p ex have "blob_exists A d w = (Some (Inr False), calls1, w1)" by simp
    then obtain bytes opts rq calls2 where "snapshot_verified (ars_checksum A) N d = Some (Inr bytes)" "mo_transfer_timeout opts = limit"
      "0 < mo_part_size opts" "upload_request A d (sn_path N) opts = Inr rq" "await_upload A U rq w1 = (Some (Inr u), calls2, w')" "calls = calls1 @ calls2"
      using run by (rule upload_missing_Inr)
    with sent_file_payload[OF assms(1-3) _ _ k(1)] obtain call where "calls = calls1 @ [call]" "sent_payload A U d limit key call" by blast
    then show ?thesis using k missing by auto
  qed
qed


text \<open>
  Property C14. A file upload that succeeds left the payload under its digest: either the service already reports the
  object, and nothing is sent, or the service reported it as missing, and the managed upload created an upload for the tenant's payload key
  under the caller's deadline, sent parts to it whose bodies together have the digest as their SHA-256, and completed it with the answers to
  exactly those parts, numbered from 1 in order. Reading a range inside the temporary file gives exactly that range, and the file reads back as it was
  written.
\<close>

theorem uploaded_file_has_the_digest:
  assumes "digest_documented (ars_checksum A)" and "snapshot_reads_back A N d" and "read_exact_documented (uw_read_exact U)"
  shows "case upload_file_until A d N limit U w of (r, calls, w') \<Rightarrow> (case r of
      Some (Inr u) \<Rightarrow> (\<exists>key. key_str key = ars_prefix A @ ''blobs/sha256/'' @ digest_str d \<and>
        ((\<exists>md. calls = [CallHead (head_object_request_new key) (Some (Inr md))]) \<or>
         (\<exists>e call. calls = [CallHead (head_object_request_new key) (Some (Inl e)), call] \<and>
            error_category_of e = NotFound \<and> sent_payload A U d limit key call)))
    | _ \<Rightarrow> True)"
proof -
  obtain r calls w' where "upload_file_until A d N limit U w = (r, calls, w')" by (rule prod_cases3)
  with uploaded_file_facts[OF assms, of limit w] show ?thesis
    by (auto simp: blob_key_def dest!: object_key_new_Inr split: option.split sum.split)
qed

theorem uploaded_file_has_the_digest_witness:
  "\<forall>S U w. let A = \<lparr>ars_service = S\<lparr>sv_request := (sv_request S)\<lparr>rx_checksum := text_ext\<rparr>, sv_read_file := \<lambda>_. Inr (True, [''a''])\<rparr>,
                   ars_prefix = ''t/''\<rparr>;
       N = \<lparr>sn_open = None, sn_create = None, sn_reopen = None, sn_reads = [Inr ''a'', Inr []], sn_write = \<lambda>_. None,
             sn_flush = None, sn_path = ''/tmp/x''\<rparr> in
     snapshot_verified text_ext N (ContentDigest ''61'') = Some (Inr ''a'') \<and> snapshot_reads_back A N (ContentDigest ''61'') \<and>
     (case upload_file_until A (ContentDigest ''61'') N 5 (U\<lparr>uw_read_exact := slice_reader\<rparr>) w of (r, calls, w') \<Rightarrow> (case r of
        Some (Inr u) \<Rightarrow> list_ex (\<lambda>c. (case c of CallHead rq _ \<Rightarrow> head_key rq = ObjectKey ''t/blobs/sha256/61'' | _ \<Rightarrow> False)) calls
      | _ \<Rightarrow> True))"
proof (intro allI)
  fix S :: "(string, 'p, 'o) service" and U :: "string upload_world" and w
  let ?A = "\<lparr>ars_service = S\<lparr>sv_request := (sv_request S)\<lparr>rx_checksum := text_ext\<rparr>, sv_read_file := \<lambda>_. Inr (True, [''a''])\<rparr>,
    ars_prefix = ''t/''\<rparr>"
  let ?N = "\<lparr>sn_open = None, sn_create = None, sn_reopen = None, sn_reads = [Inr ''a'', Inr []], sn_write = \<lambda>_. None,
    sn_flush = None, sn_path = ''/tmp/x''\<rparr>" and ?d = "ContentDigest ''61''"
  have v: "snapshot_verified text_ext ?N ?d = Some (Inr ''a'')"
    by (simp add: snapshot_verified_def io_check_def text_ext_def)
  then have rb: "snapshot_reads_back ?A ?N ?d" by (simp add: snapshot_reads_back_def)
  have X: "digest_documented (ars_checksum ?A)" by (simp add: text_ext_documented)
  have key: "key_str key = ars_prefix ?A @ ''blobs/sha256/'' @ digest_str ?d \<longleftrightarrow> key = ObjectKey ''t/blobs/sha256/61''" for key
    by (cases key) simp
  let ?U = "U\<lparr>uw_read_exact := slice_reader\<rparr>"
  have ex: "read_exact_documented (uw_read_exact ?U)" by (simp add: slice_reader_documented)
  show "let A = ?A; N = ?N in snapshot_verified text_ext N ?d = Some (Inr ''a'') \<and> snapshot_reads_back A N ?d \<and>
     (case upload_file_until A ?d N 5 (U\<lparr>uw_read_exact := slice_reader\<rparr>) w of (r, calls, w') \<Rightarrow> (case r of
        Some (Inr u) \<Rightarrow> list_ex (\<lambda>c. (case c of CallHead rq _ \<Rightarrow> head_key rq = ObjectKey ''t/blobs/sha256/61'' | _ \<Rightarrow> False)) calls
      | _ \<Rightarrow> True))"
    unfolding Let_def using v rb uploaded_file_has_the_digest[OF X rb ex, of 5 w]
    unfolding key by (auto simp: head_object_request_new_def split: prod.splits option.splits sum.splits)
qed

end
