(* ===== verification/Debug_Format.thy ===== *)
theory Debug_Format
  imports Client_Config Credential_Providers Multipart_Types Upload_Stream Download_Stream
begin

text \<open>
  What the crate prints: the hand-written and derived \<open>Debug\<close> and \<open>Display\<close> implementations of the types that hold
  credentials, signed queries, request headers, user metadata and bodies. The builders of \<open>core::fmt\<close>, the escaping of
  strings and the rendering of durations are written out for the plain (not the alternate) form. How Unicode escapes a run of
  non-ASCII characters, and how the \<open>time\<close> and \<open>http\<close> crates print their values, are parameters. The theorem is
  non-interference: the text does not depend on the secret fields.
\<close>

section \<open>The formatter\<close>

record fmt_ext =
  fx_unicode :: "string \<Rightarrow> string"
  fx_date_time :: "offset_date_time \<Rightarrow> string"
  fx_time_span :: "int \<Rightarrow> string"
  fx_status :: "nat \<Rightarrow> string"

definition hex_digit :: "nat \<Rightarrow> char" where
  "hex_digit n = char_of (if n < 10 then 48 + n else 87 + n)"

definition escape_char :: "char \<Rightarrow> string" where
  "escape_char c =
     (if c = CHR 0x00 then [CHR 0x5C, CHR ''0'']
      else if c = CHR 0x09 then [CHR 0x5C, CHR ''t'']
      else if c = CHR 0x0A then [CHR 0x5C, CHR ''n'']
      else if c = CHR 0x0D then [CHR 0x5C, CHR ''r'']
      else if c = CHR 0x22 \<or> c = CHR 0x5C then [CHR 0x5C, c]
      else if is_ascii_control c then
        [CHR 0x5C] @ ''u{'' @ (if ord c < 16 then [] else [hex_digit (ord c div 16)]) @ [hex_digit (ord c mod 16)] @ ''}''
      else [c])"

function escape_str :: "fmt_ext \<Rightarrow> string \<Rightarrow> string" where
  "escape_str F [] = []"
| "escape_str F (c # cs) =
     (if ord c < 128 then escape_char c @ escape_str F cs
      else fx_unicode F (takeWhile (\<lambda>x. 128 \<le> ord x) (c # cs)) @ escape_str F (dropWhile (\<lambda>x. 128 \<le> ord x) cs))"
  by pat_completeness auto

termination
  by (relation "measure (\<lambda>(F, s). length s)") (auto simp: le_imp_less_Suc length_dropWhile_le)

definition debug_str :: "fmt_ext \<Rightarrow> string \<Rightarrow> string" where
  "debug_str F s = [CHR 0x22] @ escape_str F s @ [CHR 0x22]"

definition debug_bool :: "bool \<Rightarrow> string" where
  "debug_bool b = (if b then ''true'' else ''false'')"

definition debug_option :: "('a \<Rightarrow> string) \<Rightarrow> 'a option \<Rightarrow> string" where
  "debug_option show x = (case x of None \<Rightarrow> ''None'' | Some v \<Rightarrow> ''Some('' @ show v @ '')'')"

definition debug_list :: "('a \<Rightarrow> string) \<Rightarrow> 'a list \<Rightarrow> string" where
  "debug_list show xs = ''['' @ join '', '' (map show xs) @ '']''"

definition debug_fields :: "(string \<times> string) list \<Rightarrow> string" where
  "debug_fields fs = join '', '' (map (\<lambda>(name, text). name @ '': '' @ text) fs)"

text \<open>\<open>debug_struct(..).field(..).finish()\<close>, \<open>finish_non_exhaustive()\<close> and \<open>debug_tuple\<close>.\<close>

definition debug_struct :: "string \<Rightarrow> (string \<times> string) list \<Rightarrow> string" where
  "debug_struct name fs = (if fs = [] then name else name @ '' { '' @ debug_fields fs @ '' }'')"

definition debug_struct_non_exhaustive :: "string \<Rightarrow> (string \<times> string) list \<Rightarrow> string" where
  "debug_struct_non_exhaustive name fs = (if fs = [] then name @ '' { .. }'' else name @ '' { '' @ debug_fields fs @ '', .. }'')"

definition debug_tuple :: "string \<Rightarrow> string list \<Rightarrow> string" where
  "debug_tuple name xs = (if xs = [] then name else name @ ''('' @ join '', '' xs @ '')'')"

text \<open>
  \<open>Duration\<close>: the largest unit that is not zero, then the digits of the fraction without trailing zeros.
  \<open>decimals d f\<close> are the digits of \<open>f\<close> below the unit \<open>10 * d\<close>.
\<close>

function decimals :: "nat \<Rightarrow> nat \<Rightarrow> string" where
  "decimals d f = (if f = 0 \<or> d = 0 then [] else char_of (48 + f div d) # decimals (d div 10) (f mod d))"
  by pat_completeness auto

termination
  by (relation "measure fst") auto

declare decimals.simps [simp del]

definition fmt_decimal :: "nat \<Rightarrow> nat \<Rightarrow> nat \<Rightarrow> string \<Rightarrow> string" where
  "fmt_decimal whole fraction d unit_name = to_string whole @ (if fraction = 0 then [] else ''.'' @ decimals d fraction) @ unit_name"

definition debug_duration :: "duration \<Rightarrow> string" where
  "debug_duration t =
     (let nanos = subsec_nanos t in
      if 0 < as_secs t then fmt_decimal (as_secs t) nanos 100000000 ''s''
      else if 1000000 \<le> nanos then fmt_decimal (nanos div 1000000) (nanos mod 1000000) 100000 ''ms''
      else if 1000 \<le> nanos then fmt_decimal (nanos div 1000) (nanos mod 1000) 100 [CHR 0xC2, CHR 0xB5, CHR ''s'']
      else fmt_decimal nanos 0 1 ''ns'')"

text \<open>The text that replaces a secret, as the \<open>&str\<close> it is.\<close>

abbreviation redacted :: "fmt_ext \<Rightarrow> string" where
  "redacted F \<equiv> debug_str F ''[REDACTED]''"

abbreviation redacted_header :: "fmt_ext \<Rightarrow> string" where
  "redacted_header F \<equiv> debug_str F ''<redacted>''"

section \<open>Errors\<close>

definition retry_debug :: "retry_classification \<Rightarrow> string" where
  "retry_debug r = (case r of Never \<Rightarrow> ''Never'' | Retryable \<Rightarrow> ''Retryable'' | Throttled \<Rightarrow> ''Throttled'')"

definition phase_debug :: "timeout_phase \<Rightarrow> string" where
  "phase_debug p = (case p of PhaseConnect \<Rightarrow> ''Connect'' | PhaseRequest \<Rightarrow> ''Request''
     | PhaseResponseBody \<Rightarrow> ''ResponseBody'' | PhaseOperation \<Rightarrow> ''Operation'')"

definition stop_reason_debug :: "retry_stop_reason \<Rightarrow> string" where
  "stop_reason_debug r = (case r of NonRetryable \<Rightarrow> ''NonRetryable'' | NonReplayable \<Rightarrow> ''NonReplayable''
     | AttemptsExhausted \<Rightarrow> ''AttemptsExhausted'' | ElapsedLimit \<Rightarrow> ''ElapsedLimit'' | Deadline \<Rightarrow> ''Deadline''
     | RetryQuotaDepleted \<Rightarrow> ''RetryQuota'')"

definition debug_error :: "fmt_ext \<Rightarrow> s3_error \<Rightarrow> string" where
  "debug_error F e = (let d = details e in debug_struct ''S3Error''
     [(''category'', category_debug (category d)),
      (''code'', debug_option (debug_str F) (code d)),
      (''status'', debug_option (fx_status F) (status d)),
      (''message'', debug_str F (message d)),
      (''request_id'', debug_option (debug_str F) (request_id d)),
      (''host_id'', debug_option (debug_str F) (host_id d)),
      (''retry'', retry_debug (retry d)),
      (''attempts'', to_string (unat (attempts d))),
      (''retry_stop_reason'', debug_option stop_reason_debug (retry_stop_reason d)),
      (''timeout_phase'', debug_option phase_debug (timeout_phase d)),
      (''server_time'', debug_option (fx_date_time F) (server_time d)),
      (''clock_skew'', debug_option (fx_time_span F) (clock_skew d)),
      (''source'', debug_option (\<lambda>_. redacted F) (source d)),
      (''cleanup_failure'', debug_option (\<lambda>_. redacted F) (cleanup_failure e))])"

definition signing_error_display :: "signing_error \<Rightarrow> string" where
  "signing_error_display e = (case e of
     InvalidCredentials \<Rightarrow> ''invalid signing credentials''
   | InvalidScope \<Rightarrow> ''invalid signing scope''
   | InvalidMethod \<Rightarrow> ''invalid HTTP method for signing''
   | InvalidHeaderName \<Rightarrow> ''invalid signed header name''
   | InvalidHeaderValue \<Rightarrow> ''invalid signed header value''
   | MissingHostHeader \<Rightarrow> ''a host header is required for signing''
   | InvalidHostHeader \<Rightarrow> ''the host header is empty or ambiguous''
   | InvalidPayloadHash \<Rightarrow> ''invalid SigV4 payload hash''
   | InvalidEncodedUri \<Rightarrow> ''URL path contains invalid percent encoding''
   | ReservedHeader \<Rightarrow> ''a signing-owned header was supplied''
   | ReservedQueryParameter \<Rightarrow> ''a signing-owned query parameter was supplied''
   | InvalidExpiry \<Rightarrow> ''presigning expiry must be between 1 second and 7 days''
   | UnsupportedPresignMethod \<Rightarrow> ''unsupported HTTP method for S3 presigning''
   | Cryptographic \<Rightarrow> ''signature calculation failed''
   | SigningTimestamp \<Rightarrow> ''signing timestamp could not be represented'')"

section \<open>Credentials and providers\<close>

definition debug_credentials :: "fmt_ext \<Rightarrow> credentials \<Rightarrow> string" where
  "debug_credentials F c = debug_struct ''Credentials''
     [(''access_key_id'', redacted F), (''secret_access_key'', redacted F),
      (''session_token'', debug_option (\<lambda>_. redacted F) (session_token c)),
      (''expires_at'', debug_option (fx_date_time F) (expires_at c))]"

definition debug_static_provider :: "fmt_ext \<Rightarrow> credentials \<Rightarrow> string" where
  "debug_static_provider F c = debug_struct ''StaticCredentialsProvider'' [(''credentials'', redacted F)]"

definition debug_aws_provider :: "fmt_ext \<Rightarrow> 's \<Rightarrow> string" where
  "debug_aws_provider F chain = debug_struct ''AwsDefaultCredentialsProvider'' [(''inner'', redacted F)]"

definition debug_cached_provider :: "fmt_ext \<Rightarrow> 's cached_provider \<Rightarrow> string" where
  "debug_cached_provider F p = debug_struct ''CachedCredentialsProvider''
     [(''provider'', redacted F), (''refresh_before'', debug_duration (cp_refresh_before p)), (''cached'', redacted F)]"

section \<open>Endpoints, configuration and client\<close>

definition debug_endpoint_url :: "fmt_ext \<Rightarrow> endpoint_url \<Rightarrow> string" where
  "debug_endpoint_url F u =
     (let (path, query) = (case split_once CHR ''?'' (eu_path_and_query u) of
            None \<Rightarrow> (eu_path_and_query u, False) | Some (path, _) \<Rightarrow> (path, True)) in
      debug_struct_non_exhaustive ''EndpointUrl''
        [(''scheme'', debug_str F (eu_scheme u)), (''authority'', debug_str F (eu_authority u)),
         (''path'', debug_str F path), (''has_redacted_query'', debug_bool query)])"

definition debug_endpoint :: "fmt_ext \<Rightarrow> endpoint \<Rightarrow> string" where
  "debug_endpoint F e = debug_tuple ''Endpoint'' [debug_endpoint_url F (ep_url e)]"

definition endpoint_display :: "endpoint \<Rightarrow> string" where
  "endpoint_display e = eu_serialized (ep_url e)"

definition addressing_style_debug :: "addressing_style \<Rightarrow> string" where
  "addressing_style_debug s = (case s of Path \<Rightarrow> ''Path'' | VirtualHosted \<Rightarrow> ''VirtualHosted'')"

definition debug_retry_policy :: "retry_policy \<Rightarrow> string" where
  "debug_retry_policy p = debug_struct ''RetryPolicy''
     [(''max_attempts'', to_string (unat (max_attempts p))), (''base_delay'', debug_duration (base_delay p)),
      (''max_delay'', debug_duration (max_delay p)), (''max_elapsed'', debug_duration (max_elapsed p))]"

definition debug_config :: "fmt_ext \<Rightarrow> ('p, 'o) s3_config \<Rightarrow> string" where
  "debug_config F c = debug_struct ''S3Config''
     [(''endpoint'', debug_endpoint F (cfg_endpoint c)),
      (''region'', debug_str F (cfg_region c)),
      (''bucket'', debug_str F (cfg_bucket c)),
      (''addressing_style'', addressing_style_debug (cfg_addressing_style c)),
      (''connect_timeout'', debug_duration (cfg_connect_timeout c)),
      (''attempt_timeout'', debug_duration (cfg_attempt_timeout c)),
      (''operation_timeout'', debug_duration (cfg_operation_timeout c)),
      (''idle_body_timeout'', debug_duration (cfg_idle_body_timeout c)),
      (''max_xml_response_size'', to_string (cfg_max_xml_response_size c)),
      (''max_error_response_size'', to_string (cfg_max_error_response_size c)),
      (''retry_policy'', debug_retry_policy (cfg_retry_policy c)),
      (''user_agent'', debug_str F (cfg_user_agent c)),
      (''credentials_provider'', redacted F),
      (''observer'', debug_option (\<lambda>_. debug_str F ''configured'') (cfg_observer c))]"

definition debug_client :: "fmt_ext \<Rightarrow> ('p, 'o) client \<Rightarrow> string" where
  "debug_client F c = debug_struct_non_exhaustive ''S3Client'' [(''config'', debug_config F (cl_config c))]"

section \<open>Values of the operations\<close>

definition debug_object_key :: "fmt_ext \<Rightarrow> object_key \<Rightarrow> string" where
  "debug_object_key F k = debug_tuple ''ObjectKey'' [debug_str F (key_str k)]"

definition object_key_display :: "object_key \<Rightarrow> string" where
  "object_key_display k = key_str k"

definition debug_byte_stream :: "fmt_ext \<Rightarrow> upload_source \<Rightarrow> string" where
  "debug_byte_stream F src =
     (let (kind, replayable) = (case src of
            UploadBytes _ \<Rightarrow> (''bytes'', True) | UploadFile _ \<Rightarrow> (''file'', True) | UploadStream _ _ _ \<Rightarrow> (''stream'', False)) in
      debug_struct_non_exhaustive ''ByteStream'' [(''kind'', debug_str F kind), (''replayable'', debug_bool replayable)])"

definition debug_response_stream :: "'d response_stream \<Rightarrow> string" where
  "debug_response_stream s = debug_struct_non_exhaustive ''ResponseStream''
     [(''expected_length'', debug_option to_string (rs_expected_length s)),
      (''verifies_sha256'', debug_bool (rs_expected_sha256 s \<noteq> None)),
      (''received'', to_string (rs_received s)),
      (''idle_timeout'', debug_duration (rs_idle_timeout s)),
      (''has_deadline'', debug_bool (rs_deadline s \<noteq> None)),
      (''finished'', debug_bool (rs_finished s))]"

definition checksum_algorithm_debug :: "checksum_algorithm \<Rightarrow> string" where
  "checksum_algorithm_debug a = (case a of Crc32 \<Rightarrow> ''Crc32'' | Crc32c \<Rightarrow> ''Crc32c'' | Crc64Nvme \<Rightarrow> ''Crc64Nvme''
     | Sha1 \<Rightarrow> ''Sha1'' | Sha256 \<Rightarrow> ''Sha256'')"

definition debug_checksum_type :: "fmt_ext \<Rightarrow> checksum_type \<Rightarrow> string" where
  "debug_checksum_type F t = (case t of Composite \<Rightarrow> ''Composite'' | FullObject \<Rightarrow> ''FullObject''
     | UnknownChecksumType v \<Rightarrow> debug_tuple ''Unknown'' [debug_str F v])"

definition debug_byte_range :: "byte_range \<Rightarrow> string" where
  "debug_byte_range r = (case r of
     Inclusive a b \<Rightarrow> debug_struct ''Inclusive'' [(''start'', to_string (unat a)), (''end'', to_string (unat b))]
   | FromOffset a \<Rightarrow> debug_tuple ''From'' [to_string (unat a)]
   | Suffix n \<Rightarrow> debug_tuple ''Suffix'' [to_string (unat n)])"

definition debug_conditions :: "fmt_ext \<Rightarrow> conditions \<Rightarrow> string" where
  "debug_conditions F c = debug_struct ''Conditions''
     [(''if_match'', debug_option (debug_str F) (if_match c)),
      (''if_none_match'', debug_option (debug_str F) (if_none_match c)),
      (''if_modified_since'', debug_option (fx_date_time F) (if_modified_since c)),
      (''if_unmodified_since'', debug_option (fx_date_time F) (if_unmodified_since c))]"

definition debug_checksum :: "fmt_ext \<Rightarrow> checksum \<Rightarrow> string" where
  "debug_checksum F c = debug_struct ''Checksum''
     [(''crc32'', debug_option (debug_str F) (crc32_value c)), (''crc32c'', debug_option (debug_str F) (crc32c_value c)),
      (''crc64_nvme'', debug_option (debug_str F) (crc64_nvme_value c)), (''sha1'', debug_option (debug_str F) (sha1_value c)),
      (''sha256'', debug_option (debug_str F) (sha256_value c))]"

definition debug_request_ids :: "fmt_ext \<Rightarrow> request_ids \<Rightarrow> string" where
  "debug_request_ids F i = debug_struct ''RequestIds''
     [(''request_id'', debug_option (debug_str F) (ids_request_id i)), (''host_id'', debug_option (debug_str F) (ids_host_id i))]"

definition debug_page_size :: "page_size \<Rightarrow> string" where
  "debug_page_size n = debug_tuple ''PageSize'' [to_string (unat (page_get n))]"

definition debug_copy_source :: "fmt_ext \<Rightarrow> copy_source \<Rightarrow> string" where
  "debug_copy_source F c = debug_struct ''CopySource''
     [(''bucket'', debug_str F (cs_bucket c)), (''key'', debug_object_key F (cs_key c)),
      (''version_id'', debug_option (debug_str F) (cs_version_id c))]"

definition debug_copy_part_range :: "copy_part_range \<Rightarrow> string" where
  "debug_copy_part_range r = debug_struct ''CopyPartRange''
     [(''start'', to_string (unat (cpr_start r))), (''end'', to_string (unat (cpr_end r)))]"

definition debug_completed_part :: "fmt_ext \<Rightarrow> completed_part \<Rightarrow> string" where
  "debug_completed_part F p = debug_struct ''CompletedPart''
     [(''part_number'', part_number_debug (cp_part_number p)), (''e_tag'', debug_str F (cp_e_tag p)),
      (''checksum'', debug_checksum F (cp_checksum p))]"

definition debug_delete_identifier :: "fmt_ext \<Rightarrow> delete_object_identifier \<Rightarrow> string" where
  "debug_delete_identifier F d = debug_struct ''DeleteObjectIdentifier''
     [(''key'', debug_object_key F (doi_key d)), (''version_id'', debug_option (debug_str F) (doi_version_id d)),
      (''if_match'', debug_option (debug_str F) (doi_if_match d))]"

definition debug_multipart_options :: "multipart_options \<Rightarrow> string" where
  "debug_multipart_options m = debug_struct ''MultipartOptions''
     [(''part_size'', to_string (mo_part_size m)), (''concurrency'', to_string (mo_concurrency m)),
      (''transfer_timeout'', debug_duration (mo_transfer_timeout m)), (''cleanup_timeout'', debug_duration (mo_cleanup_timeout m))]"

text \<open>User metadata is printed as the list of its names.\<close>

definition debug_metadata_names :: "fmt_ext \<Rightarrow> metadata_map \<Rightarrow> string" where
  "debug_metadata_names F m = debug_list (debug_str F) (map fst m)"

section \<open>Requests of the object operations\<close>

definition debug_put_request :: "fmt_ext \<Rightarrow> 'b put_object_request \<Rightarrow> string" where
  "debug_put_request F r = debug_struct ''PutObjectRequest''
     [(''key'', debug_object_key F (put_key r)),
      (''body'', debug_str F ''<stream>''),
      (''content_type'', debug_option (debug_str F) (put_content_type r)),
      (''user_metadata'', debug_metadata_names F (put_user_metadata r)),
      (''conditions'', debug_conditions F (put_conditions r)),
      (''checksum_algorithm'', debug_option checksum_algorithm_debug (put_checksum_algorithm r)),
      (''headers'', redacted_header F)]"

definition debug_get_request :: "fmt_ext \<Rightarrow> get_object_request \<Rightarrow> string" where
  "debug_get_request F r = debug_struct ''GetObjectRequest''
     [(''key'', debug_object_key F (get_key r)),
      (''range'', debug_option debug_byte_range (get_range r)),
      (''conditions'', debug_conditions F (get_conditions r)),
      (''version_id'', debug_option (debug_str F) (get_version_id r)),
      (''headers'', redacted_header F)]"

definition debug_head_request :: "fmt_ext \<Rightarrow> head_object_request \<Rightarrow> string" where
  "debug_head_request F r = debug_struct ''HeadObjectRequest''
     [(''key'', debug_object_key F (head_key r)),
      (''conditions'', debug_conditions F (head_conditions r)),
      (''version_id'', debug_option (debug_str F) (head_version_id r)),
      (''headers'', redacted_header F)]"

definition debug_delete_request :: "fmt_ext \<Rightarrow> delete_object_request \<Rightarrow> string" where
  "debug_delete_request F r = debug_struct ''DeleteObjectRequest''
     [(''key'', debug_object_key F (del_key r)),
      (''version_id'', debug_option (debug_str F) (del_version_id r)),
      (''if_match'', debug_option (debug_str F) (del_if_match r)),
      (''headers'', redacted_header F)]"

definition debug_delete_objects_request :: "fmt_ext \<Rightarrow> delete_objects_request \<Rightarrow> string" where
  "debug_delete_objects_request F r = debug_struct ''DeleteObjectsRequest''
     [(''objects'', debug_list (debug_delete_identifier F) (dos_objects r)),
      (''quiet'', debug_bool (dos_quiet r)),
      (''headers'', redacted_header F)]"

definition debug_copy_request :: "fmt_ext \<Rightarrow> copy_object_request \<Rightarrow> string" where
  "debug_copy_request F r = debug_struct ''CopyObjectRequest''
     [(''source'', debug_copy_source F (co_source r)),
      (''destination'', debug_object_key F (co_destination r)),
      (''source_conditions'', debug_conditions F (co_source_conditions r)),
      (''metadata'', debug_str F (case co_metadata r of CopyMetadata \<Rightarrow> ''copy'' | ReplaceMetadata _ _ \<Rightarrow> ''replace'')),
      (''headers'', redacted_header F)]"

definition debug_list_objects_request :: "fmt_ext \<Rightarrow> list_objects_request \<Rightarrow> string" where
  "debug_list_objects_request F r = debug_struct ''ListObjectsV2Request''
     [(''prefix'', debug_option (debug_str F) (lo_prefix r)),
      (''delimiter'', debug_option (debug_str F) (lo_delimiter r)),
      (''continuation_token'', debug_option (debug_str F) (lo_continuation_token r)),
      (''start_after'', debug_option (debug_object_key F) (lo_start_after r)),
      (''max_keys'', debug_page_size (lo_max_keys r)),
      (''fetch_owner'', debug_bool (lo_fetch_owner r)),
      (''headers'', redacted_header F)]"

section \<open>Requests of the multipart operations\<close>

definition debug_create_request :: "fmt_ext \<Rightarrow> create_request \<Rightarrow> string" where
  "debug_create_request F r = debug_struct ''CreateMultipartUploadRequest''
     [(''key'', debug_object_key F (cr_key r)),
      (''content_type'', debug_option (debug_str F) (cr_content_type r)),
      (''user_metadata'', debug_metadata_names F (cr_user_metadata r)),
      (''checksum_algorithm'', debug_option checksum_algorithm_debug (cr_checksum_algorithm r)),
      (''checksum_type'', debug_option (debug_checksum_type F) (cr_checksum_type r)),
      (''headers'', redacted_header F)]"

definition debug_create_output :: "fmt_ext \<Rightarrow> create_output \<Rightarrow> string" where
  "debug_create_output F r = debug_struct ''CreateMultipartUploadOutput''
     [(''bucket'', debug_option (debug_str F) (cro_bucket r)),
      (''key'', debug_object_key F (cro_key r)),
      (''upload_id'', upload_id_debug (cro_upload_id r)),
      (''checksum_algorithm'', debug_option (debug_str F) (cro_checksum_algorithm r)),
      (''checksum_type'', debug_option (debug_checksum_type F) (cro_checksum_type r)),
      (''request_ids'', debug_request_ids F (cro_request_ids r))]"

definition debug_upload_part_request :: "fmt_ext \<Rightarrow> 'b upload_part_request \<Rightarrow> string" where
  "debug_upload_part_request F r = debug_struct ''UploadPartRequest''
     [(''key'', debug_object_key F (up_key r)),
      (''upload_id'', upload_id_debug (up_upload_id r)),
      (''part_number'', part_number_debug (up_part_number r)),
      (''body'', debug_str F ''<stream>''),
      (''checksum'', debug_checksum F (up_checksum r)),
      (''headers'', redacted_header F)]"

definition debug_upload_part_copy_request :: "fmt_ext \<Rightarrow> upload_part_copy_request \<Rightarrow> string" where
  "debug_upload_part_copy_request F r = debug_struct ''UploadPartCopyRequest''
     [(''destination'', debug_object_key F (upc_destination r)),
      (''upload_id'', upload_id_debug (upc_upload_id r)),
      (''part_number'', part_number_debug (upc_part_number r)),
      (''source'', debug_copy_source F (upc_source r)),
      (''source_range'', debug_option debug_copy_part_range (upc_source_range r)),
      (''source_conditions'', debug_conditions F (upc_source_conditions r)),
      (''headers'', redacted_header F)]"

definition debug_complete_request :: "fmt_ext \<Rightarrow> complete_request \<Rightarrow> string" where
  "debug_complete_request F r = debug_struct ''CompleteMultipartUploadRequest''
     [(''key'', debug_object_key F (cmp_key r)),
      (''upload_id'', upload_id_debug (cmp_upload_id r)),
      (''completed_parts'', debug_list (debug_completed_part F) (cmp_completed_parts r)),
      (''headers'', redacted_header F)]"

definition debug_abort_request :: "fmt_ext \<Rightarrow> abort_request \<Rightarrow> string" where
  "debug_abort_request F r = debug_struct ''AbortMultipartUploadRequest''
     [(''key'', debug_object_key F (ab_key r)),
      (''upload_id'', upload_id_debug (ab_upload_id r)),
      (''headers'', redacted_header F)]"

definition debug_list_uploads_request :: "fmt_ext \<Rightarrow> list_uploads_request \<Rightarrow> string" where
  "debug_list_uploads_request F r = debug_struct ''ListMultipartUploadsRequest''
     [(''prefix'', debug_option (debug_str F) (lu_prefix r)),
      (''delimiter'', debug_option (debug_str F) (lu_delimiter r)),
      (''key_marker'', debug_option (debug_str F) (lu_key_marker r)),
      (''upload_id_marker'', debug_option upload_id_debug (lu_upload_id_marker r)),
      (''max_uploads'', debug_page_size (lu_max_uploads r)),
      (''headers'', redacted_header F)]"

definition debug_upload_entry :: "fmt_ext \<Rightarrow> upload_entry \<Rightarrow> string" where
  "debug_upload_entry F u = debug_struct ''MultipartUploadEntry''
     [(''key'', debug_object_key F (ue_key u)),
      (''upload_id'', upload_id_debug (ue_upload_id u)),
      (''initiated'', debug_option (fx_date_time F) (ue_initiated u)),
      (''storage_class'', debug_option (debug_str F) (ue_storage_class u))]"

definition debug_list_parts_request :: "fmt_ext \<Rightarrow> list_parts_request \<Rightarrow> string" where
  "debug_list_parts_request F r = debug_struct ''ListPartsRequest''
     [(''key'', debug_object_key F (lp_key r)),
      (''upload_id'', upload_id_debug (lp_upload_id r)),
      (''part_number_marker'', debug_option part_number_debug (lp_part_number_marker r)),
      (''max_parts'', debug_page_size (lp_max_parts r)),
      (''headers'', redacted_header F)]"

definition debug_multipart_upload :: "fmt_ext \<Rightarrow> multipart_upload \<Rightarrow> string" where
  "debug_multipart_upload F u = debug_struct ''MultipartUpload''
     [(''key'', debug_object_key F (mu_key u)),
      (''upload_id'', upload_id_debug (mu_upload_id u)),
      (''completed_parts'', debug_list (debug_completed_part F) (mu_completed_parts u))]"

definition debug_managed_headers :: "fmt_ext \<Rightarrow> managed_headers \<Rightarrow> string" where
  "debug_managed_headers F h = debug_struct ''ManagedMultipartHeaders''
     [(''create'', redacted_header F), (''upload_part'', redacted_header F), (''complete'', redacted_header F),
      (''abort'', redacted_header F)]"

definition debug_managed_request :: "fmt_ext \<Rightarrow> managed_request \<Rightarrow> string" where
  "debug_managed_request F r = debug_struct ''ManagedMultipartUploadRequest''
     [(''key'', debug_object_key F (mr_key r)),
      (''source'', debug_str F (case mr_source r of SourceBytes _ \<Rightarrow> ''bytes'' | SourceFile _ \<Rightarrow> ''file'')),
      (''content_type'', debug_option (debug_str F) (mr_content_type r)),
      (''user_metadata'', debug_metadata_names F (mr_user_metadata r)),
      (''options'', debug_multipart_options (mr_options r)),
      (''checksum_algorithm'', debug_option checksum_algorithm_debug (mr_checksum_algorithm r)),
      (''headers'', debug_managed_headers F (mr_headers r))]"

section \<open>Non-interference\<close>

lemmas debug_defs = debug_error_def debug_credentials_def debug_static_provider_def debug_aws_provider_def
  debug_cached_provider_def debug_config_def debug_client_def presigned_url_debug_def presigned_url_display_def
  upload_id_debug_def upload_id_display_def debug_put_request_def debug_get_request_def debug_head_request_def
  debug_delete_request_def debug_delete_objects_request_def debug_copy_request_def debug_list_objects_request_def
  debug_create_request_def debug_create_output_def debug_upload_part_request_def debug_upload_part_copy_request_def
  debug_complete_request_def debug_abort_request_def debug_list_uploads_request_def debug_upload_entry_def
  debug_list_parts_request_def debug_multipart_upload_def debug_managed_headers_def debug_managed_request_def

lemma debug_option_Some: "debug_option show (Some x) = ''Some('' @ show x @ '')''"
  by (simp add: debug_option_def)

lemma debug_option_map_const [simp]: "debug_option (\<lambda>_. t) (map_option f x) = debug_option (\<lambda>_. t) x"
  by (simp add: debug_option_def split: option.splits)

lemma debug_upload_ids_redacted [simp]: "debug_option upload_id_debug (map_option f x) = debug_option upload_id_debug x"
  by (simp add: debug_option_def upload_id_debug_def split: option.splits)

lemma debug_metadata_values_hidden [simp]: "debug_metadata_names F (map (\<lambda>(name, _). (name, f name)) m) = debug_metadata_names F m"
  by (simp add: debug_metadata_names_def comp_def case_prod_unfold)

lemma before_query_no_question: "CHR ''?'' \<notin> set (before_query s)"
  by (auto simp: before_query_def split_once_None_iff split: option.splits dest: split_once_SomeD)

text \<open>
  Property C23. What is printed of credentials, providers, configurations, clients and presigned URLs does not depend on the
  secrets they hold: replacing the key identifier, the secret key, the session token, the wrapped provider, the cached
  credentials, the configured provider or the signed URL by any others leaves the text as it is; only whether there is a
  session token can be read off. The same holds for the query of an endpoint URL, which may carry a signature, and for the
  source and the cleanup failure inside an error.
\<close>

theorem credentials_never_printed:
  "debug_credentials F (c\<lparr>access_key_id := akid, secret_access_key := sec,
       session_token := map_option f (session_token c)\<rparr>) = debug_credentials F c \<and>
   debug_static_provider F c = debug_static_provider F c' \<and>
   debug_aws_provider F chain = debug_aws_provider F chain' \<and>
   debug_cached_provider F (p\<lparr>cp_inner := inner, cp_cached := cached\<rparr>) = debug_cached_provider F p \<and>
   debug_config F (cfg\<lparr>cfg_credentials_provider := provider\<rparr>) = debug_config F cfg \<and>
   debug_client F (cl\<lparr>cl_config := (cl_config cl)\<lparr>cfg_credentials_provider := provider\<rparr>\<rparr>) = debug_client F cl \<and>
   debug_endpoint_url F (url\<lparr>eu_path_and_query := before_query pq @ ''?'' @ q, eu_serialized := ser\<rparr>) =
     debug_endpoint_url F (url\<lparr>eu_path_and_query := before_query pq @ ''?'' @ q'\<rparr>) \<and>
   presigned_url_debug u = presigned_url_debug u' \<and> presigned_url_display u = presigned_url_display u' \<and>
   debug_error F (with_cleanup_failure e1 (with_source type_name e)) = debug_error F (with_cleanup_failure e2 (with_source type_name' e)) \<and>
   error_display (with_cleanup_failure e1 (with_source type_name e)) = error_display (with_cleanup_failure e2 (with_source type_name' e))"
  by (simp add: debug_defs debug_endpoint_url_def split_once_append before_query_no_question debug_option_Some error_display_def with_source_def)

text \<open>
  What is printed of a request does not depend on the values of its headers, on the values of its user
  metadata, on its body or on its upload identifier: requests that differ only in those, with the metadata names kept, print alike.
\<close>

lemma request_secrets_never_printed:
  "debug_put_request F (pt\<lparr>put_body := b, put_headers := h,
       put_user_metadata := map (\<lambda>(name, _). (name, value name)) (put_user_metadata pt)\<rparr>) = debug_put_request F pt \<and>
   debug_get_request F (get\<lparr>get_headers := h\<rparr>) = debug_get_request F get \<and>
   debug_head_request F (hdr\<lparr>head_headers := h\<rparr>) = debug_head_request F hdr \<and>
   debug_delete_request F (del\<lparr>del_headers := h\<rparr>) = debug_delete_request F del \<and>
   debug_delete_objects_request F (dels\<lparr>dos_headers := h\<rparr>) = debug_delete_objects_request F dels \<and>
   debug_copy_request F (cp\<lparr>co_headers := h, co_metadata := ReplaceMetadata ct md\<rparr>) =
     debug_copy_request F (cp\<lparr>co_metadata := ReplaceMetadata ct' md'\<rparr>) \<and>
   debug_list_objects_request F (ls\<lparr>lo_headers := h\<rparr>) = debug_list_objects_request F ls \<and>
   debug_create_request F (cr\<lparr>cr_headers := h,
       cr_user_metadata := map (\<lambda>(name, _). (name, value name)) (cr_user_metadata cr)\<rparr>) = debug_create_request F cr \<and>
   debug_create_output F (cro\<lparr>cro_upload_id := uid\<rparr>) = debug_create_output F cro \<and>
   debug_upload_part_request F (up\<lparr>up_upload_id := uid, up_body := b', up_headers := h\<rparr>) = debug_upload_part_request F up \<and>
   debug_upload_part_copy_request F (upc\<lparr>upc_upload_id := uid, upc_headers := h\<rparr>) = debug_upload_part_copy_request F upc \<and>
   debug_complete_request F (cmp\<lparr>cmp_upload_id := uid, cmp_headers := h\<rparr>) = debug_complete_request F cmp \<and>
   debug_abort_request F (ab\<lparr>ab_upload_id := uid, ab_headers := h\<rparr>) = debug_abort_request F ab \<and>
   debug_list_uploads_request F (lu\<lparr>lu_upload_id_marker := map_option g (lu_upload_id_marker lu), lu_headers := h\<rparr>) =
     debug_list_uploads_request F lu \<and>
   debug_upload_entry F (ue\<lparr>ue_upload_id := uid\<rparr>) = debug_upload_entry F ue \<and>
   debug_list_parts_request F (lp\<lparr>lp_upload_id := uid, lp_headers := h\<rparr>) = debug_list_parts_request F lp \<and>
   debug_multipart_upload F (mu\<lparr>mu_upload_id := uid\<rparr>) = debug_multipart_upload F mu \<and>
   debug_managed_request F (mr\<lparr>mr_source := SourceBytes bytes, mr_headers := mh,
       mr_user_metadata := map (\<lambda>(name, _). (name, value name)) (mr_user_metadata mr)\<rparr>) =
     debug_managed_request F (mr\<lparr>mr_source := SourceBytes bytes'\<rparr>)"
  by (simp add: debug_defs)

section \<open>Printed text has no control characters\<close>

text \<open>What the parameters are documented to print has no ASCII control character.\<close>

definition printable :: "string \<Rightarrow> bool" where
  "printable s \<longleftrightarrow> list_all (\<lambda>c. \<not> is_ascii_control c) s"

definition fmt_documented :: "fmt_ext \<Rightarrow> bool" where
  "fmt_documented F \<longleftrightarrow> (\<forall>s. printable (fx_unicode F s)) \<and> (\<forall>t. printable (fx_date_time F t)) \<and>
     (\<forall>d. printable (fx_time_span F d)) \<and> (\<forall>n. printable (fx_status F n))"

lemma printable_append [simp]: "printable (s @ t) \<longleftrightarrow> printable s \<and> printable t"
  and printable_Cons [simp]: "printable (c # s) \<longleftrightarrow> \<not> is_ascii_control c \<and> printable s"
  and printable_Nil [simp]: "printable []"
  by (simp_all add: printable_def)

lemma printable_join: "printable sep \<Longrightarrow> list_all printable xs \<Longrightarrow> printable (join sep xs)"
  by (induction sep xs rule: join.induct) simp_all

lemma printable_escape_char: "ord c < 128 \<Longrightarrow> printable (escape_char c)"
  by (auto simp: escape_char_def byte_simps hex_digit_def)

lemma printable_escape_str: "fmt_documented F \<Longrightarrow> printable (escape_str F s)"
  by (induction F s rule: escape_str.induct) (auto simp: printable_escape_char fmt_documented_def simp del: takeWhile.simps)

lemma printable_to_string: "printable (to_string n)"
proof -
  have "is_ascii_digit c \<Longrightarrow> \<not> is_ascii_control c" for c by (auto simp: byte_simps)
  then show ?thesis using to_string_digits[of n] by (auto simp: printable_def list_all_iff)
qed

lemma printable_debug_str: "fmt_documented F \<Longrightarrow> printable (debug_str F s)"
  by (simp add: debug_str_def printable_escape_str byte_simps)

lemma printable_option: "(\<And>v. x = Some v \<Longrightarrow> printable (show v)) \<Longrightarrow> printable (debug_option show x)"
  by (auto simp: debug_option_def byte_simps split: option.splits)

lemma printable_fields: "list_all (\<lambda>(name, text). printable name \<and> printable text) fs \<Longrightarrow> printable (debug_fields fs)"
  unfolding debug_fields_def by (rule printable_join) (auto simp: byte_simps list_all_iff)

lemma printable_struct:
  "printable name \<Longrightarrow> list_all (\<lambda>(name, text). printable name \<and> printable text) fs \<Longrightarrow> printable (debug_struct name fs)"
  by (auto simp: debug_struct_def byte_simps printable_fields)

lemma printable_category: "printable (category_debug c)"
  by (cases c) (simp_all add: category_debug_def byte_simps)

lemma printable_retry: "printable (retry_debug r)"
  by (cases r) (simp_all add: retry_debug_def byte_simps)

lemma printable_phase: "printable (phase_debug p)"
  by (cases p) (simp_all add: phase_debug_def byte_simps)

lemma printable_stop_reason: "printable (stop_reason_debug r)"
  by (cases r) (simp_all add: stop_reason_debug_def byte_simps)

lemmas printable_rules = printable_debug_str printable_to_string printable_category printable_retry printable_phase
  printable_stop_reason printable_option

text \<open>
  Printing an error for a log never emits a line break or any other ASCII control character, whatever code, message or
  identifiers the service sent.
\<close>

lemma debug_error_printable:
  assumes "fmt_documented F"
  shows "printable (debug_error F e)"
proof -
  have "printable (fx_date_time F t)" "printable (fx_time_span F d)" "printable (fx_status F n)" for t d n
    using assms by (simp_all add: fmt_documented_def)
  then show ?thesis unfolding debug_error_def Let_def
    by (intro printable_struct) (auto simp: byte_simps intro!: printable_rules assms)
qed

end
