(* ===== verification/Fuzzing.thy ===== *)
theory Fuzzing
  imports Endpoint Signing Protocol Upload_Stream
begin

text \<open>
  The harness functions of \<open>fuzzing.rs\<close>, which the fuzz targets and the benchmarks call, and what those programs assert
  of them: the two assertions of the fuzz targets hold on every input, the calls a benchmark unwraps succeed, and a document is accepted
  by at most one of the multipart parsers unless it is an error document.
\<close>

section \<open>The harness functions\<close>

datatype harness_error = HarnessError

definition opaque :: "'e + 'a \<Rightarrow> harness_error + 'a" where
  "opaque r = map_err (\<lambda>_. HarnessError) r"

definition canonical_uri_path :: "string \<Rightarrow> string" where
  "canonical_uri_path path = canonical_uri path"

definition canonical_query_pairs :: "(string \<times> string) list \<Rightarrow> string" where
  "canonical_query_pairs ps = canonical_query (map (\<lambda>(name, v). \<lparr>qp_name = name, qp_value = v\<rparr>) ps)"

definition canonical_header_pairs :: "(string \<times> string) list \<Rightarrow> harness_error + string \<times> string" where
  "canonical_header_pairs hs =
     opaque (and_then (canonical_headers (map (\<lambda>(name, v). \<lparr>h_name = name, h_value = v\<rparr>) hs)) (\<lambda>b.
       Inr (canonical b, signed b)))"

definition parse_error_xml :: "xml_ext \<Rightarrow> string \<Rightarrow> nat \<Rightarrow> harness_error + bool list" where
  "parse_error_xml Y body maximum =
     opaque (and_then (parse_s3_error Y body maximum) (\<lambda>e.
       Inr [pe_code e \<noteq> None, pe_message e \<noteq> None, pe_request_id e \<noteq> None, pe_host_id e \<noteq> None,
            pe_resource e \<noteq> None, pe_region e \<noteq> None]))"

definition parse_listing_xml :: "xml_ext \<Rightarrow> string \<Rightarrow> nat \<Rightarrow> harness_error + nat \<times> nat \<times> bool \<times> string option" where
  "parse_listing_xml Y body maximum =
     opaque (and_then (parse_list_objects_v2 Y body maximum) (\<lambda>out.
       Inr (length (loo_objects out), length (loo_common_prefixes out), loo_is_truncated out, loo_next_continuation_token out)))"

definition parse_multipart_xml :: "xml_ext \<Rightarrow> string \<Rightarrow> nat \<Rightarrow> nat" where
  "parse_multipart_xml Y body maximum =
     of_bool (\<not> isl (parse_create_multipart_upload Y body maximum)) +
     of_bool (\<not> isl (parse_complete_multipart_upload Y body maximum)) +
     of_bool (\<not> isl (parse_copy_object Y body maximum)) +
     of_bool (\<not> isl (parse_list_multipart_uploads Y body maximum))"

definition EMPTY_SHA256 :: string where
  "EMPTY_SHA256 = ''e3b0c44298fc1c149afbf4c8996fb92427ae41e4649b934ca495991b7852b855''"

text \<open>The first of January 2024 at midnight, UTC, in seconds since the epoch.\<close>

definition benchmark_timestamp :: int where "benchmark_timestamp = 1704067200"

definition benchmark_credentials :: signing_credentials where
  "benchmark_credentials = \<lparr>sc_access_key_id = ''TESTACCESS'', sc_secret_access_key = ''fixed-benchmark-key'', sc_session_token = None\<rparr>"

definition benchmark_scope :: signing_scope where
  "benchmark_scope = \<lparr>scope_region = ''us-east-1'', scope_service = ''s3''\<rparr>"

definition benchmark_request :: "string \<Rightarrow> header_signing_request" where
  "benchmark_request path = \<lparr>hs_method = ''GET'', hs_uri_path = Raw path, hs_query = [],
     hs_headers = [\<lparr>h_name = ''host'', h_value = ''bucket.example.test''\<rparr>], hs_payload_hash = EMPTY_SHA256\<rparr>"

definition signing_output_size :: "signing_ext \<Rightarrow> string \<Rightarrow> harness_error + nat" where
  "signing_output_size X path =
     opaque (and_then (sign_headers X benchmark_credentials benchmark_scope (benchmark_request path) benchmark_timestamp) (\<lambda>out.
       Inr (length (hs_authorization out))))"

text \<open>Collecting a body: it is polled until it ends or fails, for a bounded number of polls.\<close>

fun collect_body :: "'d checksum_ext \<Rightarrow> nat \<Rightarrow> 'd transport_body \<Rightarrow> string \<Rightarrow> (s3_error + string) option" where
  "collect_body X 0 b got = None"
| "collect_body X (Suc n) b got = (case poll_frame X () b of
     (FramePending, b') \<Rightarrow> collect_body X n b' got
   | (FrameData chunk, b') \<Rightarrow> collect_body X n b' (got @ chunk)
   | (FrameError e, _) \<Rightarrow> Some (Inl e)
   | (FrameEnd, _) \<Rightarrow> Some (Inr got))"

definition consume_byte_stream ::
  "'d checksum_ext \<Rightarrow> file_reader \<Rightarrow> (string \<Rightarrow> string + poll_event list) \<Rightarrow> nat \<Rightarrow> string \<Rightarrow> (harness_error + nat) option" where
  "consume_byte_stream X read_file open_file n bytes =
     (case prepare X read_file (byte_stream_from_bytes bytes) of
        Inl _ \<Rightarrow> Some (Inl HarnessError)
      | Inr p \<Rightarrow> (case fst (request_body X open_file p) of
          Inl _ \<Rightarrow> Some (Inl HarnessError)
        | Inr b \<Rightarrow> map_option (\<lambda>r. opaque (and_then r (\<lambda>got. Inr (length got)))) (collect_body X n b [])))"

definition endpoint_object_path_size ::
  "uri_ext \<Rightarrow> endpoint \<Rightarrow> string \<Rightarrow> string \<Rightarrow> addressing_style \<Rightarrow> harness_error + nat" where
  "endpoint_object_path_size U ep bucket key style =
     and_then (opaque (object_key_new key)) (\<lambda>k.
     opaque (and_then (object_url U ep bucket (Some (key_str k)) style) (\<lambda>url. Inr (length (eu_path_and_query url)))))"

section \<open>What the fuzz targets assert\<close>

lemma canonical_query_no_space: "CHR '' '' \<notin> set (canonical_query ps)"
proof
  assume "CHR '' '' \<in> set (canonical_query ps)"
  then obtain p where "CHR '' '' \<in> set (render_param (encode_param p))"
    using join_set[of "''&''"] by (fastforce simp: canonical_query_def)
  moreover have "CHR '' '' \<notin> set (aws_uri_encode True s)" for s
    using aws_true_alphabet[of "CHR '' ''" s] by (auto simp: is_unreserved_def byte_simps)
  ultimately show False by (auto simp: render_param_def encode_param_def)
qed

text \<open>
  The assertions of the fuzz targets hold on every input: a canonical path starts with a slash, and a canonical query has
  no space.
\<close>

lemma fuzz_assertions_hold:
  "starts_with (canonical_uri_path path) ''/'' \<and> CHR '' '' \<notin> set (canonical_query_pairs ps)"
  by (simp add: canonical_uri_path_def canonical_uri_def canonical_query_pairs_def canonical_query_no_space starts_with_iff Let_def)

lemma opaque_Inr: "opaque r = Inr x \<longleftrightarrow> r = Inr x"
  by (cases r) (simp_all add: opaque_def)

section \<open>Which documents are accepted\<close>

lemma isl_and_then: "\<not> isl (and_then r f) \<longleftrightarrow> (\<exists>x. r = Inr x \<and> \<not> isl (f x))"
  by (cases r) simp_all

lemma multipart_roots:
  "\<not> isl (parse_create_multipart_upload Y body m) \<Longrightarrow> root_loop (xx_events Y body) = Inr ''InitiateMultipartUploadResult''"
  "\<not> isl (parse_list_multipart_uploads Y body m) \<Longrightarrow> root_loop (xx_events Y body) = Inr ''ListMultipartUploadsResult''"
  "\<not> isl (parse_complete_multipart_upload Y body m) \<Longrightarrow> root_loop (xx_events Y body) \<in> {Inr ''CompleteMultipartUploadResult'', Inr ''Error''}"
  "\<not> isl (parse_copy_object Y body m) \<Longrightarrow> root_loop (xx_events Y body) \<in> {Inr ''CopyObjectResult'', Inr ''Error''}"
  by (auto simp: parse_create_multipart_upload_def parse_list_multipart_uploads_def parse_complete_multipart_upload_def
      parse_copy_object_def parse_s3_error_def isl_and_then dest!: expect_root_safe split: if_splits)

text \<open>
  A document is accepted by at most one of the multipart parsers, unless its root is an error, which the two parsers of
  responses that may embed one both accept.
\<close>

lemma multipart_documents_disjoint:
  "parse_multipart_xml Y body m \<le> (if root_loop (xx_events Y body) = Inr ''Error'' then 2 else 1)"
proof -
  have "\<not> isl (parse_create_multipart_upload Y body m) \<Longrightarrow> isl (parse_complete_multipart_upload Y body m) \<and>
      isl (parse_copy_object Y body m) \<and> isl (parse_list_multipart_uploads Y body m)"
    using multipart_roots[of Y body m] by fastforce
  moreover have "\<not> isl (parse_list_multipart_uploads Y body m) \<Longrightarrow> isl (parse_complete_multipart_upload Y body m) \<and>
      isl (parse_copy_object Y body m)"
    using multipart_roots[of Y body m] by fastforce
  moreover have "\<not> isl (parse_complete_multipart_upload Y body m) \<Longrightarrow> \<not> isl (parse_copy_object Y body m) \<Longrightarrow>
      root_loop (xx_events Y body) = Inr ''Error''"
    using multipart_roots(3,4)[of Y body m] by fastforce
  ultimately show ?thesis by (auto simp: parse_multipart_xml_def)
qed

text \<open>
  The function's comment announces every multipart response parser, but the listing of parts is not among them: such a
  document is accepted by none of the parsers that are called.
\<close>

lemma list_parts_not_exercised:
  "root_loop (xx_events Y body) = Inr ''ListPartsResult'' \<Longrightarrow> parse_multipart_xml Y body m = 0"
  using multipart_roots[of Y body m] by (auto simp: parse_multipart_xml_def)

section \<open>What the benchmarks unwrap\<close>

lemma benchmark_headers_canonical:
  "\<exists>block. canonical_headers (all_signed_headers benchmark_credentials (benchmark_request path) ''20240101T000000Z'') = Inr block"
proof -
  have "\<not> isl (canonical_headers [\<lparr>h_name = ''host'', h_value = ''bucket.example.test''\<rparr>,
      \<lparr>h_name = ''x-amz-date'', h_value = ''20240101T000000Z''\<rparr>])" by code_simp
  then show ?thesis
    by (simp add: all_signed_headers_def token_header_def benchmark_credentials_def benchmark_request_def not_isl_Inr)
qed

lemma benchmark_request_valid:
  "validate_common benchmark_credentials benchmark_scope ''GET'' = Inr ()" "validate_payload_hash EMPTY_SHA256 = Inr ()"
  "reject_reserved_headers [\<lparr>h_name = ''host'', h_value = ''bucket.example.test''\<rparr>] = Inr ()"
  by code_simp+

lemma benchmark_signed_names:
  "sigv4_names (all_signed_headers benchmark_credentials (benchmark_request path) d) = ''host;x-amz-date''"
proof -
  have "lower_name \<lparr>h_name = ''host'', h_value = ''bucket.example.test''\<rparr> = ''host''"
    "lower_name \<lparr>h_name = ''x-amz-date'', h_value = d\<rparr> = ''x-amz-date''" by (simp_all add: lower_name_def) code_simp+
  moreover have "''host'' < ''x-amz-date''" by code_simp
  ultimately show ?thesis
    by (simp add: sigv4_names_def all_signed_headers_def token_header_def benchmark_credentials_def benchmark_request_def)
qed

text \<open>
  The benchmarks' calls succeed: whatever the path, the signing benchmark signs its request, and the size
  it reports is that of the authorization with the fixed credential, scope and signed header names and a signature of 64 digits, so it
  reveals nothing of path or signature.
\<close>

lemma benchmark_signing_size:
  assumes "crypto_documented X" and "ext_amz_date X benchmark_timestamp = Some ''20240101T000000Z''"
    and "ext_date X benchmark_timestamp = Some ''20240101''"
  shows "signing_output_size X path =
    Inr (length ''AWS4-HMAC-SHA256 Credential=TESTACCESS/20240101/us-east-1/s3/aws4_request, SignedHeaders=host;x-amz-date, Signature='' + 64)"
proof -
  have "\<exists>out. sign_headers X benchmark_credentials benchmark_scope (benchmark_request path) benchmark_timestamp = Inr out"
    unfolding sign_headers_total[OF assms(1)] using benchmark_headers_canonical[of path] benchmark_request_valid assms(2,3)
    by (simp add: benchmark_request_def path_canonical_def)
  then obtain out where out: "sign_headers X benchmark_credentials benchmark_scope (benchmark_request path) benchmark_timestamp = Inr out" ..
  from sign_headers_shape[OF assms(1) out] assms(3) obtain sig where
    "hs_authorization out = ALGORITHM @ '' Credential=TESTACCESS/'' @ credential_scope ''20240101'' benchmark_scope @
       '', SignedHeaders='' @ ''host;x-amz-date'' @ '', Signature='' @ sig" "is_hex_signature sig"
    unfolding benchmark_signed_names by (auto simp: benchmark_credentials_def)
  moreover have "length sig = 64" using calculation(2) by (simp add: is_hex_signature_def)
  ultimately show ?thesis using out
    by (simp add: signing_output_size_def opaque_def credential_scope_def benchmark_scope_def)
qed

text \<open>
  An in-memory upload body is consumed completely: two polls of the prepared body deliver every byte and its end.
\<close>

lemma consumed_bytes:
  assumes "digest_documented X" and "2 \<le> n"
  shows "consume_byte_stream X read_file open_file n bytes = Some (Inr (length bytes))"
proof -
  obtain k where n: "n = Suc (Suc k)" using assms(2) by (metis Suc_le_D numeral_2_eq_2 Suc_le_mono)
  have "ce_digest_finalize X (ce_digest_update X (ce_digest_new X) bytes) = ce_sha256 X bytes"
    "ce_digest_finalize X (ce_digest_new X) = ce_sha256 X []"
    using finalize_hashed[OF assms(1), of "[bytes]"] finalize_hashed[OF assms(1), of "[]"] by (simp_all add: hashed_def)
  then show ?thesis
    by (simp add: n consume_byte_stream_def prepare_def byte_stream_from_bytes_def request_body_def transport_body_new_def
        poll_frame_def prepare_bytes_sha[OF assms(1)] opaque_def Let_def)
qed

end
