(* ===== verification/Examples.thy ===== *)
theory Examples
  imports Client_Program
begin

text \<open>
  The example programs \<open>examples/basic.rs\<close>, \<open>copy_and_delete.rs\<close>, \<open>download_file.rs\<close>, \<open>multipart_upload.rs\<close>, \<open>presign.rs\<close> and
  \<open>stream_upload.rs\<close> with their common \<open>client_from_env\<close>. A program's log holds its calls of the client, what it printed and
  what it handed to the caller. The lemmas say what a run leaves behind: an example deletes what it created, and only that.
\<close>

section \<open>Common\<close>

datatype example_error =
    ExampleS3 s3_error
  | ExampleKey object_key_error
  | ExampleRange range_error
  | ExampleDelete delete_objects_error
  | ExampleUtf8
  | ExampleIo string
  | ExampleText string

datatype example_event = Called client_call | Printed string | Delivered string string

type_synonym ('d, 'a) example_op = "(example_error, example_event, 'd, 'a) logged_op"

definition ex_try :: "s3_error + 'a \<Rightarrow> ('d, 'a) example_op" where
  "ex_try r = st_of (map_err ExampleS3 r)"

definition ex_key :: "object_key_error + object_key \<Rightarrow> ('d, object_key) example_op" where
  "ex_key r = st_of (map_err ExampleKey r)"

definition ex_await :: "((s3_error + 'a) option \<Rightarrow> client_call) \<Rightarrow> ('d, 'a) op \<Rightarrow> ('d, 'a) example_op" where
  "ex_await logged m = st_bind (st_call (Called \<circ> logged) m) ex_try"

definition ex_log :: "example_event \<Rightarrow> ('d, unit) example_op" where
  "ex_log ev w = (Some (Inr ()), [ev], w)"

definition ex_wait :: "'a option \<Rightarrow> ('d, 'a) example_op" where
  "ex_wait x w = (map_option Inr x, [], w)"

definition ex_required_env :: "(string \<Rightarrow> string option) \<Rightarrow> string \<Rightarrow> example_error + string" where
  "ex_required_env vars name = ok_or (ExampleText (''required environment variable '' @ name @ '' is not set'')) (vars name)"

definition env_or :: "(string \<Rightarrow> string option) \<Rightarrow> string \<Rightarrow> string \<Rightarrow> string" where
  "env_or vars name fallback = (case vars name of Some v \<Rightarrow> v | None \<Rightarrow> fallback)"

definition client_from_env ::
  "config_ext \<Rightarrow> endpoint \<Rightarrow> string \<Rightarrow> 'p \<Rightarrow> (string \<Rightarrow> string option) \<Rightarrow> retry_quota list
     \<Rightarrow> (example_error + ('p, 'o) client) \<times> retry_quota list" where
  "client_from_env C aws version provider vars quotas =
     (let region = env_or vars ''S3_REGION'' ''us-east-1'' in
      case and_then (map_err ExampleS3 (case vars ''S3_ENDPOINT'' of
              None \<Rightarrow> for_aws_region (cx_uri C) region | Some url \<Rightarrow> endpoint_new (cx_uri C) url)) (\<lambda>ep.
           and_then (ex_required_env vars ''S3_BUCKET'') (\<lambda>bucket.
           let b = builder_addressing_style Path (builder_bucket bucket (builder_region region (builder_endpoint ep
                 (default_builder aws version provider)))) in
           map_err ExampleS3 (build C (if \<not> is_https ep then allow_http_for_local_testing b else b)))) of
        Inl e \<Rightarrow> (Inl e, quotas)
      | Inr cfg \<Rightarrow> (case client_new C cfg quotas of (r, quotas') \<Rightarrow> (map_err ExampleS3 r, quotas')))"

section \<open>The programs, once the client is built\<close>

text \<open>A \<open>Vec<u8>\<close> as a writer: it never fails.\<close>

definition vec_writer :: writer_ext where
  "vec_writer = \<lparr>we_write_all = (\<lambda>held chunk. (None, held @ chunk)), we_flush = (\<lambda>_. None)\<rparr>"

definition basic_put :: "object_key \<Rightarrow> upload_source put_object_request" where
  "basic_put key =
     (let put = put_object_request_new key (byte_stream_from_bytes ''hello from s3-wire'') in
      put\<lparr>put_content_type := Some ''text/plain'', put_conditions := (put_conditions put)\<lparr>if_none_match := Some ''*''\<rparr>\<rparr>)"

definition basic_main :: "('d, 'p, 'o) service \<Rightarrow> poll_input list \<Rightarrow> ('d, unit) example_op" where
  "basic_main S inputs =
     st_bind (ex_key (object_key_new ''examples/hello.txt'')) (\<lambda>key.
     st_bind (ex_await (CallPut (basic_put key)) (put_object S (basic_put key))) (\<lambda>_.
     let head = head_object_request_new key in
     st_bind (ex_await (CallHead head) (head_object S head)) (\<lambda>metadata.
     st_bind (ex_log (Printed (''stored '' @ to_string (om_content_length metadata) @ '' bytes''))) (\<lambda>_.
     st_bind (st_of (map_err ExampleRange (byte_range_inclusive 0 4))) (\<lambda>range.
     let get = (get_object_request_new key)\<lparr>get_range := Some range\<rparr> in
     st_bind (ex_await (\<lambda>_. CallGet get) (get_object S get)) (\<lambda>download.
     st_bind (ex_wait (write_to (rx_checksum (sv_request S)) vec_writer inputs (go_body download) [])) (\<lambda>(r, bytes).
     st_bind (ex_try r) (\<lambda>_.
     st_bind (st_of (if valid_utf8 bytes then Inr bytes else Inl ExampleUtf8)) (\<lambda>text.
     st_bind (ex_log (Printed (''range: '' @ text))) (\<lambda>_.
     let list = default_list_objects_request\<lparr>lo_prefix := Some ''examples/''\<rparr> in
     st_bind (ex_await (CallListPage list) (list_objects_v2 S list)) (\<lambda>listing.
     st_bind (ex_log (Printed (''objects under examples/: '' @ to_string (length (loo_objects listing))))) (\<lambda>_.
     let del = delete_object_request_new key in
     st_bind (ex_await (CallDelete del) (delete_object S del)) (\<lambda>_. st_of (Inr ()))))))))))))))"

definition copy_and_delete_main :: "('d, 'p, 'o) service \<Rightarrow> (string \<Rightarrow> string option) \<Rightarrow> ('d, unit) example_op" where
  "copy_and_delete_main S vars =
     st_bind (st_of (ex_required_env vars ''S3_BUCKET'')) (\<lambda>bucket.
     st_bind (ex_key (object_key_new ''examples/copy-source.txt'')) (\<lambda>source.
     st_bind (ex_key (object_key_new ''examples/copy-destination.txt'')) (\<lambda>destination.
     let put = put_object_request_new source (byte_stream_from_bytes ''copy me'') in
     st_bind (ex_await (CallPut put) (put_object S put)) (\<lambda>_.
     let copy = copy_object_request_new \<lparr>cs_bucket = bucket, cs_key = source, cs_version_id = None\<rparr> destination in
     st_bind (ex_await (CallCopy copy) (copy_object S copy)) (\<lambda>_.
     st_bind (st_of (map_err ExampleDelete (delete_objects_request_new
         [delete_object_identifier_new source, delete_object_identifier_new destination]))) (\<lambda>batch.
     st_bind (ex_await (CallDeleteBatch batch) (delete_objects S batch)) (\<lambda>deleted.
     if doo_errors deleted \<noteq> []
     then st_of (Inl (ExampleText (to_string (length (doo_errors deleted)) @ '' objects could not be deleted'')))
     else st_of (Inr ()))))))))"

text \<open>The destination file: whether it can be created, and what writing to it does.\<close>

definition download_file_main ::
  "('d, 'p, 'o) service \<Rightarrow> (string \<Rightarrow> string option) \<Rightarrow> string option \<Rightarrow> writer_ext \<Rightarrow> poll_input list \<Rightarrow> ('d, string) example_op" where
  "download_file_main S vars create_error W inputs =
     st_bind (ex_key (object_key_new (env_or vars ''S3_KEY'' ''archive.tar''))) (\<lambda>key.
     let destination = env_or vars ''S3_DESTINATION'' ''downloaded-archive.tar''; get = get_object_request_new key in
     st_bind (ex_await (\<lambda>_. CallGet get) (get_object S get)) (\<lambda>response.
     st_bind (st_of (case create_error of Some e \<Rightarrow> Inl (ExampleIo e) | None \<Rightarrow> Inr ())) (\<lambda>_.
     st_bind (ex_wait (write_to (rx_checksum (sv_request S)) W inputs (go_body response) [])) (\<lambda>(r, content).
     st_bind (ex_try r) (\<lambda>written.
     st_bind (ex_log (Printed (''wrote '' @ to_string written @ '' bytes to '' @ destination))) (\<lambda>_.
     st_of (Inr content)))))))"

definition multipart_upload_main ::
  "('d, 'p, 'o) service \<Rightarrow> (string \<Rightarrow> string option) \<Rightarrow> 'd upload_world \<Rightarrow> ('d, unit) example_op" where
  "multipart_upload_main S vars U =
     st_bind (st_of (ex_required_env vars ''S3_FILE'')) (\<lambda>path.
     st_bind (ex_key (object_key_new (env_or vars ''S3_KEY'' ''examples/multipart-upload.bin''))) (\<lambda>key.
     st_bind (ex_try (and_then (multipart_options_new (8 * 1024 * 1024) 4) (with_transfer_timeout (uw_representable U) (from_secs (15 * 60))))) (\<lambda>opts.
     let rq = managed_with_options opts (managed_with_content_type ''application/octet-stream'' (managed_from_path key path)) in
     st_bind (st_bind (st_upload Called S U rq) ex_try) (\<lambda>_.
     let del = delete_object_request_new key in
     st_bind (ex_await (CallDelete del) (delete_object S del)) (\<lambda>_. st_of (Inr ()))))))"

text \<open>Each of the two presigning calls asks the provider and reads the clock.\<close>

definition presign_main ::
  "('d, 'p, 'o) service \<Rightarrow> (int \<Rightarrow> duration \<Rightarrow> int option) \<Rightarrow> (s3_error + credentials) \<times> int \<Rightarrow> (s3_error + credentials) \<times> int
     \<Rightarrow> ('d, unit) example_op" where
  "presign_main S add_time env_get env_put =
     st_bind (ex_key (object_key_new ''examples/shared.txt'')) (\<lambda>key.
     let expires = from_secs (5 * 60) in
     st_bind (ex_try (presigned_get (sv_request S) (sv_uri S) add_time (sv_client S) key expires (fst env_get) (snd env_get))) (\<lambda>get.
     st_bind (ex_try (presigned_put (sv_request S) (sv_uri S) add_time (sv_client S) key expires (fst env_put) (snd env_put))) (\<lambda>put.
     st_bind (ex_log (Delivered ''GET'' (expose get))) (\<lambda>_.
     st_bind (ex_log (Delivered ''PUT'' (expose put))) (\<lambda>_. st_of (Inr ()))))))"

definition stream_payload :: string where "stream_payload = ''one-shot streaming upload''"

definition stream_put :: "'d checksum_ext \<Rightarrow> object_key \<Rightarrow> upload_source put_object_request" where
  "stream_put X key =
     put_object_request_new key (byte_stream_from_stream [PollChunk stream_payload] (length stream_payload) (ce_sha256 X stream_payload))"

definition stream_upload_main :: "('d, 'p, 'o) service \<Rightarrow> ('d, unit) example_op" where
  "stream_upload_main S =
     st_bind (ex_key (object_key_new ''examples/one-shot.txt'')) (\<lambda>key.
     let put = stream_put (rx_checksum (sv_request S)) key in
     st_bind (ex_await (CallPut put) (put_object S put)) (\<lambda>_.
     let del = delete_object_request_new key in
     st_bind (ex_await (CallDelete del) (delete_object S del)) (\<lambda>_. st_of (Inr ()))))"

section \<open>What a run does\<close>

lemma ex_try_Inr [simp]: "ex_try r w = (Some (Inr x), calls, w') \<longleftrightarrow> r = Inr x \<and> calls = [] \<and> w' = w"
  by (simp add: ex_try_def map_err_Inr_iff)

lemma ex_key_Inr [simp]: "ex_key r w = (Some (Inr x), calls, w') \<longleftrightarrow> r = Inr x \<and> calls = [] \<and> w' = w"
  by (simp add: ex_key_def map_err_Inr_iff)

lemma ex_log_Inr [simp]: "ex_log ev w = (Some (Inr x), calls, w') \<longleftrightarrow> calls = [ev] \<and> w' = w"
  by (auto simp: ex_log_def)

lemma ex_wait_Inr [simp]: "ex_wait v w = (Some (Inr x), calls, w') \<longleftrightarrow> v = Some x \<and> calls = [] \<and> w' = w"
  by (cases v) (auto simp: ex_wait_def)

lemma ex_await_Inr:
  "ex_await logged m w = (Some (Inr x), calls, w') \<longleftrightarrow> m w = Some (Inr x, w') \<and> calls = [Called (logged (Some (Inr x)))]"
  by (auto simp: ex_await_def st_bind_Inr st_call_Inr)

lemmas example_run = st_bind_Inr ex_await_Inr map_err_Inr_iff Let_def

definition calls_of :: "example_event list \<Rightarrow> client_call list" where
  "calls_of log = concat (map (\<lambda>ev. case ev of Called c \<Rightarrow> [c] | _ \<Rightarrow> []) log)"

lemma calls_of_simps [simp]:
  "calls_of [] = []" "calls_of (Called c # log) = c # calls_of log" "calls_of (Printed t # log) = calls_of log"
  "calls_of (Delivered m u # log) = calls_of log" "calls_of (log @ log') = calls_of log @ calls_of log'"
  by (simp_all add: calls_of_def)

text \<open>Each program that creates objects, run to its successful end.\<close>

lemmas example_requests = basic_put_def stream_put_def put_object_request_new_def delete_object_request_new_def
  copy_object_request_new_def delete_object_identifier_new_def delete_objects_request_new_def managed_with_options_def
  managed_with_content_type_def managed_from_path_def

lemma basic_success: "basic_main S inputs w = (Some (Inr u), log, w') \<Longrightarrow> left_behind (calls_of log) = {}"
  by (auto simp: basic_main_def example_run example_requests left_behind_def split: prod.splits)

lemma copy_success: "copy_and_delete_main S vars w = (Some (Inr u), log, w') \<Longrightarrow> left_behind (calls_of log) = {}"
  by (auto simp: copy_and_delete_main_def example_run example_requests left_behind_def split: if_splits)

lemma multipart_success: "multipart_upload_main S vars U w = (Some (Inr u), log, w') \<Longrightarrow> left_behind (calls_of log) = {}"
  by (auto simp: multipart_upload_main_def example_run example_requests left_behind_def dest!: st_upload_Inr)

lemma stream_success: "stream_upload_main S w = (Some (Inr u), log, w') \<Longrightarrow> left_behind (calls_of log) = {}"
  by (auto simp: stream_upload_main_def example_run example_requests left_behind_def)

lemmas example_success = basic_success copy_success multipart_success stream_success

text \<open>
  Property C30. The examples leave nothing behind: a run of one of the four programs that create objects that ends with success has
  deleted, with the service's confirmation, every object it put, copied to or uploaded.
\<close>

theorem examples_leave_nothing:
  "(case basic_main S inputs w of (r, log, _) \<Rightarrow> case r of Some (Inr _) \<Rightarrow> left_behind (calls_of log) = {} | _ \<Rightarrow> True) \<and>
   (case copy_and_delete_main S vars w of (r, log, _) \<Rightarrow> case r of Some (Inr _) \<Rightarrow> left_behind (calls_of log) = {} | _ \<Rightarrow> True) \<and>
   (case multipart_upload_main S vars U w of (r, log, _) \<Rightarrow> case r of Some (Inr _) \<Rightarrow> left_behind (calls_of log) = {} | _ \<Rightarrow> True) \<and>
   (case stream_upload_main S w of (r, log, _) \<Rightarrow> case r of Some (Inr _) \<Rightarrow> left_behind (calls_of log) = {} | _ \<Rightarrow> True)"
  by (auto split: prod.split option.split sum.split dest: example_success)

text \<open>
  The client that the examples take from the environment has a valid configuration for the named bucket, with path addressing and a
  transport that accepts plain HTTP only if the endpoint named in the environment is a plain one.
\<close>

lemma client_from_env_ok:
  assumes "client_from_env C aws version provider vars quotas = (Inr cl, quotas')"
  shows "config_ok C (cl_config cl) \<and> transport_ok (cl_config cl) (cl_transport cl) \<and>
    vars ''S3_BUCKET'' = Some (cfg_bucket (cl_config cl)) \<and> cfg_addressing_style (cl_config cl) = Path"
proof -
  from assms obtain ep bucket b cfg where b: "vars ''S3_BUCKET'' = Some bucket" "build C b = Inr cfg"
    "b_bucket b = Some bucket" "b_addressing_style b = Path" "client_new C cfg quotas = (Inr cl, quotas')"
    by (auto simp: client_from_env_def ex_required_env_def builder_setter_defs map_err_Inr_iff Let_def ok_or_def and_then_def
        split: sum.splits option.splits prod.splits if_splits)
  then have "cfg_bucket cfg = bucket \<and> cfg_addressing_style cfg = Path" by (auto simp: build_def split: if_splits)
  with b client_new_Inr[OF b(5)] build_config_ok(1)[OF b(2)] show ?thesis by simp
qed

text \<open>
  The basic example never deletes an object that it did not create: the first call is the conditional creation, and
  without its success no other call is made; every call names the example's own key.
\<close>

definition names_only :: "object_key \<Rightarrow> example_event \<Rightarrow> bool" where
  "names_only key ev = (case ev of Called c \<Rightarrow> set (call_keys c) \<subseteq> {key} | _ \<Rightarrow> True)"

lemma ex_within:
  "st_within (ex_try r) P" "st_within (ex_wait x) P" "P ev \<Longrightarrow> st_within (ex_log ev) P"
  "(\<And>x. P (Called (logged x))) \<Longrightarrow> st_within (ex_await logged m) P"
  by (auto simp: ex_try_def ex_wait_def ex_log_def ex_await_def st_within_def st_of_def intro!: st_within_bind[unfolded st_within_def, rule_format]
      st_within_call[unfolded st_within_def, rule_format])

lemma ex_await_first:
  assumes "st_bind (ex_await logged m) k w = (r, log, w')"
  obtains x where "log = [Called (logged x)]"
  | x w1 rest where "log = Called (logged (Some (Inr x))) # rest" and "k x w1 = (r, rest, w')"
  using assms by (fastforce simp: ex_await_def st_bind_def st_call_def ex_try_def st_of_def split: option.splits sum.splits prod.splits)

lemma example_key: "object_key_new ''examples/hello.txt'' = Inr (ObjectKey ''examples/hello.txt'')"
  by (simp add: object_key_new_def MAX_OBJECT_KEY_BYTES_def)

lemma basic_deletes_only_its_object:
  assumes "basic_main S inputs w = (r, log, w')"
  shows "\<exists>res rest. log = Called (CallPut (basic_put (ObjectKey ''examples/hello.txt'')) res) # rest \<and> (rest = [] \<or> (\<exists>out. res = Some (Inr out))) \<and>
    list_all (names_only (ObjectKey ''examples/hello.txt'')) log"
proof -
  let ?key = "ObjectKey ''examples/hello.txt''"
  have "st_within (basic_main S inputs) (names_only ?key)"
    unfolding basic_main_def Let_def ex_key_def example_key
    by (rule st_within_result)
      (auto intro!: st_within_bind ex_within st_within_of
        simp: names_only_def example_requests head_object_request_new_def get_object_request_new_def)
  then have "list_all (names_only ?key) log" using assms unfolding st_within_def by (metis fst_conv snd_conv)
  moreover obtain k where "st_bind (ex_await (CallPut (basic_put ?key)) (put_object S (basic_put ?key))) k w = (r, log, w')"
    using assms unfolding basic_main_def ex_key_def example_key by (simp add: st_bind_Inr_of)
  ultimately show ?thesis by (auto elim!: ex_await_first)
qed

end
