(* ===== verification/Perf_Tool.thy ===== *)
theory Perf_Tool
  imports Multipart_Upload Response
begin

text \<open>
  The measuring tool \<open>tools/perf/src/main.rs\<close>: its options from the environment, the sampler of the resident set size that
  runs in a thread beside the measured phases, what it reads of the host, the generated file and the memory bound it checks.
\<close>

section \<open>Options\<close>

definition DEFAULT_PAYLOAD_MIB :: nat where "DEFAULT_PAYLOAD_MIB = 64"
definition DEFAULT_LARGE_FILE_MIB :: nat where "DEFAULT_LARGE_FILE_MIB = 256"
definition DEFAULT_PART_MIB :: nat where "DEFAULT_PART_MIB = 8"
definition DEFAULT_CONCURRENCY :: nat where "DEFAULT_CONCURRENCY = 4"
definition MIB :: nat where "MIB = 1024 * 1024"
definition FILE_GENERATION_BUFFER_BYTES :: nat where "FILE_GENERATION_BUFFER_BYTES = 64 * 1024"

record perf_options =
  po_payload_bytes :: nat
  po_large_file_bytes :: nat
  po_part_bytes :: nat
  po_concurrency :: nat
  po_json_path :: string
  po_markdown_path :: string

text \<open>What \<open>std::env::var\<close> gives: text, or one of its two errors, the second with its message.\<close>

datatype env_var = EnvText string | NotPresent | NotUnicode string

definition perf_required_env :: "(string \<Rightarrow> env_var) \<Rightarrow> string \<Rightarrow> string + string" where
  "perf_required_env vars name = (case vars name of
     EnvText v \<Rightarrow> Inr v | _ \<Rightarrow> Inl (''required environment variable '' @ name @ '' is not set''))"

definition env_u64 :: "(string \<Rightarrow> env_var) \<Rightarrow> string \<Rightarrow> nat \<Rightarrow> string + nat" where
  "env_u64 vars name fallback = (case vars name of
     EnvText v \<Rightarrow> ok_or (name @ '' must be an unsigned integer'') (parse_u64 v)
   | NotPresent \<Rightarrow> Inr fallback
   | NotUnicode e \<Rightarrow> Inl e)"

definition env_usize :: "(string \<Rightarrow> env_var) \<Rightarrow> string \<Rightarrow> nat \<Rightarrow> string + nat" where
  "env_usize vars name fallback = (case vars name of
     EnvText v \<Rightarrow> ok_or (name @ '' must be an unsigned integer'') (parse_u64 v)
   | NotPresent \<Rightarrow> Inr fallback
   | NotUnicode e \<Rightarrow> Inl e)"

definition parse_options :: "(string \<Rightarrow> env_var) \<Rightarrow> (string \<Rightarrow> string option) \<Rightarrow> string + perf_options" where
  "parse_options vars vars_os =
     and_then (env_u64 vars ''S3_PERF_PAYLOAD_MIB'' DEFAULT_PAYLOAD_MIB) (\<lambda>payload_mib.
     and_then (env_u64 vars ''S3_PERF_LARGE_FILE_MIB'' DEFAULT_LARGE_FILE_MIB) (\<lambda>large_file_mib.
     and_then (env_u64 vars ''S3_PERF_PART_MIB'' DEFAULT_PART_MIB) (\<lambda>part_mib.
     and_then (env_usize vars ''S3_PERF_MULTIPART_CONCURRENCY'' DEFAULT_CONCURRENCY) (\<lambda>concurrency.
     reject_if (\<not> (1 \<le> payload_mib \<and> payload_mib \<le> 4096)) ''S3_PERF_PAYLOAD_MIB must be between 1 and 4096''
     (reject_if (\<not> (5 \<le> large_file_mib \<and> large_file_mib \<le> 8192)) ''S3_PERF_LARGE_FILE_MIB must be between 5 and 8192''
     (reject_if (\<not> (5 \<le> part_mib \<and> part_mib \<le> 5120)) ''S3_PERF_PART_MIB must be between 5 and 5120''
     (reject_if (concurrency = 0 \<or> 64 < concurrency) ''S3_PERF_MULTIPART_CONCURRENCY must be between 1 and 64''
     (and_then (ok_or ''payload size overflow'' (checked_mul_u64 payload_mib MIB)) (\<lambda>payload_bytes.
     and_then (ok_or ''large file size overflow'' (checked_mul_u64 large_file_mib MIB)) (\<lambda>large_file_bytes.
     and_then (ok_or ''part size overflow'' (checked_mul_u64 part_mib MIB)) (\<lambda>part_bytes.
     reject_if (payload_bytes < part_bytes) ''the payload must be at least one multipart part''
     (reject_if (large_file_bytes < part_bytes) ''the large file must be at least one multipart part''
     (Inr \<lparr>po_payload_bytes = payload_bytes, po_large_file_bytes = large_file_bytes, po_part_bytes = part_bytes,
           po_concurrency = concurrency,
           po_json_path = (case vars_os ''S3_PERF_JSON'' of Some p \<Rightarrow> p | None \<Rightarrow> ''measurements/results/minio-local.json''),
           po_markdown_path = (case vars_os ''S3_PERF_MARKDOWN'' of Some p \<Rightarrow> p | None \<Rightarrow> ''measurements/results/minio-local.md'')\<rparr>)))))))))))))"

text \<open>The memory bound of the disk-backed phase. The first product is a plain multiplication, whose overflow would panic.\<close>

definition in_flight_budget :: "perf_options \<Rightarrow> nat option" where
  "in_flight_budget opts = checked_mul_u64 (po_part_bytes opts) (po_concurrency opts)"

definition rss_limit :: "nat \<Rightarrow> string + nat" where
  "rss_limit budget = ok_or ''disk-backed RSS limit overflow'' (checked_mul_u64 budget 4)"

definition bound_passed :: "nat option \<Rightarrow> nat \<Rightarrow> bool" where
  "bound_passed observed limit = (case observed of Some n \<Rightarrow> n \<le> limit | None \<Rightarrow> False)"

section \<open>The sampler\<close>

text \<open>
  The two shared counters. The sampling thread and the measuring thread change them by single atomic operations, which may
  interleave in any way.
\<close>

record rss_sampler =
  rs_phase_peak :: nat
  rs_process_peak :: nat

datatype atomic_op = PhaseStore nat | PhaseMax nat | ProcessMax nat

fun atomic_step :: "atomic_op \<Rightarrow> rss_sampler \<Rightarrow> rss_sampler" where
  "atomic_step (PhaseStore n) s = s\<lparr>rs_phase_peak := n\<rparr>"
| "atomic_step (PhaseMax n) s = s\<lparr>rs_phase_peak := max (rs_phase_peak s) n\<rparr>"
| "atomic_step (ProcessMax n) s = s\<lparr>rs_process_peak := max (rs_process_peak s) n\<rparr>"

record rss_reading =
  rr_before :: "nat option"
  rr_peak :: "nat option"

definition delta :: "rss_reading \<Rightarrow> nat option" where
  "delta r = (case (rr_peak r, rr_before r) of (Some p, Some b) \<Rightarrow> Some (p - b) | _ \<Rightarrow> None)"

definition unwrap_or_0 :: "nat option \<Rightarrow> nat" where
  "unwrap_or_0 x = (case x of Some n \<Rightarrow> n | None \<Rightarrow> 0)"

definition start :: "nat option \<Rightarrow> nat option \<Rightarrow> rss_sampler" where
  "start rss1 rss2 = \<lparr>rs_phase_peak = unwrap_or_0 rss1, rs_process_peak = unwrap_or_0 rss2\<rparr>"

text \<open>One round of the sampling thread, and the two ends of a phase, as the operations they perform.\<close>

definition worker_ops :: "nat option \<Rightarrow> atomic_op list" where
  "worker_ops rss = (case rss of Some n \<Rightarrow> [PhaseMax n, ProcessMax n] | None \<Rightarrow> [])"

definition begin_phase_ops :: "nat option \<Rightarrow> atomic_op list" where
  "begin_phase_ops rss = [PhaseStore (unwrap_or_0 rss)]"

definition finish_phase_ops :: "nat option \<Rightarrow> atomic_op list" where
  "finish_phase_ops rss = (case rss of Some n \<Rightarrow> [PhaseMax n, ProcessMax n] | None \<Rightarrow> [])"

definition nonzero :: "nat \<Rightarrow> nat option" where
  "nonzero n = (if n \<noteq> 0 then Some n else None)"

definition finish_phase :: "nat option \<Rightarrow> rss_sampler \<Rightarrow> rss_reading" where
  "finish_phase before s = \<lparr>rr_before = before, rr_peak = nonzero (rs_phase_peak s)\<rparr>"

definition sampled_process_peak :: "nat option \<Rightarrow> rss_sampler \<Rightarrow> nat option" where
  "sampled_process_peak rss s =
     nonzero (rs_process_peak (case rss of Some n \<Rightarrow> atomic_step (ProcessMax n) s | None \<Rightarrow> s))"

section \<open>What is read of the host\<close>

text \<open>\<open>str::lines\<close>: split at line feeds, a last empty line dropped, a carriage return before the line feed removed.\<close>

fun split_lf :: "string \<Rightarrow> string \<Rightarrow> string list" where
  "split_lf l [] = (if l = [] then [] else [l])"
| "split_lf l (c # cs) = (if c = CHR 0x0A then
     (if l \<noteq> [] \<and> last l = CHR 0x0D then butlast l else l) # split_lf [] cs else split_lf (l @ [c]) cs)"

definition str_lines :: "string \<Rightarrow> string list" where
  "str_lines s = split_lf [] s"

fun find_map :: "('a \<Rightarrow> 'b option) \<Rightarrow> 'a list \<Rightarrow> 'b option" where
  "find_map f [] = None"
| "find_map f (x # xs) = (case f x of Some y \<Rightarrow> Some y | None \<Rightarrow> find_map f xs)"

definition first_word :: "string \<Rightarrow> string option" where
  "first_word s = (case split_whitespace [] s of [] \<Rightarrow> None | w # _ \<Rightarrow> Some w)"

text \<open>\<open>str::trim\<close>; the white space characters are matched by their UTF-8 encodings, which never start inside a character.\<close>

function trim_start :: "string \<Rightarrow> string" where
  "trim_start s =
     (if s = [] then []
      else if blank_str (take 1 s) then trim_start (drop 1 s)
      else if blank_str (take 2 s) then trim_start (drop 2 s)
      else if blank_str (take 3 s) then trim_start (drop 3 s)
      else s)"
  by pat_completeness auto
termination by (relation "measure length") auto

declare trim_start.simps [simp del]

fun trim_end :: "string \<Rightarrow> string" where
  "trim_end [] = []"
| "trim_end (c # cs) = (if blank_str (c # cs) then [] else c # trim_end cs)"

definition trim :: "string \<Rightarrow> string" where
  "trim s = trim_end (trim_start s)"

text \<open>
  The host: files by their text, commands by their success and decoded output, environment variables and the constants of
  the build.
\<close>

record host =
  ho_file :: "string \<Rightarrow> string option"
  ho_command :: "string \<Rightarrow> string list \<Rightarrow> (bool \<times> string) option"
  ho_vars :: "string \<Rightarrow> env_var"
  ho_arch :: string
  ho_os :: string
  ho_parallelism :: "nat option"

definition proc_status_kib :: "host \<Rightarrow> string \<Rightarrow> nat option" where
  "proc_status_kib H field =
     Option.bind (ho_file H ''/proc/self/status'') (\<lambda>status. find_map (\<lambda>line.
       Option.bind (strip_prefix line field) (\<lambda>rest. Option.bind (first_word rest) parse_u64)) (str_lines status))"

definition current_rss_bytes :: "host \<Rightarrow> nat option" where
  "current_rss_bytes H = Option.bind (proc_status_kib H ''VmRSS:'') (\<lambda>kib. checked_mul_u64 kib 1024)"

definition total_memory_bytes :: "host \<Rightarrow> nat option" where
  "total_memory_bytes H =
     Option.bind (ho_file H ''/proc/meminfo'') (\<lambda>memory. find_map (\<lambda>line.
       Option.bind (strip_prefix line ''MemTotal:'') (\<lambda>rest. Option.bind (first_word rest) (\<lambda>w.
       Option.bind (parse_u64 w) (\<lambda>kib. checked_mul_u64 kib 1024)))) (str_lines memory))"

definition cpu_model :: "host \<Rightarrow> string" where
  "cpu_model H = (case Option.bind (ho_file H ''/proc/cpuinfo'') (\<lambda>cpuinfo. find_map (\<lambda>line.
       Option.bind (strip_prefix line ''model name'') (\<lambda>rest. map_option (\<lambda>(_, v). trim v) (split_once (CHR '':'') rest)))
       (str_lines cpuinfo)) of Some m \<Rightarrow> m | None \<Rightarrow> ''unknown'')"

definition command_output :: "host \<Rightarrow> string \<Rightarrow> string list \<Rightarrow> string" where
  "command_output H command arguments = (case ho_command H command arguments of
     None \<Rightarrow> ''unknown''
   | Some (success, stdout) \<Rightarrow>
       if success then (let text = trim stdout in if text \<noteq> [] then text else ''unknown'') else ''unknown'')"

definition var_or_unknown :: "host \<Rightarrow> string \<Rightarrow> string" where
  "var_or_unknown H name = (case ho_vars H name of EnvText v \<Rightarrow> v | _ \<Rightarrow> ''unknown'')"

record environment =
  en_git_revision :: string
  en_git_worktree_dirty :: bool
  en_rustc :: string
  en_cargo :: string
  en_target_arch :: string
  en_target_os :: string
  en_kernel :: string
  en_cpu_model :: string
  en_logical_cpus :: nat
  en_total_memory_bytes :: "nat option"
  en_docker_server :: string
  en_minio_release :: string
  en_minio_image :: string
  en_endpoint :: string
  en_build_profile :: string

definition collect_environment :: "host \<Rightarrow> string \<Rightarrow> environment" where
  "collect_environment H endpoint = \<lparr>
     en_git_revision = command_output H ''git'' [''rev-parse'', ''HEAD''],
     en_git_worktree_dirty = (command_output H ''git'' [''status'', ''--porcelain''] \<noteq> []),
     en_rustc = command_output H ''rustc'' [''--version''],
     en_cargo = command_output H ''cargo'' [''--version''],
     en_target_arch = ho_arch H, en_target_os = ho_os H,
     en_kernel = command_output H ''uname'' [''-srvmo''],
     en_cpu_model = cpu_model H,
     en_logical_cpus = (case ho_parallelism H of Some n \<Rightarrow> n | None \<Rightarrow> 1),
     en_total_memory_bytes = total_memory_bytes H,
     en_docker_server = command_output H ''docker'' [''version'', ''--format'', ''{{.Server.Version}}''],
     en_minio_release = var_or_unknown H ''MINIO_RELEASE'',
     en_minio_image = var_or_unknown H ''MINIO_IMAGE'',
     en_endpoint = endpoint,
     en_build_profile = var_or_unknown H ''S3_PERF_BUILD_PROFILE''\<rparr>"

section \<open>The generated file\<close>

function generate_loop :: "(string \<Rightarrow> string option) \<Rightarrow> nat \<Rightarrow> string \<Rightarrow> string + string" where
  "generate_loop write_all remaining file =
     (if remaining = 0 then Inr file
      else let piece = replicate (min remaining FILE_GENERATION_BUFFER_BYTES) (CHR 0x3C) in
        case write_all piece of
          Some e \<Rightarrow> Inl e
        | None \<Rightarrow> generate_loop write_all (remaining - length piece) (file @ piece))"
  by pat_completeness auto
termination by (relation "measure (\<lambda>(_, remaining, _). remaining)") (auto simp: FILE_GENERATION_BUFFER_BYTES_def)

declare generate_loop.simps [simp del]

definition generate_deterministic_file ::
  "string option \<Rightarrow> (string \<Rightarrow> string option) \<Rightarrow> string option \<Rightarrow> nat \<Rightarrow> string + string" where
  "generate_deterministic_file create write_all flush bytes = (case create of
     Some e \<Rightarrow> Inl e
   | None \<Rightarrow> and_then (generate_loop write_all bytes []) (\<lambda>file. case flush of Some e \<Rightarrow> Inl e | None \<Rightarrow> Inr file))"

section \<open>Accepted options can be run\<close>

lemma parse_options_bounds:
  assumes "parse_options vars vars_os = Inr opts"
  shows "po_part_bytes opts \<le> po_payload_bytes opts" "po_part_bytes opts \<le> po_large_file_bytes opts"
    "MIN_PART_SIZE \<le> po_part_bytes opts" "po_part_bytes opts \<le> MAX_PART_SIZE"
    "po_payload_bytes opts \<le> 4096 * MIB" "po_large_file_bytes opts \<le> 8192 * MIB"
    "1 \<le> po_concurrency opts" "po_concurrency opts \<le> 64"
  using assms
  by (auto simp: parse_options_def checked_mul_u64_def MIB_def MIN_PART_SIZE_def MAX_PART_SIZE_def split: if_splits)

lemma part_count_within:
  assumes "source_length src = Inr len" and "MIN_PART_SIZE \<le> psize" and "psize \<le> len" and "len \<le> 8192 * MIB"
  shows "\<exists>n. part_count src psize = Inr n \<and> 1 \<le> unat n \<and> unat n \<le> 10000 \<and> unat n = div_ceil len psize"
proof -
  have p: "5242880 \<le> psize" using assms(2) by (simp add: MIN_PART_SIZE_def)
  have le: "div_ceil len psize \<le> 1640"
  proof -
    have "len \<le> 1639 * psize" using p assms(4) by (simp add: MIB_def)
    then have "len div psize \<le> (1639 * psize) div psize" by (rule div_le_mono)
    then have "len div psize \<le> 1639" using p by simp
    then show ?thesis by (simp add: div_ceil_def)
  qed
  moreover have "1 \<le> div_ceil len psize" using p assms(3) by (simp add: div_ceil_def Suc_le_eq div_greater_zero_iff)
  moreover have "unat (of_nat (div_ceil len psize) :: u16) = div_ceil len psize" using le by (simp add: unat_of_nat)
  ultimately show ?thesis using assms p by (auto simp: part_count_def PART_MAX_def Let_def)
qed

text \<open>
  Options the tool accepts can be measured: the multipart configuration accepts them, both the payload and the file are
  divided into between one and ten thousand parts, and neither the memory budget nor its limit overflows, so the unchecked product
  does not panic.
\<close>

lemma accepted_options_usable:
  assumes "parse_options vars vars_os = Inr opts"
    and "source_length src = Inr len" and "len \<in> {po_payload_bytes opts, po_large_file_bytes opts}"
  shows "(\<exists>mo. multipart_options_new (po_part_bytes opts) (po_concurrency opts) = Inr mo) \<and>
    (\<exists>n. part_count src (po_part_bytes opts) = Inr n \<and> 1 \<le> unat n \<and> unat n \<le> 10000) \<and>
    (\<exists>budget limit. in_flight_budget opts = Some budget \<and> rss_limit budget = Inr limit \<and>
       limit = 4 * po_part_bytes opts * po_concurrency opts)"
proof -
  note b = parse_options_bounds[OF assms(1)]
  have m: "po_part_bytes opts * po_concurrency opts \<le> 5368709120 * 64"
    using b by (intro mult_le_mono) (simp_all add: MAX_PART_SIZE_def)
  have "po_payload_bytes opts \<le> 8192 * MIB" using b(5) by (simp add: MIB_def)
  then have "\<exists>n. part_count src (po_part_bytes opts) = Inr n \<and> 1 \<le> unat n \<and> unat n \<le> 10000"
    using part_count_within[OF assms(2) b(3)] b(1,2,6) assms(3) by auto
  moreover have "\<exists>mo. multipart_options_new (po_part_bytes opts) (po_concurrency opts) = Inr mo"
    using b m by (simp add: multipart_options_new_def checked_mul_u64_def MAX_CONCURRENCY_def)
  ultimately show ?thesis using m by (simp add: in_flight_budget_def rss_limit_def checked_mul_u64_def)
qed

section \<open>The sampler under interleaving\<close>

text \<open>The readings that reach the two counters.\<close>

definition phase_samples :: "atomic_op list \<Rightarrow> nat list" where
  "phase_samples ops = concat (map (\<lambda>x. case x of PhaseMax n \<Rightarrow> [n] | _ \<Rightarrow> []) ops)"

definition process_samples :: "atomic_op list \<Rightarrow> nat list" where
  "process_samples ops = concat (map (\<lambda>x. case x of ProcessMax n \<Rightarrow> [n] | _ \<Rightarrow> []) ops)"

definition is_store :: "atomic_op \<Rightarrow> bool" where
  "is_store x = (case x of PhaseStore _ \<Rightarrow> True | _ \<Rightarrow> False)"

lemma samples_simps [simp]:
  "phase_samples [] = []" "phase_samples (PhaseMax n # ops) = n # phase_samples ops"
  "phase_samples (ProcessMax n # ops) = phase_samples ops" "phase_samples (PhaseStore n # ops) = phase_samples ops"
  "process_samples [] = []" "process_samples (PhaseMax n # ops) = process_samples ops"
  "process_samples (ProcessMax n # ops) = n # process_samples ops" "process_samples (PhaseStore n # ops) = process_samples ops"
  by (simp_all add: phase_samples_def process_samples_def)

lemma phase_peak_run:
  "\<not> list_ex is_store ops \<Longrightarrow> rs_phase_peak (fold atomic_step ops s) = fold max (phase_samples ops) (rs_phase_peak s)"
  by (induction ops arbitrary: s) (auto simp: is_store_def max.commute split: atomic_op.splits)

lemma process_peak_run:
  "rs_process_peak (fold atomic_step ops s) = fold max (process_samples ops) (rs_process_peak s)"
proof (induction ops arbitrary: s)
  case (Cons x ops)
  then show ?case by (cases x) (simp_all add: max.commute)
qed simp

lemma fold_max_Max: "fold max xs (a :: nat) = Max (insert a (set xs))"
  using Max.set_eq_fold[of a xs] by simp

text \<open>
  Whatever the sampling thread does between the two ends of a phase, and however its operations fall between
  those of the measuring thread, the peak of the phase is the largest of the reading at its start and the readings taken during it,
  so it is never below the first one and the subtraction for the delta does not saturate.
\<close>

lemma phase_peak_is_maximum:
  assumes "\<not> list_ex is_store ops"
  shows "rr_peak (finish_phase (Some before) (fold atomic_step (begin_phase_ops (Some before) @ ops) s)) =
      nonzero (Max (insert before (set (phase_samples ops)))) \<and>
    (case delta (finish_phase (Some before) (fold atomic_step (begin_phase_ops (Some before) @ ops) s)) of
       Some d \<Rightarrow> before + d = Max (insert before (set (phase_samples ops))) | None \<Rightarrow> before = 0 \<and> set (phase_samples ops) \<subseteq> {0})"
proof -
  obtain m where m: "m = Max (insert before (set (phase_samples ops)))" by simp
  then have "before \<le> m" "\<forall>n \<in> set (phase_samples ops). n \<le> m" by simp_all
  then show ?thesis using assms
    by (auto simp: finish_phase_def begin_phase_ops_def unwrap_or_0_def phase_peak_run fold_max_Max nonzero_def delta_def
        simp flip: m split: option.splits if_splits)
qed

text \<open>
  The rounds of the sampling thread and the end of the phase, in any interleaving, are such operations, and their readings
  are the samples.
\<close>

lemma thread_ops_samples:
  assumes "ops \<in> shuffles (concat (map worker_ops samples)) (finish_phase_ops rss)"
  shows "\<not> list_ex is_store ops \<and> set (phase_samples ops) = {n. Some n \<in> insert rss (set samples)}"
proof -
  have ops: "set ops = \<Union> (set ` worker_ops ` set samples) \<union> set (finish_phase_ops rss)"
    using set_shuffles[OF assms] by simp
  have "set (phase_samples ops) = {n. PhaseMax n \<in> set ops}"
    by (induction ops) (auto simp: phase_samples_def split: atomic_op.splits)
  then show ?thesis unfolding list_ex_iff ops
    by (auto simp: worker_ops_def finish_phase_ops_def is_store_def split: option.splits)
qed

text \<open>The peak of the process is the largest reading that reached its counter.\<close>

lemma process_peak_is_maximum:
  "sampled_process_peak (Some n) (fold atomic_step ops (start a b)) = nonzero (Max (insert n (insert (unwrap_or_0 b) (set (process_samples ops)))))"
  using Max_insert[of "insert (unwrap_or_0 b) (set (process_samples ops))" n]
  by (simp add: sampled_process_peak_def process_peak_run fold_max_Max start_def max.commute)

text \<open>
  The peak of the whole process covers what the sampling thread and the ends of the phases read, but not the reading at the
  start of a phase, which reaches the counter of the phase only. It can therefore be below the peak of a phase.
\<close>

lemma process_peak_misses_phase_start:
  "\<exists>s. s = fold atomic_step (begin_phase_ops (Some 100) @ finish_phase_ops (Some 20)) (start (Some 10) (Some 10)) \<and>
     rr_peak (finish_phase (Some 100) s) = Some 100 \<and> sampled_process_peak (Some 20) s = Some 20"
  by (simp add: begin_phase_ops_def finish_phase_ops_def start_def finish_phase_def sampled_process_peak_def unwrap_or_0_def nonzero_def)

section \<open>The reported environment\<close>

text \<open>
  A defect of the measuring tool: \<open>command_output\<close> answers \<open>unknown\<close> for a command that succeeds and prints
  nothing, so the working tree is reported as changed also when \<open>git status --porcelain\<close> reports a clean one.
\<close>

lemma worktree_always_dirty: "en_git_worktree_dirty (collect_environment H endpoint)"
  by (simp add: collect_environment_def command_output_def Let_def split: option.splits)

section \<open>The generated file has its size\<close>

lemma generate_loop_content:
  "case generate_loop write_all remaining out of
     Inr got \<Rightarrow> got = out @ replicate remaining (CHR 0x3C) | Inl e \<Rightarrow> (\<exists>p. write_all p = Some e)"
proof (induction remaining arbitrary: out rule: less_induct)
  case (less remaining)
  show ?case
  proof (cases "remaining = 0")
    case False
    let ?n = "min remaining FILE_GENERATION_BUFFER_BYTES"
    have "replicate remaining (CHR 0x3C) = replicate ?n (CHR 0x3C) @ replicate (remaining - ?n) (CHR 0x3C)"
      by (simp add: replicate_add[symmetric])
    moreover have "remaining - ?n < remaining" using False by (simp add: FILE_GENERATION_BUFFER_BYTES_def)
    ultimately show ?thesis using less.IH[of "remaining - ?n" "out @ replicate ?n (CHR 0x3C)"] False
      by (auto simp: generate_loop.simps[of _ remaining] Let_def split: option.splits sum.splits)
  qed (simp add: generate_loop.simps)
qed

text \<open>
  The generated file has exactly the requested size and pattern, or the error is one that creating, writing or flushing it reported;
  when none of these fails there is a file.
\<close>

lemma generated_file:
  "case generate_deterministic_file create write_all flush bytes of
     Inr got \<Rightarrow> got = replicate bytes (CHR 0x3C)
   | Inl e \<Rightarrow> create = Some e \<or> flush = Some e \<or> (\<exists>p. write_all p = Some e)"
  using generate_loop_content[where write_all = write_all and remaining = bytes and out = "[]"]
  by (auto simp: generate_deterministic_file_def and_then_def split: option.splits sum.splits)

end
