(* ===== verification/Perf_Run.thy ===== *)
theory Perf_Run
  imports Perf_Tool Client_Program Credential_Providers
begin

text \<open>
  The run of the measuring tool, \<open>tools/perf/src/main.rs\<close>: the client it configures, the transfers it times, the checks between them and
  the report. IEEE floating-point arithmetic and its rendering are a parameter, as are the JSON writer, the clock, the file
  system and the sampling thread, whose operations fall between those of the measuring thread as the inputs of a phase say.
\<close>

section \<open>Timings\<close>

record 'f float_ops =
  fo_secs :: "duration \<Rightarrow> 'f"
  fo_of_u64 :: "nat \<Rightarrow> 'f"
  fo_div :: "'f \<Rightarrow> 'f \<Rightarrow> 'f"
  fo_mul :: "'f \<Rightarrow> 'f \<Rightarrow> 'f"
  fo_show :: "nat \<Rightarrow> 'f \<Rightarrow> string"

record 'f timing =
  tm_elapsed_seconds :: 'f
  tm_bytes :: "nat option"
  tm_throughput_mib_per_second :: "'f option"
  tm_rss_before_bytes :: "nat option"
  tm_peak_rss_bytes :: "nat option"
  tm_peak_rss_delta_bytes :: "nat option"
  tm_peak_rss_delta_to_object_size :: "'f option"

definition timing_operation :: "'f float_ops \<Rightarrow> duration \<Rightarrow> rss_reading \<Rightarrow> 'f timing" where
  "timing_operation F elapsed rss = \<lparr>tm_elapsed_seconds = fo_secs F elapsed, tm_bytes = None, tm_throughput_mib_per_second = None,
     tm_rss_before_bytes = rr_before rss, tm_peak_rss_bytes = rr_peak rss, tm_peak_rss_delta_bytes = delta rss,
     tm_peak_rss_delta_to_object_size = None\<rparr>"

definition timing_transfer :: "'f float_ops \<Rightarrow> duration \<Rightarrow> nat \<Rightarrow> rss_reading \<Rightarrow> 'f timing" where
  "timing_transfer F elapsed bytes rss =
     (let seconds = fo_secs F elapsed in
      \<lparr>tm_elapsed_seconds = seconds, tm_bytes = Some bytes,
       tm_throughput_mib_per_second = Some (fo_div F (fo_div F (fo_of_u64 F bytes) (fo_of_u64 F MIB)) seconds),
       tm_rss_before_bytes = rr_before rss, tm_peak_rss_bytes = rr_peak rss, tm_peak_rss_delta_bytes = delta rss,
       tm_peak_rss_delta_to_object_size = map_option (\<lambda>d. fo_div F (fo_of_u64 F d) (fo_of_u64 F bytes)) (delta rss)\<rparr>)"

section \<open>The report\<close>

record bound_check =
  bc_observed_peak_rss_delta_bytes :: "nat option"
  bc_limit_bytes :: nat
  bc_passed :: bool
  bc_rationale :: string

record workload =
  wl_payload_bytes :: nat
  wl_payload_pattern :: string
  wl_multipart_part_bytes :: nat
  wl_multipart_concurrency :: nat
  wl_multipart_in_flight_budget_bytes :: nat
  wl_disk_backed_peak_rss_limit_bytes :: nat
  wl_large_file_bytes :: nat
  wl_file_generation_buffer_bytes :: nat
  wl_measured_iterations_per_transfer :: nat
  wl_warmup :: string

record 'f measurements =
  ms_cold_client_construction :: "'f timing"
  ms_disk_backed_managed_multipart_upload :: "'f timing"
  ms_disk_backed_rss_bound :: bound_check
  ms_single_put :: "'f timing"
  ms_streaming_get_to_sink :: "'f timing"
  ms_managed_multipart_upload :: "'f timing"
  ms_sampled_process_peak_rss_bytes :: "nat option"

record 'f report =
  rp_schema_version :: nat
  rp_generated_at_utc :: string
  rp_generated_at_unix_seconds :: nat
  rp_environment :: environment
  rp_workload :: workload
  rp_measurements :: "'f measurements"
  rp_caveats :: "string list"

definition CAVEATS :: "string list" where
  "CAVEATS = [
      ''This is a local single-process MinIO measurement, not a comparative benchmark.'',
      ''Each transfer is measured once; scheduler, filesystem, loopback, CPU scaling, and container state affect results.'',
      ''Transfer timing includes client hashing, signing, serialization, and response handling; server startup and the warm-up request are excluded.'',
      ''GET is consumed incrementally without retaining the body and verifies byte count, but does not persist or hash the downloaded bytes.'',
      ''RSS is sampled from Linux /proc every 1 ms and is process-wide; allocator retention and prior phases make per-phase peaks non-isolated.'',
      ''The disk-backed phase generates its configured source with one reusable 64 KiB buffer, then includes the client's disk snapshot and bounded multipart upload in its timing.'',
      ''The opt-in regression check permits four times the derived multipart in-flight byte bound for part buffers, transport copies, runtime state, and allocator behavior; it is an engineering envelope, not a precise allocation model.'',
      ''A peak-RSS delta at one object size demonstrates this run's bounded behavior but is not a proof of asymptotic memory usage; Linux page cache is outside process RSS.'',
      ''The aggregate process peak uses the same RSS sampler as phase peaks; kernel VmHWM is intentionally omitted because its accounting can lag sampled VmRSS.'',
      ''Cold client construction means the first S3Client::new call in this process; configuration construction is excluded.'',
      ''The fixed repeated-byte payload is deterministic but does not model every production workload.'']"

definition format_mib :: "'f float_ops \<Rightarrow> nat \<Rightarrow> string" where
  "format_mib F bytes = fo_show F 2 (fo_div F (fo_of_u64 F bytes) (fo_of_u64 F MIB)) @ '' MiB''"

text \<open>The em dash and the multiplication sign in UTF-8.\<close>

definition em_dash :: string where "em_dash = [CHR 0xE2, CHR 0x80, CHR 0x94]"
definition times_sign :: string where "times_sign = [CHR 0xC3, CHR 0x97]"

definition map_or :: "string \<Rightarrow> ('a \<Rightarrow> string) \<Rightarrow> 'a option \<Rightarrow> string" where
  "map_or fallback f x = (case x of Some v \<Rightarrow> f v | None \<Rightarrow> fallback)"

definition markdown_row :: "'f float_ops \<Rightarrow> string \<Rightarrow> 'f timing \<Rightarrow> string" where
  "markdown_row F name t =
     (let object_size = map_or em_dash (\<lambda>bytes. fo_show F 2 (fo_div F (fo_of_u64 F bytes) (fo_of_u64 F MIB)) @ '' MiB'') (tm_bytes t);
          throughput = map_or em_dash (\<lambda>v. fo_show F 2 v @ '' MiB/s'') (tm_throughput_mib_per_second t);
          rss_before = map_or ''unavailable'' (format_mib F) (tm_rss_before_bytes t);
          peak = map_or ''unavailable'' (format_mib F) (tm_peak_rss_bytes t);
          delta_text = map_or ''unavailable'' (format_mib F) (tm_peak_rss_delta_bytes t);
          ratio = map_or em_dash (\<lambda>v. fo_show F 2 (fo_mul F v (fo_of_u64 F 100)) @ ''%'') (tm_peak_rss_delta_to_object_size t) in
      ''| '' @ name @ '' | '' @ object_size @ '' | '' @ fo_show F 6 (tm_elapsed_seconds t) @ '' s | '' @ throughput @ '' | '' @
      rss_before @ '' | '' @ peak @ '' | '' @ delta_text @ '' | '' @ ratio @ '' |'' @ LF)"

definition markdown_head :: "'f report \<Rightarrow> string" where
  "markdown_head r =
     (let e = rp_environment r; w = rp_workload r in
      ''# Local MinIO measurement'' @ LF @ LF @
      ''- Generated: `'' @ rp_generated_at_utc r @ ''`'' @ LF @
      ''- Revision: `'' @ en_git_revision e @ ''`'' @ (if en_git_worktree_dirty e then '' (dirty)'' else []) @ LF @
      ''- MinIO: `'' @ en_minio_release e @ ''`'' @ LF @
      ''- Image: `'' @ en_minio_image e @ ''`'' @ LF @
      ''- Host: `'' @ en_kernel e @ ''`'' @ LF @
      ''- CPU: `'' @ en_cpu_model e @ ''` ('' @ to_string (en_logical_cpus e) @ '' logical CPUs)'' @ LF @
      ''- Rust: `'' @ en_rustc e @ ''`'' @ LF @
      ''- In-memory payload: '' @ to_string (wl_payload_bytes w div MIB) @ '' MiB (`'' @ wl_payload_pattern w @ ''`)'' @ LF @
      ''- Disk-backed payload: '' @ to_string (wl_large_file_bytes w div MIB) @ '' MiB (generated with a '' @
        to_string (wl_file_generation_buffer_bytes w div 1024) @ '' KiB buffer)'' @ LF @
      ''- Multipart: '' @ to_string (wl_multipart_part_bytes w div MIB) @ '' MiB '' @ times_sign @ '' concurrency '' @
        to_string (wl_multipart_concurrency w) @ LF @ LF @
      ''| Measurement | Object size | Elapsed | Throughput | RSS before | Peak RSS | Peak RSS delta | Delta/object |'' @ LF @
      ''|---|---:|---:|---:|---:|---:|---:|---:|'' @ LF)"

definition render_markdown :: "'f float_ops \<Rightarrow> 'f report \<Rightarrow> string" where
  "render_markdown F r =
     (let m = rp_measurements r; b = ms_disk_backed_rss_bound m in
      markdown_head r @
      markdown_row F ''Cold `S3Client` construction'' (ms_cold_client_construction m) @
      markdown_row F ''Disk-backed managed multipart upload'' (ms_disk_backed_managed_multipart_upload m) @
      markdown_row F ''Single PUT'' (ms_single_put m) @
      markdown_row F ''Streaming GET to sink'' (ms_streaming_get_to_sink m) @
      markdown_row F ''Managed multipart upload'' (ms_managed_multipart_upload m) @
      LF @ ''Disk-backed RSS bound: **'' @ (if bc_passed b then ''PASS'' else ''FAIL'') @ ''** '' @ em_dash @ '' observed '' @
      map_or ''unavailable'' (format_mib F) (bc_observed_peak_rss_delta_bytes b) @ '', limit '' @ format_mib F (bc_limit_bytes b) @
      '' ('' @ bc_rationale b @ '').'' @ LF @
      LF @ ''## Method and caveats'' @ LF @ LF @
      concat (map (\<lambda>c. ''- '' @ c @ LF) (rp_caveats r)))"

section \<open>The run\<close>

datatype perf_error = PerfS3 s3_error | PerfKey object_key_error | PerfText string

datatype perf_event = PerfCall client_call | PerfWrote string string | PerfPrinted string

type_synonym ('d, 'a) perf_op = "(perf_error, perf_event, 'd, 'a) logged_op"

definition pf_text :: "string + 'a \<Rightarrow> ('d, 'a) perf_op" where
  "pf_text r = st_of (map_err PerfText r)"

definition pf_try :: "s3_error + 'a \<Rightarrow> ('d, 'a) perf_op" where
  "pf_try r = st_of (map_err PerfS3 r)"

definition pf_key :: "string \<Rightarrow> ('d, object_key) perf_op" where
  "pf_key v = st_of (map_err PerfKey (object_key_new v))"

definition pf_await :: "((s3_error + 'a) option \<Rightarrow> client_call) \<Rightarrow> ('d, 'a) op \<Rightarrow> ('d, 'a) perf_op" where
  "pf_await logged m = st_bind (st_call (PerfCall \<circ> logged) m) pf_try"

definition pf_upload :: "('d, 'p, 'o) service \<Rightarrow> 'd upload_world \<Rightarrow> managed_request \<Rightarrow> ('d, complete_output) perf_op" where
  "pf_upload S U rq = st_bind (st_upload PerfCall S U rq) pf_try"

definition pf_put :: "('d, 'p, 'o) service \<Rightarrow> object_key \<Rightarrow> string \<Rightarrow> ('d, put_object_output) perf_op" where
  "pf_put S key body =
     (let rq = put_object_request_new key (byte_stream_from_bytes body) in pf_await (CallPut rq) (put_object S rq))"

definition pf_delete :: "('d, 'p, 'o) service \<Rightarrow> object_key \<Rightarrow> ('d, delete_object_output) perf_op" where
  "pf_delete S key = (let rq = delete_object_request_new key in pf_await (CallDelete rq) (delete_object S rq))"

text \<open>
  One measured phase: the reading at its start, what the sampling thread did before, during and after the measured work and around the
  reading at its end, and the time it took.
\<close>

record phase_input =
  ph_idle :: "atomic_op list"
  ph_before :: "nat option"
  ph_during :: "atomic_op list"
  ph_after :: "nat option"
  ph_late :: "atomic_op list"
  ph_elapsed :: duration

definition phase_run :: "phase_input \<Rightarrow> rss_sampler \<Rightarrow> rss_sampler" where
  "phase_run p s = fold atomic_step
     (ph_idle p @ begin_phase_ops (ph_before p) @ ph_during p @ finish_phase_ops (ph_after p) @ ph_late p) s"

definition phase_reading :: "phase_input \<Rightarrow> rss_sampler \<Rightarrow> rss_reading" where
  "phase_reading p s = finish_phase (ph_before p) (phase_run p s)"

text \<open>The configuration of the measured client and of its uploads.\<close>

definition perf_config ::
  "config_ext \<Rightarrow> endpoint \<Rightarrow> string \<Rightarrow> credentials \<Rightarrow> string \<Rightarrow> string \<Rightarrow> credentials \<Rightarrow> s3_error + (credentials, 'o) s3_config" where
  "perf_config C aws version fallback endpoint_text bucket creds =
     and_then (endpoint_new (cx_uri C) endpoint_text) (\<lambda>ep.
     build C (builder_idle_body_timeout (from_secs 60) (builder_operation_timeout (from_secs 600) (builder_attempt_timeout (from_secs 600)
       (builder_credentials_provider creds (builder_region ''us-east-1'' (builder_bucket bucket (allow_http_for_local_testing
       (builder_endpoint ep (default_builder aws version fallback))))))))))"

definition perf_multipart_options :: "(duration \<Rightarrow> bool) \<Rightarrow> perf_options \<Rightarrow> s3_error + multipart_options" where
  "perf_multipart_options representable opts =
     and_then (multipart_options_new (po_part_bytes opts) (po_concurrency opts)) (with_transfer_timeout representable (from_secs 600))"

text \<open>What the run meets: the environment, the host, the temporary file, and the worlds of its uploads.\<close>

record ('d, 'f) perf_env =
  pe_vars :: "string \<Rightarrow> env_var"
  pe_vars_os :: "string \<Rightarrow> string option"
  pe_host :: host
  pe_pid :: nat
  pe_epoch :: "string + duration"
  pe_start :: "nat option \<times> nat option"
  pe_construction :: phase_input
  pe_disk :: phase_input
  pe_put :: phase_input
  pe_get :: phase_input
  pe_multipart :: phase_input
  pe_final_rss :: "nat option"
  pe_file_create :: "string option"
  pe_file_write :: "string \<Rightarrow> string option"
  pe_file_flush :: "string option"
  pe_file_path :: string
  pe_upload_file :: "'d upload_world"
  pe_upload_bytes :: "'d upload_world"
  pe_polls :: "poll_input list"
  pe_generated :: "string + string"
  pe_unix_timestamp :: int
  pe_json :: "'f report \<Rightarrow> string + string"
  pe_parent :: "string \<Rightarrow> string option"
  pe_create_dirs :: "string \<Rightarrow> string option"
  pe_write :: "string \<Rightarrow> string \<Rightarrow> string option"

text \<open>The transfers, in the order of the run.\<close>

definition warm_up :: "('d, 'p, 'o) service \<Rightarrow> string \<Rightarrow> ('d, unit) perf_op" where
  "warm_up S namespace =
     st_bind (pf_key (namespace @ ''/warmup'')) (\<lambda>key.
     st_bind (pf_put S key ''warmup'') (\<lambda>_.
     st_bind (pf_delete S key) (\<lambda>_. st_of (Inr ()))))"

definition disk_transfer ::
  "('d, 'p, 'o) service \<Rightarrow> ('d, 'f) perf_env \<Rightarrow> perf_options \<Rightarrow> multipart_options \<Rightarrow> string \<Rightarrow> ('d, unit) perf_op" where
  "disk_transfer S E opts mo namespace =
     st_bind (pf_text (generate_deterministic_file (pe_file_create E) (pe_file_write E) (pe_file_flush E) (po_large_file_bytes opts))) (\<lambda>_.
     st_bind (pf_key (namespace @ ''/disk-backed-managed-multipart'')) (\<lambda>key.
     st_bind (pf_upload S (pe_upload_file E) (managed_with_options mo (managed_from_path key (pe_file_path E)))) (\<lambda>_.
     let head = head_object_request_new key in
     st_bind (pf_await (CallHead head) (head_object S head)) (\<lambda>uploaded.
     if om_content_length uploaded \<noteq> po_large_file_bytes opts
     then st_of (Inl (PerfText (''disk-backed upload stored '' @ to_string (om_content_length uploaded) @ '' bytes, expected '' @
       to_string (po_large_file_bytes opts))))
     else st_bind (pf_delete S key) (\<lambda>_. st_of (Inr ()))))))"

definition payload_of :: "perf_options \<Rightarrow> string" where
  "payload_of opts = replicate (po_payload_bytes opts) (CHR 0xA5)"

fun consume_loop :: "'d checksum_ext \<Rightarrow> poll_input list \<Rightarrow> 'd response_stream \<Rightarrow> nat \<Rightarrow> (perf_error + nat) option" where
  "consume_loop X [] s downloaded = None"
| "consume_loop X (i # inputs) s downloaded = (case poll_next X i s of
     (FramePending, s') \<Rightarrow> consume_loop X inputs s' downloaded
   | (FrameError e, _) \<Rightarrow> Some (Inl (PerfS3 e))
   | (FrameEnd, _) \<Rightarrow> Some (Inr downloaded)
   | (FrameData chunk, s') \<Rightarrow> (case checked_add_u64 downloaded (length chunk) of
        None \<Rightarrow> Some (Inl (PerfText ''download length overflow''))
      | Some n \<Rightarrow> consume_loop X inputs s' n))"

definition put_and_get :: "('d, 'p, 'o) service \<Rightarrow> ('d, 'f) perf_env \<Rightarrow> perf_options \<Rightarrow> string \<Rightarrow> ('d, nat) perf_op" where
  "put_and_get S E opts namespace =
     st_bind (pf_key (namespace @ ''/single-put'')) (\<lambda>key.
     st_bind (pf_put S key (payload_of opts)) (\<lambda>_.
     let get = get_object_request_new key in
     st_bind (pf_await (\<lambda>_. CallGet get) (get_object S get)) (\<lambda>output.
     st_bind (\<lambda>w. (consume_loop (rx_checksum (sv_request S)) (pe_polls E) (go_body output) 0, [], w)) (\<lambda>downloaded.
     if downloaded \<noteq> po_payload_bytes opts
     then st_of (Inl (PerfText (''downloaded '' @ to_string downloaded @ '' bytes, expected '' @ to_string (po_payload_bytes opts))))
     else st_bind (pf_delete S key) (\<lambda>_. st_of (Inr downloaded))))))"

definition bytes_transfer ::
  "('d, 'p, 'o) service \<Rightarrow> ('d, 'f) perf_env \<Rightarrow> perf_options \<Rightarrow> multipart_options \<Rightarrow> string \<Rightarrow> ('d, unit) perf_op" where
  "bytes_transfer S E opts mo namespace =
     st_bind (pf_key (namespace @ ''/managed-multipart'')) (\<lambda>key.
     st_bind (pf_upload S (pe_upload_bytes E) (managed_with_options mo (managed_from_bytes key (payload_of opts)))) (\<lambda>_.
     st_bind (pf_delete S key) (\<lambda>_. st_of (Inr ()))))"

text \<open>The report, from the readings of the phases in their order and the number of bytes downloaded.\<close>

definition measurements_of ::
  "'f float_ops \<Rightarrow> ('d, 'f) perf_env \<Rightarrow> perf_options \<Rightarrow> nat \<Rightarrow> nat \<Rightarrow> 'f measurements" where
  "measurements_of F E opts downloaded limit =
     (let s0 = start (fst (pe_start E)) (snd (pe_start E)); s1 = phase_run (pe_construction E) s0; s2 = phase_run (pe_disk E) s1; s3 = phase_run (pe_put E) s2;
          s4 = phase_run (pe_get E) s3; s5 = phase_run (pe_multipart E) s4;
          disk = timing_transfer F (ph_elapsed (pe_disk E)) (po_large_file_bytes opts) (phase_reading (pe_disk E) s1);
          observed = tm_peak_rss_delta_bytes disk in
      \<lparr>ms_cold_client_construction = timing_operation F (ph_elapsed (pe_construction E)) (phase_reading (pe_construction E) s0),
       ms_disk_backed_managed_multipart_upload = disk,
       ms_disk_backed_rss_bound = \<lparr>bc_observed_peak_rss_delta_bytes = observed, bc_limit_bytes = limit,
         bc_passed = bound_passed observed limit, bc_rationale = ''four times the derived multipart in-flight byte bound''\<rparr>,
       ms_single_put = timing_transfer F (ph_elapsed (pe_put E)) (po_payload_bytes opts) (phase_reading (pe_put E) s2),
       ms_streaming_get_to_sink = timing_transfer F (ph_elapsed (pe_get E)) downloaded (phase_reading (pe_get E) s3),
       ms_managed_multipart_upload = timing_transfer F (ph_elapsed (pe_multipart E)) (po_payload_bytes opts) (phase_reading (pe_multipart E) s4),
       ms_sampled_process_peak_rss_bytes = sampled_process_peak (pe_final_rss E) s5\<rparr>)"

definition workload_of :: "perf_options \<Rightarrow> nat \<Rightarrow> nat \<Rightarrow> workload" where
  "workload_of opts budget limit = \<lparr>wl_payload_bytes = po_payload_bytes opts, wl_payload_pattern = ''every byte is 0xa5'',
     wl_multipart_part_bytes = po_part_bytes opts, wl_multipart_concurrency = po_concurrency opts,
     wl_multipart_in_flight_budget_bytes = budget, wl_disk_backed_peak_rss_limit_bytes = limit,
     wl_large_file_bytes = po_large_file_bytes opts, wl_file_generation_buffer_bytes = FILE_GENERATION_BUFFER_BYTES,
     wl_measured_iterations_per_transfer = 1, wl_warmup = ''one 6-byte PUT and DELETE before measured transfers''\<rparr>"

definition report_of ::
  "'f float_ops \<Rightarrow> ('d, 'f) perf_env \<Rightarrow> string \<Rightarrow> perf_options \<Rightarrow> nat \<Rightarrow> nat \<Rightarrow> nat \<Rightarrow> string + 'f report" where
  "report_of F E endpoint_text opts downloaded budget limit =
     and_then (pe_generated E) (\<lambda>utc.
     reject_if (pe_unix_timestamp E < 0) ''out of range integral type conversion attempted''
     (Inr \<lparr>rp_schema_version = 2, rp_generated_at_utc = utc, rp_generated_at_unix_seconds = nat (pe_unix_timestamp E),
       rp_environment = collect_environment (pe_host E) endpoint_text, rp_workload = workload_of opts budget limit,
       rp_measurements = measurements_of F E opts downloaded limit, rp_caveats = CAVEATS\<rparr>))"

text \<open>Writing the two files, each after its directory, and the final verdict.\<close>

definition ensure_parent :: "('d, 'f) perf_env \<Rightarrow> string \<Rightarrow> ('d, unit) perf_op" where
  "ensure_parent E path = pf_text (case pe_parent E path of
     None \<Rightarrow> Inr ()
   | Some parent \<Rightarrow> if parent = [] then Inr () else (case pe_create_dirs E parent of Some e \<Rightarrow> Inl e | None \<Rightarrow> Inr ()))"

definition write_file :: "('d, 'f) perf_env \<Rightarrow> string \<Rightarrow> string \<Rightarrow> ('d, unit) perf_op" where
  "write_file E path body w =
     (Some (case pe_write E path body of Some e \<Rightarrow> Inl (PerfText e) | None \<Rightarrow> Inr ()), [PerfWrote path body], w)"

definition write_outputs :: "'f float_ops \<Rightarrow> ('d, 'f) perf_env \<Rightarrow> perf_options \<Rightarrow> 'f report \<Rightarrow> ('d, unit) perf_op" where
  "write_outputs F E opts r =
     st_bind (ensure_parent E (po_json_path opts)) (\<lambda>_.
     st_bind (ensure_parent E (po_markdown_path opts)) (\<lambda>_.
     st_bind (pf_text (pe_json E r)) (\<lambda>json.
     st_bind (write_file E (po_json_path opts) json) (\<lambda>_.
     write_file E (po_markdown_path opts) (render_markdown F r)))))"

definition pf_print :: "string \<Rightarrow> ('d, unit) perf_op" where
  "pf_print line w = (Some (Inr ()), [PerfPrinted line], w)"

definition finish_run :: "'f float_ops \<Rightarrow> ('d, 'f) perf_env \<Rightarrow> perf_options \<Rightarrow> 'f report \<Rightarrow> ('d, unit) perf_op" where
  "finish_run F E opts r =
     st_bind (write_outputs F E opts r) (\<lambda>_.
     st_bind (pf_print (''wrote '' @ po_json_path opts)) (\<lambda>_.
     st_bind (pf_print (''wrote '' @ po_markdown_path opts)) (\<lambda>_.
     let b = ms_disk_backed_rss_bound (rp_measurements r) in
     if \<not> bc_passed b
     then st_of (Inl (PerfText (''disk-backed upload peak RSS delta '' @
       map_or ''None'' (\<lambda>n. ''Some('' @ to_string n @ '')'') (bc_observed_peak_rss_delta_bytes b) @ '' exceeded the '' @
       to_string (bc_limit_bytes b) @ '' byte limit'')))
     else st_of (Inr ()))))"

text \<open>
  The program. \<open>svc\<close> puts the client among everything outside that its operations use; the product of part size and
  concurrency is the unchecked one, so its overflow is a panic, which ends the run without a result.
\<close>

definition perf_transfers ::
  "'f float_ops \<Rightarrow> ('d, 'f) perf_env \<Rightarrow> ('d, 'p, 'o) service \<Rightarrow> string \<Rightarrow> perf_options \<Rightarrow> multipart_options \<Rightarrow> ('d, unit) perf_op" where
  "perf_transfers F E S endpoint_text opts mo =
     st_bind (pf_text (pe_epoch E)) (\<lambda>now.
     let namespace = ''s3-wire-measurements/'' @ to_string (pe_pid E) @ ''/'' @ to_string (as_secs now) in
     st_bind (warm_up S namespace) (\<lambda>_.
     st_bind (disk_transfer S E opts mo namespace) (\<lambda>_.
     st_bind (put_and_get S E opts namespace) (\<lambda>downloaded.
     st_bind (bytes_transfer S E opts mo namespace) (\<lambda>_.
     case in_flight_budget opts of
       None \<Rightarrow> (\<lambda>w. (None, [], w))
     | Some budget \<Rightarrow>
         st_bind (pf_text (rss_limit budget)) (\<lambda>limit.
         st_bind (pf_text (report_of F E endpoint_text opts downloaded budget limit)) (finish_run F E opts)))))))"

definition perf_main ::
  "'f float_ops \<Rightarrow> ('d, 'f) perf_env \<Rightarrow> config_ext \<Rightarrow> endpoint \<Rightarrow> string \<Rightarrow> credentials \<Rightarrow> retry_quota list
     \<Rightarrow> ((credentials, 'o) client \<Rightarrow> ('d, credentials, 'o) service) \<Rightarrow> ('d, unit) perf_op" where
  "perf_main F E C aws version fallback quotas svc =
     st_bind (pf_text (parse_options (pe_vars E) (pe_vars_os E))) (\<lambda>opts.
     st_bind (pf_text (perf_required_env (pe_vars E) ''MINIO_S3_ENDPOINT'')) (\<lambda>endpoint_text.
     st_bind (pf_text (perf_required_env (pe_vars E) ''MINIO_S3_BUCKET'')) (\<lambda>bucket.
     st_bind (pf_text (perf_required_env (pe_vars E) ''MINIO_ROOT_USER'')) (\<lambda>access_key.
     st_bind (pf_text (perf_required_env (pe_vars E) ''MINIO_ROOT_PASSWORD'')) (\<lambda>secret_key.
     st_bind (pf_try (credentials_new access_key secret_key None)) (\<lambda>creds.
     st_bind (pf_try (perf_config C aws version fallback endpoint_text bucket creds)) (\<lambda>cfg.
     st_bind (pf_try (perf_multipart_options (cx_representable C) opts)) (\<lambda>mo.
     st_bind (pf_try (fst (client_new C cfg quotas))) (\<lambda>cl.
     perf_transfers F E (svc cl) endpoint_text opts mo)))))))))"

section \<open>A successful run\<close>

lemma pf_Inr [simp]:
  "pf_text r w = (Some (Inr x), calls, w') \<longleftrightarrow> r = Inr x \<and> calls = [] \<and> w' = w"
  "pf_try r' w = (Some (Inr x), calls, w') \<longleftrightarrow> r' = Inr x \<and> calls = [] \<and> w' = w"
  "pf_key v w = (Some (Inr k), calls, w') \<longleftrightarrow> object_key_new v = Inr k \<and> calls = [] \<and> w' = w"
  "pf_print t w = (Some (Inr u), calls, w') \<longleftrightarrow> calls = [PerfPrinted t] \<and> w' = w"
  "write_file E path body w = (Some (Inr u), calls, w') \<longleftrightarrow> pe_write E path body = None \<and> calls = [PerfWrote path body] \<and> w' = w"
  by (auto simp: pf_text_def pf_try_def pf_key_def map_err_Inr_iff pf_print_def write_file_def split: option.splits)

lemma pf_await_Inr:
  "pf_await logged m w = (Some (Inr x), calls, w') \<longleftrightarrow> m w = Some (Inr x, w') \<and> calls = [PerfCall (logged (Some (Inr x)))]"
  by (auto simp: pf_await_def st_bind_Inr st_call_Inr)

lemma pf_put_delete_Inr:
  "pf_put S key body w = (Some (Inr p), calls, w') \<Longrightarrow>
     calls = [PerfCall (CallPut (put_object_request_new key (byte_stream_from_bytes body)) (Some (Inr p)))]"
  "pf_delete S key w = (Some (Inr d), calls, w') \<Longrightarrow> calls = [PerfCall (CallDelete (delete_object_request_new key) (Some (Inr d)))]"
  by (auto simp: pf_put_def pf_delete_def pf_await_Inr Let_def)

lemma pf_upload_Inr:
  "pf_upload S U rq w = (Some (Inr out), calls, w') \<Longrightarrow> \<exists>remote. calls = [PerfCall (CallUpload rq remote)] \<and> complete_upload S U rq remote"
  by (auto simp: pf_upload_def st_bind_Inr dest!: st_upload_Inr)

definition perf_calls :: "perf_event list \<Rightarrow> client_call list" where
  "perf_calls log = concat (map (\<lambda>ev. case ev of PerfCall c \<Rightarrow> [c] | _ \<Rightarrow> []) log)"

lemma perf_calls_simps [simp]:
  "perf_calls [] = []" "perf_calls (PerfCall c # log) = c # perf_calls log" "perf_calls (PerfWrote p t # log) = perf_calls log"
  "perf_calls (PerfPrinted t # log) = perf_calls log" "perf_calls (log @ log') = perf_calls log @ perf_calls log'"
  by (simp_all add: perf_calls_def)

lemmas perf_run = st_bind_Inr pf_await_Inr Let_def
lemmas perf_requests = put_object_request_new_def delete_object_request_new_def managed_with_options_def managed_from_path_def
  managed_from_bytes_def

text \<open>The data of the frames that a stream gives up to its end, if it ends without an error within the polls.\<close>

fun polled :: "'d checksum_ext \<Rightarrow> poll_input list \<Rightarrow> 'd response_stream \<Rightarrow> string option" where
  "polled X [] s = None"
| "polled X (i # inputs) s = (case poll_next X i s of
     (FramePending, s') \<Rightarrow> polled X inputs s'
   | (FrameError _, _) \<Rightarrow> None
   | (FrameEnd, _) \<Rightarrow> Some []
   | (FrameData chunk, s') \<Rightarrow> map_option ((@) chunk) (polled X inputs s'))"

lemma consume_loop_polled:
  "consume_loop X inputs s n = Some (Inr m) \<Longrightarrow> \<exists>data. polled X inputs s = Some data \<and> m = n + length data"
proof (induction inputs arbitrary: s n)
  case (Cons i inputs)
  obtain frame s' where f: "poll_next X i s = (frame, s')" by fastforce
  show ?case
  proof (cases frame)
    case (FrameData chunk)
    with Cons.prems f have "consume_loop X inputs s' (n + length chunk) = Some (Inr m)"
      by (auto simp: checked_add_u64_def split: if_splits)
    from Cons.IH[OF this] show ?thesis by (auto simp: f FrameData)
  qed (use Cons f in auto)
qed simp

text \<open>
  The calls of a measuring run, by what they do to which object: a successful PUT of a body, a successful deletion, a managed upload of a
  source that sent all of it, a HEAD answered with a size, and a GET of the whole object whose body was read to its end.
\<close>

definition puts :: "object_key \<Rightarrow> string \<Rightarrow> client_call \<Rightarrow> bool" where
  "puts key body call \<longleftrightarrow> (\<exists>rq out. call = CallPut rq (Some (Inr out)) \<and> put_key rq = key \<and> put_body rq = UploadBytes body)"

definition deletes :: "object_key \<Rightarrow> client_call \<Rightarrow> bool" where
  "deletes key call \<longleftrightarrow> (\<exists>rq out. call = CallDelete rq (Some (Inr out)) \<and> del_key rq = key)"

definition uploads :: "('d, 'p, 'o) service \<Rightarrow> 'd upload_world \<Rightarrow> object_key \<Rightarrow> multipart_source \<Rightarrow> client_call \<Rightarrow> bool" where
  "uploads S U key src call \<longleftrightarrow>
     (\<exists>rq remote. call = CallUpload rq remote \<and> mr_key rq = key \<and> mr_source rq = src \<and> complete_upload S U rq remote)"

definition heads :: "object_key \<Rightarrow> nat \<Rightarrow> client_call \<Rightarrow> bool" where
  "heads key n call \<longleftrightarrow> (\<exists>rq md. call = CallHead rq (Some (Inr md)) \<and> head_key rq = key \<and> om_content_length md = n)"

definition gets :: "('d, 'p, 'o) service \<Rightarrow> poll_input list \<Rightarrow> object_key \<Rightarrow> nat \<Rightarrow> client_call \<Rightarrow> bool" where
  "gets S inputs key n call \<longleftrightarrow> (\<exists>rq w out w' data. call = CallGet rq \<and> get_key rq = key \<and> get_range rq = None \<and>
     get_object S rq w = Some (Inr out, w') \<and> polled (rx_checksum (sv_request S)) inputs (go_body out) = Some data \<and> length data = n)"

definition expected_calls ::
  "('d, 'p, 'o) service \<Rightarrow> ('d, 'f) perf_env \<Rightarrow> perf_options \<Rightarrow> object_key \<Rightarrow> object_key \<Rightarrow> object_key \<Rightarrow> object_key \<Rightarrow> (client_call \<Rightarrow> bool) list" where
  "expected_calls S E opts warm disk single parts =
     (let payload = replicate (po_payload_bytes opts) (CHR 0xA5) in
      [puts warm ''warmup'', deletes warm,
       uploads S (pe_upload_file E) disk (SourceFile (pe_file_path E)), heads disk (po_large_file_bytes opts), deletes disk,
       puts single payload, gets S (pe_polls E) single (po_payload_bytes opts), deletes single,
       uploads S (pe_upload_bytes E) parts (SourceBytes payload), deletes parts])"

lemmas call_defs = byte_stream_from_bytes_def puts_def deletes_def uploads_def heads_def gets_def perf_requests head_object_request_new_def get_object_request_new_def

lemma object_key_new_str: "object_key_new v = Inr k \<Longrightarrow> k = ObjectKey v"
  by (auto simp: object_key_new_def split: if_splits)

text \<open>Each transfer that succeeds has made exactly its calls.\<close>

lemma warm_up_success: "warm_up S namespace w = (Some (Inr u), log, w') \<Longrightarrow>
    list_all2 (\<lambda>P c. P c) [puts (ObjectKey (namespace @ ''/warmup'')) ''warmup'', deletes (ObjectKey (namespace @ ''/warmup''))] (perf_calls log)"
  by (auto simp: warm_up_def perf_run call_defs dest!: pf_put_delete_Inr object_key_new_str)

lemma disk_transfer_success:
  "disk_transfer S E opts mo namespace w = (Some (Inr u), log, w') \<Longrightarrow> (let key = ObjectKey (namespace @ ''/disk-backed-managed-multipart'') in
     list_all2 (\<lambda>P c. P c) [uploads S (pe_upload_file E) key (SourceFile (pe_file_path E)), heads key (po_large_file_bytes opts), deletes key]
       (perf_calls log))"
  by (auto simp: disk_transfer_def perf_run call_defs dest!: pf_upload_Inr pf_put_delete_Inr object_key_new_str split: if_splits)

lemma put_and_get_success:
  "put_and_get S E opts namespace w = (Some (Inr n), log, w') \<Longrightarrow> n = po_payload_bytes opts \<and> (let key = ObjectKey (namespace @ ''/single-put'') in
     list_all2 (\<lambda>P c. P c) [puts key (replicate (po_payload_bytes opts) (CHR 0xA5)), gets S (pe_polls E) key (po_payload_bytes opts), deletes key]
       (perf_calls log))"
  by (fastforce simp: put_and_get_def payload_of_def perf_run call_defs dest!: pf_put_delete_Inr object_key_new_str consume_loop_polled split: if_splits)

lemma bytes_transfer_success:
  "bytes_transfer S E opts mo namespace w = (Some (Inr u), log, w') \<Longrightarrow> (let key = ObjectKey (namespace @ ''/managed-multipart'') in
     list_all2 (\<lambda>P c. P c) [uploads S (pe_upload_bytes E) key (SourceBytes (replicate (po_payload_bytes opts) (CHR 0xA5))), deletes key]
       (perf_calls log))"
  by (auto simp: bytes_transfer_def payload_of_def perf_run call_defs dest!: pf_upload_Inr pf_put_delete_Inr object_key_new_str)

lemma finish_run_success:
  "finish_run F E opts r w = (Some (Inr u), log, w') \<Longrightarrow> perf_calls log = [] \<and> bc_passed (ms_disk_backed_rss_bound (rp_measurements r)) \<and>
     PerfWrote (po_markdown_path opts) (render_markdown F r) \<in> set log"
  by (auto simp: finish_run_def write_outputs_def ensure_parent_def perf_run split: if_splits)

text \<open>A run that made its expected calls has deleted everything it stored.\<close>

lemma expected_calls_leave_nothing:
  "list_all2 (\<lambda>P c. P c) (expected_calls S E opts warm disk single parts) calls \<Longrightarrow> left_behind calls = {}"
  by (auto simp: expected_calls_def Let_def list_all2_Cons1 puts_def deletes_def uploads_def heads_def gets_def left_behind_def)

lemma perf_transfers_success:
  assumes "perf_transfers F E S et opts mo w = (Some (Inr u), log, w')"
  shows "(\<exists>warm disk single parts. distinct [warm, disk, single, parts] \<and>
      list_all2 (\<lambda>P c. P c) (expected_calls S E opts warm disk single parts) (perf_calls log)) \<and>
    (\<exists>budget limit rep. in_flight_budget opts = Some budget \<and> rss_limit budget = Inr limit \<and>
       report_of F E et opts (po_payload_bytes opts) budget limit = Inr rep \<and>
       bc_passed (ms_disk_backed_rss_bound (rp_measurements rep)) \<and> PerfWrote (po_markdown_path opts) (render_markdown F rep) \<in> set log)"
proof -
  from assms obtain namespace l1 l2 l3 l4 l5 n budget limit rep w1 w2 w3 w4 where
    steps: "warm_up S namespace w = (Some (Inr ()), l1, w1)" "disk_transfer S E opts mo namespace w1 = (Some (Inr ()), l2, w2)"
      "put_and_get S E opts namespace w2 = (Some (Inr n), l3, w3)" "bytes_transfer S E opts mo namespace w3 = (Some (Inr ()), l4, w4)"
    and limit: "in_flight_budget opts = Some budget" "rss_limit budget = Inr limit" "report_of F E et opts n budget limit = Inr rep"
    and last: "finish_run F E opts rep w4 = (Some (Inr u), l5, w')" and log: "log = l1 @ l2 @ l3 @ l4 @ l5"
    by (auto simp: perf_transfers_def perf_run split: option.splits)
  note facts = warm_up_success[OF steps(1)] disk_transfer_success[OF steps(2), unfolded Let_def]
    put_and_get_success[OF steps(3), unfolded Let_def] bytes_transfer_success[OF steps(4), unfolded Let_def] finish_run_success[OF last]
  let ?k = "\<lambda>name. ObjectKey (namespace @ name)"
  have "list_all2 (\<lambda>P c. P c) (expected_calls S E opts (?k ''/warmup'') (?k ''/disk-backed-managed-multipart'') (?k ''/single-put'')
      (?k ''/managed-multipart'')) (perf_calls log)"
    using list_all2_appendI[OF facts(1) list_all2_appendI[OF facts(2) list_all2_appendI[OF conjunct2[OF facts(3)] facts(4)]]] facts(5)
    by (simp only: expected_calls_def Let_def log perf_calls_simps append_Cons append_Nil append_Nil2)
  moreover have "distinct [?k ''/warmup'', ?k ''/disk-backed-managed-multipart'', ?k ''/single-put'', ?k ''/managed-multipart'']" by simp
  ultimately have "\<exists>warm disk single parts. distinct [warm, disk, single, parts] \<and>
      list_all2 (\<lambda>P c. P c) (expected_calls S E opts warm disk single parts) (perf_calls log)" by blast
  then show ?thesis using limit facts(3,5) unfolding log by simp
qed

text \<open>
  Property C29. A measuring run that succeeds is sound. Its calls are exactly, in this order: PUT and deletion of the warm-up object; a managed
  upload of the generated file that sent all its parts, a HEAD of that same object answered with the size of the generated file, and its
  deletion; PUT of the payload, GET of that same object whose body ended after as many bytes as the payload has, and its deletion; a managed
  upload of the payload and its deletion. The four objects are distinct, so none is left behind. The report that was written describes a run
  with accepted options, the number of bytes downloaded, and a memory growth of the disk-backed phase that was read and is at most four times
  part size times concurrency.
\<close>

theorem measuring_run_sound:
  "case perf_main F E C aws version fallback quotas svc w of (r, log, _) \<Rightarrow> (case r of
     Some (Inr _) \<Rightarrow> left_behind (perf_calls log) = {} \<and>
       (\<exists>opts rep observed. parse_options (pe_vars E) (pe_vars_os E) = Inr opts \<and>
          (\<exists>cl warm disk single parts. distinct [warm, disk, single, parts] \<and>
             list_all2 (\<lambda>P c. P c) (expected_calls (svc cl) E opts warm disk single parts) (perf_calls log)) \<and>
          PerfWrote (po_markdown_path opts) (render_markdown F rep) \<in> set log \<and>
          tm_bytes (ms_streaming_get_to_sink (rp_measurements rep)) = Some (po_payload_bytes opts) \<and>
          tm_peak_rss_delta_bytes (ms_disk_backed_managed_multipart_upload (rp_measurements rep)) = Some observed \<and>
          observed \<le> 4 * po_part_bytes opts * po_concurrency opts)
   | _ \<Rightarrow> True)"
proof (cases "\<exists>log w'. perf_main F E C aws version fallback quotas svc w = (Some (Inr ()), log, w')")
  case True
  then obtain log w' where run: "perf_main F E C aws version fallback quotas svc w = (Some (Inr ()), log, w')" by blast
  then obtain opts et mo cl where opts: "parse_options (pe_vars E) (pe_vars_os E) = Inr opts"
    and tr: "perf_transfers F E (svc cl) et opts mo w = (Some (Inr ()), log, w')"
    by (auto simp: perf_main_def perf_run)
  from perf_transfers_success[OF tr] obtain warm disk single parts budget limit rep where
    c: "distinct [warm, disk, single, parts]" "list_all2 (\<lambda>P c. P c) (expected_calls (svc cl) E opts warm disk single parts) (perf_calls log)"
    and f: "in_flight_budget opts = Some budget" "rss_limit budget = Inr limit" "report_of F E et opts (po_payload_bytes opts) budget limit = Inr rep"
      "bc_passed (ms_disk_backed_rss_bound (rp_measurements rep))" "PerfWrote (po_markdown_path opts) (render_markdown F rep) \<in> set log" by blast
  have m: "rp_measurements rep = measurements_of F E opts (po_payload_bytes opts) limit"
    using f(3) by (auto simp: report_of_def split: if_splits)
  have l: "limit = 4 * po_part_bytes opts * po_concurrency opts"
    using f(1,2) by (auto simp: in_flight_budget_def rss_limit_def checked_mul_u64_def ok_or_def split: if_splits)
  have "\<exists>observed. tm_peak_rss_delta_bytes (ms_disk_backed_managed_multipart_upload (rp_measurements rep)) = Some observed \<and> observed \<le> limit"
    using f(4) unfolding m by (simp add: measurements_of_def bound_passed_def Let_def split: option.splits)
  moreover have "tm_bytes (ms_streaming_get_to_sink (rp_measurements rep)) = Some (po_payload_bytes opts)"
    unfolding m by (simp add: measurements_of_def timing_transfer_def Let_def)
  moreover have "\<exists>cl warm disk single parts. distinct [warm, disk, single, parts] \<and>
      list_all2 (\<lambda>P c. P c) (expected_calls (svc cl) E opts warm disk single parts) (perf_calls log)" using c by blast
  ultimately show ?thesis unfolding run using f(5) opts l expected_calls_leave_nothing[OF c(2)] by auto
next
  case False
  then show ?thesis by (auto split: prod.split option.split sum.split)
qed

end
