(* ===== verification/Spec2Isabelle.thy ===== *)
theory Spec2Isabelle
  imports Execute_Safety Artifact_Store Debug_Format Fuzzing Examples Perf_Run
begin

text \<open>
  A verification development of \<^verbatim>\<open>s3-wire\<close>, an asynchronous client for S3-compatible object stores. Paths below are
  relative to the repository's \<^verbatim>\<open>src/\<close>.

  \<^bold>\<open>The program.\<close> A caller builds a configuration (\<open>config/mod.rs\<close>) and a client (\<open>client/mod.rs\<close>), and calls operations
  (\<open>client/object/\<close>, \<open>client/multipart/\<close>). An operation assembles headers and a target URL (\<open>endpoint/mod.rs\<close>), prepares
  its body (\<open>stream/upload.rs\<close>, \<open>stream/snapshot.rs\<close>) and enters the request loop (\<open>client/request/execute.rs\<close>). Every turn
  of the loop asks the credential provider (\<open>credentials/mod.rs\<close>), signs the request (\<open>client/request/signing.rs\<close> over
  \<open>signing/\<close>), sends it through the transport (\<open>transport/mod.rs\<close>), and reads the answer: success, a region redirect, or a
  failure that is retried or reported, under a policy (\<open>retry/mod.rs\<close>) and a token quota that all clones of a client
  share. Answers are XML documents (\<open>protocol/\<close>), header values or a download stream (\<open>stream/download.rs\<close>,
  \<open>client/download.rs\<close>). The managed multipart upload (\<open>client/multipart_upload.rs\<close>) divides a source into parts, keeps a
  bounded number of them in flight, and completes or aborts the upload. Failures are values of one error type
  (\<open>error/mod.rs\<close>).

  \<^bold>\<open>Theories and the code they model.\<close>
  \<^item> \<open>Prelude\<close>: results and their combinators, machine arithmetic with overflow, durations, ASCII and string functions, decimal
    numbers; shared by everything.
  \<^item> \<open>S3_Error\<close>: \<open>error/mod.rs\<close>. \<open>Retry\<close>: \<open>retry/mod.rs\<close> and the quota of \<open>client/mod.rs\<close>; delays are bounded, and the
    system of all clients that share a quota, with permits held and dropped, never spends more than it has.
  \<^item> \<open>Percent\<close>: the four percent encoders and the decoder, all instances of the locale \<open>percent_codec\<close>. \<open>Canonical\<close> and
    \<open>Signing\<close>: \<open>signing/\<close>, canonical requests and AWS Signature Version 4; the canonical headers equal a declarative
    specification, requests with the same canonical form agree in everything that is signed, and the signature is the reference
    \<open>sigv4_signature\<close>, written down once as the protocol prescribes it.
  \<^item> \<open>Operation_Types\<close>, \<open>Multipart_Types\<close>: \<open>operation/\<close>, validated request types, and the recorder that keeps parts sorted
    in whatever order they finish. \<open>Checksums\<close>: \<open>operation/checksum.rs\<close>, table-driven CRCs equal to bitwise ones.
  \<^item> \<open>Stream_Core\<close>, \<open>Upload_Stream\<close>, \<open>Download_Stream\<close>: bodies as poll machines (locale \<open>stream_machine\<close>); only the signed
    bytes are sent, only verified bytes are delivered, a file appears at the destination only when it is complete.
  \<^item> \<open>Endpoint\<close>, \<open>Client_Config\<close>, \<open>Credential_Providers\<close>: targets, configuration, clients, observers, credentials and their cache.
    Distinct objects have distinct targets, and the path that is signed is the path that is sent exactly for base paths in canonical
    form (\<open>canonical_text\<close>, the fixed points of the signer's loop).
  \<^item> \<open>Request_Signing\<close>: \<open>client/request/headers.rs\<close>, \<open>signing.rs\<close> and \<open>client/presign.rs\<close>; signed requests and presigned URLs
    carry the reference signature over exactly what is sent. \<open>Response\<close>: \<open>client/request/response.rs\<close>
    and \<open>retry.rs\<close>; a collected body is complete. \<open>Transport\<close>: \<open>transport/mod.rs\<close>. \<open>Protocol\<close>: \<open>protocol/\<close>, bounded XML parsing and writing.
  \<^item> \<open>Execute\<close>: one turn of the request loop (\<open>attempt_step\<close>) and the loop (\<open>send_loop\<close>). \<open>Execute_Safety\<close>: the loop ends,
    the observer sees a consistent story, a body that cannot be replayed is sent once, redirects keep target and signing
    region together, and each turn refines the quota's transition system with an exact ledger of what it spends, gives back and
    regains.
  \<^item> \<open>Operation_Headers\<close>, \<open>Operations\<close>, \<open>Listing\<close>: the operations over a world that holds the quota, the observer's events
    and what the outside does in each call; they never reach a branch marked unreachable, an error document inside a success
    response is never a success, and listings are complete chains of pages (locale \<open>pagination\<close>, three instances).
  \<^item> \<open>Multipart_Upload\<close>, \<open>Managed_Client\<close>: the managed upload with its scheduler as a transition system, and its run on the
    client's own operations (locale \<open>upload_service\<close>): every part is sent with the bytes read for it, and a failed upload is aborted
    and reports its cause. The theorem below joins the two.
  \<^item> \<open>Client_Program\<close>: programs that use the client. A program returns the log of the calls it made, also when it fails or has
    not returned; what objects it may have left behind is read off the log. \<open>Artifact_Store\<close>: \<open>examples/artifact_store.rs\<close> (beside the
    crate's \<open>src/\<close>), a content-addressed store for several tenants: a manifest follows its payload, tenants do not reach each
    other's objects, garbage collection and clean-up touch exactly what they should, and what is uploaded or downloaded has its
    digest. \<open>Examples\<close>: the other programs of \<open>examples/\<close>; what they create they delete.
  \<^item> \<open>Debug_Format\<close>: the \<open>Debug\<close> and \<open>Display\<close> implementations of everything that holds a secret, over the builders of
    \<open>core::fmt\<close>; what is printed does not depend on the secrets, and an error prints no control character.
  \<^item> \<open>Fuzzing\<close>: \<open>fuzzing.rs\<close>, with the assertions of the fuzz targets proved for every input.
  \<^item> \<open>Perf_Tool\<close> and \<open>Perf_Run\<close>: \<open>tools/perf/src/main.rs\<close>, the options, the memory sampler with its interleaving thread, the host
    information, the generated file, the timed transfers and the report. Accepted options can be run without overflow, a
    phase's peak is the maximum of its samples, a run that succeeds made exactly its calls and leaves nothing behind, and a clean working
    tree is nevertheless reported as changed (a defect of the tool).

  \<^bold>\<open>How the outside appears.\<close> Code outside the repository is a parameter: records of functions for the crates (\<open>signing_ext\<close>,
  \<open>checksum_ext\<close>, \<open>uri_ext\<close>, \<open>http_ext\<close>, \<open>xml_ext\<close>, \<open>request_ext\<close>, \<open>file_ext\<close>), with what their documentation promises as
  named hypotheses (\<open>digest_documented\<close>, \<open>writer_documented\<close>, \<open>authority_documented\<close> and the like); each property that uses such
  a hypothesis has a witness with concrete functions. Clocks, credential answers, the network, random numbers, other users of
  the quota, cancellation and the order in which parts finish are inputs: one \<open>attempt_env\<close> per attempt, one poll input per poll,
  one event per wake-up of the scheduler. A loop consumes such a list; when it is used up the result is \<open>None\<close>, which means "has
  not returned yet" and never "has failed". How many inputs are enough is proved: the attempt limit for the request loop, ten
  thousand events for an upload, one input per byte frame for a body. Strings are byte strings; lengths and sizes are natural
  numbers, with the limit of 64 bits written out where the code checks for overflow; counters that saturate or wrap are words.
  Panics that the code excludes by construction are values (a marked world, an error), and lemmas show that they do not occur.

  \<^bold>\<open>Not modelled.\<close> What hyper and rustls do with the connector that \<open>Transport::new\<close> configures. Getters are the
  selectors of a record. \<open>Debug\<close> output of types that hold no secret is left out, and so is the alternate (pretty) form. \<open>lib.rs\<close>
  re-exports; the benchmarks are timing loops around the functions of \<open>fuzzing.rs\<close>, whose results they discard.
  Dropping a future in the middle of an operation is modelled where the code reacts to it (the permit's drop, the cancellation of
  a managed upload), not at every await point.
\<close>

section \<open>The managed upload on the client's operations\<close>

text \<open>
  Property C1. A managed upload run by the client is complete: in every run over the client's own operations, whatever the
  service answers and however the parts interleave with cancellation and deadlines, a returned success means that one upload
  was created and completed with the parts 1 to the part count, each once and in order, and that its output was read from
  a safe completion document that is not an error document.
\<close>

theorem managed_upload_over_client:
  "case run_multipart_upload X read_file read_exact (client_env S dl w_create w_part w_complete w_abort R) rq of
     Some (Inr out, calls) \<Rightarrow>
       sound_completion S out \<and> (\<exists>src created completion w'. prepare_multipart X read_file (mr_source rq) = Inr src \<and>
         create_multipart_upload_with_deadline S (create_for rq) dl w_create = Some (Inr created, w') \<and>
         calls = [CreateCall (create_for rq), CompleteCall completion] \<and>
         cmp_key completion = mr_key rq \<and> cmp_upload_id completion = cro_upload_id created \<and>
         map part_num (cmp_completed_parts completion) =
           [1..<div_ceil (length (source_content src)) (mo_part_size (mr_options rq)) + 1])
   | _ \<Rightarrow> True"
proof (cases "\<exists>out calls. run_multipart_upload X read_file read_exact (client_env S dl w_create w_part w_complete w_abort R) rq = Some (Inr out, calls)")
  case True
  then obtain out calls where r: "run_multipart_upload X read_file read_exact (client_env S dl w_create w_part w_complete w_abort R) rq = Some (Inr out, calls)"
    by blast
  then have c: "0 < mo_concurrency (mr_options rq)" using no_concurrency_no_success by blast
  from managed.run_complete[OF r[unfolded client_env_def] c] obtain src created completion where
    f: "sound_completion S out" "prepare_multipart X read_file (mr_source rq) = Inr src"
      "answer_of (create_multipart_upload_with_deadline S (create_for rq) dl w_create) = Inr created"
      "calls = [CreateCall (create_for rq), CompleteCall completion]" "cmp_key completion = mr_key rq"
      "cmp_upload_id completion = cro_upload_id created"
      "map part_num (cmp_completed_parts completion) =
         [1..<div_ceil (length (source_content src)) (mo_part_size (mr_options rq)) + 1]" by blast
  from answer_of_Inr[OF f(3)] obtain w' where w': "create_multipart_upload_with_deadline S (create_for rq) dl w_create = Some (Inr created, w')" ..
  show ?thesis unfolding r option.case prod.case sum.case 
    using f(1,2,4-7) w' by (intro conjI exI[of _ src] exI[of _ created] exI[of _ completion] exI[of _ w'])
next
  case False
  then show ?thesis by (auto split: option.split prod.split sum.split)
qed

end
